theory Spec2Isabelle
  imports Complex_Main
begin

section \<open>Data model of \<^verbatim>\<open>src/main.js\<close>\<close>

text \<open>
  JavaScript numbers are modelled as mathematical reals: every arithmetic
  expression of the source is written out as it stands, without rounding.
  A tile object is identified with its position in \<^verbatim>\<open>tiles[x][y]\<close>: the source
  creates one object per position in \<^verbatim>\<open>Tiles()\<close> and afterwards only assigns to
  fields of these objects, never to the array slots.
\<close>

datatype TileCover = NotComputed | Rock | Water | Ice

record Atmosphere =
  nitrogen :: real
  oxygen :: real
  carbonDioxide :: real
  methane :: real
  waterVapour :: real

record Biomass =
  total :: real
  prokaryote :: real

record Tile =
  altitude :: real
  baseLuminosity :: real
  heat :: real
  tileCover :: TileCover
  biomass :: Biomass

text \<open>
  The closure state of \<^verbatim>\<open>World()\<close>: the three objects it creates, and the number
  of calls of \<^verbatim>\<open>Math.random()\<close> made so far. The values \<^verbatim>\<open>Math.random()\<close> returns
  are a parameter \<open>rnd\<close> of the model: the \<open>n\<close>-th call returns \<open>rnd n\<close>.
\<close>

record World =
  atmosphere :: Atmosphere
  worldBiomass :: Biomass
  tiles :: "Tile list list"
  randomCalls :: nat

subsection \<open>Constants\<close>

definition worldWidth :: nat where "worldWidth = 100"
definition worldHeight :: nat where "worldHeight = 100"

definition maxAltitude :: real where "maxAltitude = 5000"
definition erosionRate :: real where "erosionRate = 4"
definition atmosphereLossRate :: real where "atmosphereLossRate = 1 / 100"
definition atmospherePerTile :: real where
  "atmospherePerTile = 1 / (real worldHeight * real worldWidth)"

definition seaLevel :: real where "seaLevel = 1000"
definition freezingPoint :: real where "freezingPoint = 90"
definition unlivableTemperature :: real where "unlivableTemperature = 180"

definition volcanoDiameter :: nat where "volcanoDiameter = 9"
definition volcanoHalfDiameter :: nat where "volcanoHalfDiameter = volcanoDiameter div 2"
definition volcanoMinUpthrust :: real where "volcanoMinUpthrust = 1000"
definition volcanoUpthrustVariation :: real where "volcanoUpthrustVariation = 1000"

definition fullLuminosityHeat :: real where "fullLuminosityHeat = 60"
definition polarLuminosity :: real where "polarLuminosity = 1 / 2"
definition iceReflectivity :: real where "iceReflectivity = 1 / 4"
definition waterReflectivity :: real where "waterReflectivity = 0"

definition carbonHeatRetention :: real where "carbonHeatRetention = 2 / 10"
definition carbonPerLandTile :: real where "carbonPerLandTile = 1"
definition waterVaporHeatRetention :: real where "waterVaporHeatRetention = 2 / 10"
definition waterVaporPerOceanTile :: real where "waterVaporPerOceanTile = 1"

definition photosynthticBiomassPerEnergy :: real where "photosynthticBiomassPerEnergy = 120"
definition carbonPerPhotosyntheticBiomass :: real where "carbonPerPhotosyntheticBiomass = 1 / 100"
definition oxygenPerPhotosyntheticBiomass :: real where "oxygenPerPhotosyntheticBiomass = 1 / 100"

definition prokaryoteAbiogenesisChance :: real where "prokaryoteAbiogenesisChance = 4 / 1000000"
definition prokaryoteAbiogenesisMinHeat :: real where "prokaryoteAbiogenesisMinHeat = 160"
definition prokaryoteReproductionRate :: real where "prokaryoteReproductionRate = 5 / 1000"

subsection \<open>Construction of the initial state\<close>

definition mkAtmosphere :: Atmosphere where
  "mkAtmosphere = \<lparr>nitrogen = 0, oxygen = 0, carbonDioxide = 0, methane = 0, waterVapour = 0\<rparr>"

definition mkBiomass :: Biomass where
  "mkBiomass = \<lparr>total = 0, prokaryote = 0\<rparr>"

definition mkTile :: "nat \<Rightarrow> nat \<Rightarrow> Tile" where
  "mkTile x y =
     (let equatorialDistance = \<bar>real y - real worldHeight / 2\<bar> / (real worldHeight / 2)
      in \<lparr>altitude = 0,
          baseLuminosity = 1 - ((1 - polarLuminosity) * equatorialDistance),
          heat = 0,
          tileCover = NotComputed,
          biomass = mkBiomass\<rparr>)"

definition mkTiles :: "Tile list list" where
  "mkTiles = map (\<lambda>x. map (\<lambda>y. mkTile x y) [0..<worldHeight]) [0..<worldWidth]"

definition mkWorld :: World where
  "mkWorld = \<lparr>atmosphere = mkAtmosphere, worldBiomass = mkBiomass, tiles = mkTiles,
              randomCalls = 0\<rparr>"

subsection \<open>Access to the grid\<close>

definition getTile :: "World \<Rightarrow> nat \<Rightarrow> nat \<Rightarrow> Tile" where
  "getTile w x y = tiles w ! x ! y"

text \<open>An assignment to fields of the object \<^verbatim>\<open>tiles[x][y]\<close>.\<close>

definition updTile :: "nat \<Rightarrow> nat \<Rightarrow> (Tile \<Rightarrow> Tile) \<Rightarrow> World \<Rightarrow> World" where
  "updTile x y f w = w\<lparr>tiles := (tiles w)[x := (tiles w ! x)[y := f (tiles w ! x ! y)]]\<rparr>"

text \<open>
  The grid has \<open>worldWidth\<close> columns of \<open>worldHeight\<close> tiles each. On such a grid
  every index the source computes is in range: \<open>(x + 1) % worldWidth\<close>, \<open>y + 1\<close>
  behind the test \<open>y + 1 != worldHeight\<close>, and the volcano's targets behind
  \<open>x < worldWidth && y < worldHeight\<close>.
\<close>

definition wfGrid :: "World \<Rightarrow> bool" where
  "wfGrid w \<longleftrightarrow> length (tiles w) = worldWidth \<and> list_all (\<lambda>col. length col = worldHeight) (tiles w)"

subsection \<open>Random numbers\<close>

text \<open>
  One call of \<^verbatim>\<open>Math.random()\<close>: the value and the state after the call.
  \<^verbatim>\<open>Math.random()\<close> returns a number in \<open>[0, 1)\<close>.
\<close>

definition mathRandom :: "(nat \<Rightarrow> real) \<Rightarrow> World \<Rightarrow> real \<times> World" where
  "mathRandom rnd w = (rnd (randomCalls w), w\<lparr>randomCalls := Suc (randomCalls w)\<rparr>)"

definition validRandom :: "(nat \<Rightarrow> real) \<Rightarrow> bool" where
  "validRandom rnd \<longleftrightarrow> (\<forall>n. 0 \<le> rnd n \<and> rnd n < 1)"

definition getRandomX :: "(nat \<Rightarrow> real) \<Rightarrow> World \<Rightarrow> nat \<times> World" where
  "getRandomX rnd w = (let (r, w') = mathRandom rnd w in (nat \<lfloor>r * real worldWidth\<rfloor>, w'))"

definition getRandomY :: "(nat \<Rightarrow> real) \<Rightarrow> World \<Rightarrow> nat \<times> World" where
  "getRandomY rnd w = (let (r, w') = mathRandom rnd w in (nat \<lfloor>r * real worldHeight\<rfloor>, w'))"

subsection \<open>Iteration over the grid\<close>

text \<open>
  \<^verbatim>\<open>tiles.forEach(function(val, x) { val.forEach(function(val, y) { func(x, y, val) }) })\<close>:
  the outer loop runs over the first index, the inner loop over the second.
\<close>

definition applyTiles :: "(nat \<Rightarrow> nat \<Rightarrow> World \<Rightarrow> World) \<Rightarrow> World \<Rightarrow> World" where
  "applyTiles func w =
     foldl (\<lambda>w1 x. foldl (\<lambda>w2 y. func x y w2) w1 [0..<length (tiles w1 ! x)])
       w [0..<length (tiles w)]"

subsection \<open>Volcanism\<close>

definition spreadUpthrust :: "real \<Rightarrow> real list list" where
  "spreadUpthrust upthrust =
     map (\<lambda>x. map (\<lambda>y.
        (let xDist = real volcanoHalfDiameter - real x;
             yDist = real volcanoHalfDiameter - real y;
             dist = sqrt ((xDist * xDist) + (yDist * yDist))
         in (max (real volcanoHalfDiameter - dist) 0 / real volcanoHalfDiameter) * upthrust))
        [0..<volcanoDiameter]) [0..<volcanoDiameter]"

text \<open>
  The body of the inner \<^verbatim>\<open>forEach\<close> of \<^verbatim>\<open>eruptVolcano\<close>, for the entry \<open>val\<close> of \<^verbatim>\<open>spreadUpthrust\<close>
  at the offsets \<open>xOffset\<close>, \<open>yOffset\<close>; and \<^verbatim>\<open>eruptVolcano\<close> itself, which draws the position
  and the upthrust and runs the two loops.
\<close>

definition eruptTile :: "nat \<Rightarrow> nat \<Rightarrow> real \<Rightarrow> nat \<Rightarrow> nat \<Rightarrow> World \<Rightarrow> World" where
  "eruptTile baseX baseY val xOffset yOffset w =
     (let x = baseX + xOffset; y = baseY + yOffset
      in if x < worldWidth \<and> y < worldHeight
         then updTile x y (\<lambda>tile. tile\<lparr>altitude := min (altitude tile + val) maxAltitude\<rparr>) w
         else w)"

definition eruptVolcano :: "(nat \<Rightarrow> real) \<Rightarrow> World \<Rightarrow> World" where
  "eruptVolcano rnd w =
     (let (baseX, w1) = getRandomX rnd w;
          (baseY, w2) = getRandomY rnd w1;
          (r, w3) = mathRandom rnd w2;
          upthrust = volcanoMinUpthrust + of_int \<lfloor>volcanoUpthrustVariation * r\<rfloor>;
          spread = spreadUpthrust upthrust
      in foldl (\<lambda>wa xOffset.
            foldl (\<lambda>wb yOffset. eruptTile baseX baseY (spread ! xOffset ! yOffset) xOffset yOffset wb)
              wa [0..<length (spread ! xOffset)])
           w3 [0..<length spread])"

subsection \<open>Atmosphere and heat\<close>

definition computeTileAtmosphere :: "World \<Rightarrow> Atmosphere" where
  "computeTileAtmosphere w =
     \<lparr>nitrogen = nitrogen (atmosphere w) * atmospherePerTile,
      oxygen = oxygen (atmosphere w) * atmospherePerTile,
      carbonDioxide = carbonDioxide (atmosphere w) * atmospherePerTile,
      methane = methane (atmosphere w) * atmospherePerTile,
      waterVapour = waterVapour (atmosphere w) * atmospherePerTile\<rparr>"

definition computeHeatTrappingFactor :: "Atmosphere \<Rightarrow> real" where
  "computeHeatTrappingFactor a =
     carbonDioxide a * carbonHeatRetention + waterVapour a * waterVaporHeatRetention"

definition computeLuminosity :: "Tile \<Rightarrow> real" where
  "computeLuminosity tile =
     (if tileCover tile = Water then baseLuminosity tile * (1 - waterReflectivity)
      else if tileCover tile = Ice then baseLuminosity tile * (1 - iceReflectivity)
      else baseLuminosity tile)"

definition computeHeat :: "Tile \<Rightarrow> real \<Rightarrow> real \<Rightarrow> real" where
  "computeHeat tile luminosity heatTrappingFactor =
     (let turnHeat = fullLuminosityHeat * luminosity * (1 + heatTrappingFactor)
      in turnHeat * (2 / 10) + heat tile * (8 / 10))"

definition computeTileCover :: "Tile \<Rightarrow> TileCover" where
  "computeTileCover tile =
     (if altitude tile < seaLevel
      then (if heat tile > freezingPoint then Water else Ice)
      else Rock)"

text \<open>
  \<^verbatim>\<open>transferHeat(x, y, tile)\<close>, where \<^verbatim>\<open>tile\<close> is \<^verbatim>\<open>tiles[x][y]\<close>. The three
  assignments are made one after the other, and each read sees the writes before it.
\<close>

definition transferHeat :: "nat \<Rightarrow> nat \<Rightarrow> World \<Rightarrow> World" where
  "transferHeat x y w =
     (let hx = (x + 1) mod worldWidth;
          horizontalAveHeat = (heat (getTile w x y) + heat (getTile w hx y)) / 2;
          w1 = updTile hx y (\<lambda>t. t\<lparr>heat := horizontalAveHeat\<rparr>) w
      in if y + 1 \<noteq> worldHeight
         then (let verticalAveHeat = (heat (getTile w1 x y) + heat (getTile w1 x (y + 1))) / 2;
                   w2 = updTile x (y + 1) (\<lambda>t. t\<lparr>heat := verticalAveHeat\<rparr>) w1
               in updTile x y (\<lambda>t. t\<lparr>heat := (horizontalAveHeat + verticalAveHeat) / 2\<rparr>) w2)
         else updTile x y (\<lambda>t. t\<lparr>heat := horizontalAveHeat\<rparr>) w1)"

subsection \<open>Prokaryotes\<close>

definition canProkaryotesSurvive :: "Tile \<Rightarrow> bool" where
  "canProkaryotesSurvive tile \<longleftrightarrow> heat tile < unlivableTemperature \<and> tileCover tile = Water"

text \<open>The assignments \<^verbatim>\<open>tile.biomass.prokaryote = p\<close> and \<^verbatim>\<open>tile.biomass.total = p\<close>.\<close>

definition setProkaryote :: "real \<Rightarrow> Tile \<Rightarrow> Tile" where
  "setProkaryote p t = t\<lparr>biomass := (biomass t)\<lparr>prokaryote := p\<rparr>\<rparr>"

definition setTotal :: "real \<Rightarrow> Tile \<Rightarrow> Tile" where
  "setTotal p t = t\<lparr>biomass := (biomass t)\<lparr>total := p\<rparr>\<rparr>"

text \<open>
  \<^verbatim>\<open>transferProkaryotes(x, y, tile)\<close>. Its two inner \<^verbatim>\<open>if\<close> statements, for the horizontal and
  for the vertical neighbour, are the same statement for the neighbour at \<open>(nx, ny)\<close>:
  \<open>transferPair\<close>. The neighbour is written first, the tile second.
\<close>

definition transferPair :: "nat \<Rightarrow> nat \<Rightarrow> nat \<Rightarrow> nat \<Rightarrow> World \<Rightarrow> World" where
  "transferPair x y nx ny w =
     (if canProkaryotesSurvive (getTile w nx ny) \<and>
         (prokaryote (biomass (getTile w x y)) > 2 \<or> prokaryote (biomass (getTile w nx ny)) > 2)
      then (let avePop = (prokaryote (biomass (getTile w x y)) +
                          prokaryote (biomass (getTile w nx ny))) / 2
            in updTile x y (setProkaryote avePop) (updTile nx ny (setProkaryote avePop) w))
      else w)"

definition transferProkaryotes :: "nat \<Rightarrow> nat \<Rightarrow> World \<Rightarrow> World" where
  "transferProkaryotes x y w =
     (if canProkaryotesSurvive (getTile w x y)
      then (let w1 = transferPair x y ((x + 1) mod worldWidth) y w
            in if y + 1 \<noteq> worldHeight then transferPair x y x (y + 1) w1 else w1)
      else w)"

text \<open>
  \<^verbatim>\<open>applyBiomass(tile, tileAtmosphere)\<close>, where \<^verbatim>\<open>tile\<close> is \<^verbatim>\<open>tiles[x][y]\<close>; \<^verbatim>\<open>atmosphere\<close> and
  \<^verbatim>\<open>biomass\<close> in its body are the objects of the closure.
\<close>

definition applyBiomass :: "nat \<Rightarrow> nat \<Rightarrow> Atmosphere \<Rightarrow> World \<Rightarrow> World" where
  "applyBiomass x y tileAtmosphere w =
     (let w1 = (if heat (getTile w x y) > unlivableTemperature \<or> tileCover (getTile w x y) \<noteq> Water
                   \<or> carbonDioxide tileAtmosphere = 0
                then updTile x y (setTotal 0 \<circ> setProkaryote 0) w
                else w);
          computedProkaryoteReproductionRate =
            min (carbonDioxide tileAtmosphere * prokaryoteReproductionRate) prokaryoteReproductionRate;
          w2 = updTile x y (\<lambda>t. setProkaryote
                 (prokaryote (biomass t) + prokaryote (biomass t) * computedProkaryoteReproductionRate) t) w1;
          w3 = updTile x y (\<lambda>t. setProkaryote
                 (min (prokaryote (biomass t))
                      (baseLuminosity t * fullLuminosityHeat * photosynthticBiomassPerEnergy)) t) w2;
          w4 = updTile x y (\<lambda>t. setTotal (prokaryote (biomass t)) t) w3;
          p = prokaryote (biomass (getTile w4 x y));
          w5 = w4\<lparr>atmosphere := (atmosphere w4)
                 \<lparr>carbonDioxide := carbonDioxide (atmosphere w4) - p * carbonPerPhotosyntheticBiomass\<rparr>\<rparr>;
          w6 = w5\<lparr>atmosphere := (atmosphere w5)
                 \<lparr>oxygen := oxygen (atmosphere w5) + p * oxygenPerPhotosyntheticBiomass\<rparr>\<rparr>
      in w6\<lparr>worldBiomass :=
             \<lparr>total = total (worldBiomass w6) + total (biomass (getTile w6 x y)),
              prokaryote = prokaryote (worldBiomass w6) + p\<rparr>\<rparr>)"

subsection \<open>The tick\<close>

text \<open>
  The callback of the first \<^verbatim>\<open>applyTiles\<close> in \<^verbatim>\<open>tick\<close>: erosion, heat, gas emission,
  the abiogenesis trial, \<^verbatim>\<open>applyBiomass\<close> and \<^verbatim>\<open>transferProkaryotes\<close>, for one tile.
  \<^verbatim>\<open>Math.random()\<close> is called only when the test before it succeeds.
\<close>

definition abiogenesis :: "(nat \<Rightarrow> real) \<Rightarrow> nat \<Rightarrow> nat \<Rightarrow> World \<Rightarrow> World" where
  "abiogenesis rnd x y w =
     (if total (biomass (getTile w x y)) = 0 \<and> heat (getTile w x y) > prokaryoteAbiogenesisMinHeat
         \<and> heat (getTile w x y) < unlivableTemperature
      then (let (r, w1) = mathRandom rnd w
            in if r < prokaryoteAbiogenesisChance
               then updTile x y (setTotal 1 \<circ> setProkaryote 1) w1
               else w1)
      else w)"

definition tickTile :: "(nat \<Rightarrow> real) \<Rightarrow> Atmosphere \<Rightarrow> real \<Rightarrow> nat \<Rightarrow> nat \<Rightarrow> World \<Rightarrow> World" where
  "tickTile rnd tileAtmosphere heatTrappingFactor x y w =
     (let w1 = updTile x y (\<lambda>tile. tile\<lparr>altitude := max (altitude tile - erosionRate) 0\<rparr>) w;
          luminosity = computeLuminosity (getTile w1 x y);
          w2 = updTile x y (\<lambda>tile. tile\<lparr>heat := computeHeat tile luminosity heatTrappingFactor\<rparr>) w1;
          w3 = (if tileCover (getTile w2 x y) = Water
                then w2\<lparr>atmosphere := (atmosphere w2)
                       \<lparr>waterVapour := waterVapour (atmosphere w2) + waterVaporPerOceanTile\<rparr>\<rparr>
                else if tileCover (getTile w2 x y) = Rock
                then w2\<lparr>atmosphere := (atmosphere w2)
                       \<lparr>carbonDioxide := carbonDioxide (atmosphere w2) + carbonPerLandTile\<rparr>\<rparr>
                else w2);
          w4 = abiogenesis rnd x y w3;
          w5 = applyBiomass x y tileAtmosphere w4
      in transferProkaryotes x y w5)"

text \<open>The statements of \<^verbatim>\<open>tick\<close> between the eruption and the first pass over the tiles.\<close>

definition decayAtmosphere :: "World \<Rightarrow> World" where
  "decayAtmosphere w =
     (let a = atmosphere w;
          a1 = a\<lparr>carbonDioxide := carbonDioxide a - carbonDioxide a * atmosphereLossRate\<rparr>;
          a2 = a1\<lparr>methane := methane a1 - methane a1 * atmosphereLossRate\<rparr>;
          a3 = a2\<lparr>nitrogen := nitrogen a2 - nitrogen a2 * atmosphereLossRate\<rparr>;
          a4 = a3\<lparr>oxygen := oxygen a3 - oxygen a3 * atmosphereLossRate\<rparr>;
          a5 = a4\<lparr>waterVapour := 0\<rparr>
      in w\<lparr>atmosphere := a5, worldBiomass := \<lparr>total = 0, prokaryote = 0\<rparr>\<rparr>)"

text \<open>The callback of the third pass.\<close>

definition setCover :: "nat \<Rightarrow> nat \<Rightarrow> World \<Rightarrow> World" where
  "setCover x y w = updTile x y (\<lambda>tile. tile\<lparr>tileCover := computeTileCover tile\<rparr>) w"

text \<open>
  The first pass over the tiles, with the two values \<^verbatim>\<open>tick\<close> computes once before it;
  and \<^verbatim>\<open>tick\<close> itself: the eruption, the decay, the three passes.
\<close>

definition localPass :: "(nat \<Rightarrow> real) \<Rightarrow> World \<Rightarrow> World" where
  "localPass rnd w =
     (let tileAtmosphere = computeTileAtmosphere w;
          heatTrappingFactor = computeHeatTrappingFactor tileAtmosphere
      in applyTiles (tickTile rnd tileAtmosphere heatTrappingFactor) w)"

definition tick :: "(nat \<Rightarrow> real) \<Rightarrow> World \<Rightarrow> World" where
  "tick rnd w =
     (let w1 = eruptVolcano rnd w;
          w2 = decayAtmosphere w1;
          w3 = localPass rnd w2;
          w4 = applyTiles transferHeat w3
      in applyTiles setCover w4)"

text \<open>\<open>n\<close> calls of \<^verbatim>\<open>tick\<close>, as the interval timer makes them.\<close>

fun ticks :: "(nat \<Rightarrow> real) \<Rightarrow> nat \<Rightarrow> World \<Rightarrow> World" where
  "ticks rnd 0 w = w"
| "ticks rnd (Suc n) w = tick rnd (ticks rnd n w)"

section \<open>Notions for the statements and their proofs\<close>

text \<open>
  The definitions of this section are not functions of the source: parts of the
  functions above under a name of their own, predicates on states, states to evaluate
  the functions at, and the variants of \<open>tick\<close> that two of the claims are about.
\<close>

text \<open>
  The order in which \<^verbatim>\<open>applyTiles\<close> visits the positions of a full grid: the outer
  \<^verbatim>\<open>forEach\<close> runs over the first index \<open>x\<close>, the inner one over the second index \<open>y\<close>, so the
  grid is scanned column by column.
\<close>

definition scanOrder :: "(nat \<times> nat) list" where
  "scanOrder = List.product [0..<worldWidth] [0..<worldHeight]"

text \<open>
  The row-major order, row by row with \<open>x\<close> running inside a row, and the heat pass as it
  would be in that order: a variant to compare \<^verbatim>\<open>applyTiles(transferHeat)\<close> with, not a function
  of the source.
\<close>

definition rowMajorOrder :: "(nat \<times> nat) list" where
  "rowMajorOrder = concat (map (\<lambda>y. map (\<lambda>x. (x, y)) [0..<worldWidth]) [0..<worldHeight])"

definition rowMajorHeatPass :: "World \<Rightarrow> World" where
  "rowMajorHeatPass w = foldl (\<lambda>s (x, y). transferHeat x y s) w rowMajorOrder"

text \<open>A state for evaluation: the initial state with the heat of the tile \<open>(0, 0)\<close> set to 40.\<close>

definition hotWorld :: World where
  "hotWorld = updTile 0 0 (\<lambda>t. t\<lparr>heat := 40\<rparr>) mkWorld"

text \<open>What \<^verbatim>\<open>applyBiomass\<close> leaves in the tile it is called for.\<close>

definition grownTile :: "Atmosphere \<Rightarrow> Tile \<Rightarrow> Tile" where
  "grownTile tileAtmosphere t =
     (let p0 = (if heat t > unlivableTemperature \<or> tileCover t \<noteq> Water \<or> carbonDioxide tileAtmosphere = 0
                then 0 else prokaryote (biomass t));
          rate = min (carbonDioxide tileAtmosphere * prokaryoteReproductionRate) prokaryoteReproductionRate;
          p = min (p0 + p0 * rate) (baseLuminosity t * fullLuminosityHeat * photosynthticBiomassPerEnergy)
      in t\<lparr>biomass := \<lparr>total = p, prokaryote = p\<rparr>\<rparr>)"

text \<open>
  What the callback of the first pass leaves in the tile it is called for, before
  \<^verbatim>\<open>transferProkaryotes\<close> runs; \<open>r\<close> is the value \<^verbatim>\<open>Math.random()\<close> returns if it is called.
\<close>

definition abiogenesisTest :: "Tile \<Rightarrow> bool" where
  "abiogenesisTest t \<longleftrightarrow> total (biomass t) = 0 \<and> heat t > prokaryoteAbiogenesisMinHeat
      \<and> heat t < unlivableTemperature"

definition heatedTile :: "real \<Rightarrow> Tile \<Rightarrow> Tile" where
  "heatedTile heatTrappingFactor t =
     (let t1 = t\<lparr>altitude := max (altitude t - erosionRate) 0\<rparr>
      in t1\<lparr>heat := computeHeat t1 (computeLuminosity t1) heatTrappingFactor\<rparr>)"

definition seededTile :: "real \<Rightarrow> Tile \<Rightarrow> Tile" where
  "seededTile r t =
     (if abiogenesisTest t \<and> r < prokaryoteAbiogenesisChance
      then t\<lparr>biomass := \<lparr>total = 1, prokaryote = 1\<rparr>\<rparr> else t)"

definition localTile :: "real \<Rightarrow> Atmosphere \<Rightarrow> real \<Rightarrow> Tile \<Rightarrow> Tile" where
  "localTile r tileAtmosphere heatTrappingFactor t =
     grownTile tileAtmosphere (seededTile r (heatedTile heatTrappingFactor t))"

text \<open>The callback of the first pass without its last statement.\<close>

definition tickTileLocal :: "(nat \<Rightarrow> real) \<Rightarrow> Atmosphere \<Rightarrow> real \<Rightarrow> nat \<Rightarrow> nat \<Rightarrow> World \<Rightarrow> World" where
  "tickTileLocal rnd tileAtmosphere heatTrappingFactor x y w =
     (let w1 = updTile x y (\<lambda>tile. tile\<lparr>altitude := max (altitude tile - erosionRate) 0\<rparr>) w;
          luminosity = computeLuminosity (getTile w1 x y);
          w2 = updTile x y (\<lambda>tile. tile\<lparr>heat := computeHeat tile luminosity heatTrappingFactor\<rparr>) w1;
          w3 = (if tileCover (getTile w2 x y) = Water
                then w2\<lparr>atmosphere := (atmosphere w2)
                       \<lparr>waterVapour := waterVapour (atmosphere w2) + waterVaporPerOceanTile\<rparr>\<rparr>
                else if tileCover (getTile w2 x y) = Rock
                then w2\<lparr>atmosphere := (atmosphere w2)
                       \<lparr>carbonDioxide := carbonDioxide (atmosphere w2) + carbonPerLandTile\<rparr>\<rparr>
                else w2);
          w4 = abiogenesis rnd x y w3
      in applyBiomass x y tileAtmosphere w4)"

text \<open>
  Two sources of random numbers give the same values to the calls number \<open>a\<close> up to
  \<open>b - 1\<close>; and a phase \<open>F\<close> whose result is the same under two sources that give the
  same values to the calls it makes.
\<close>

definition sameDraws :: "(nat \<Rightarrow> real) \<Rightarrow> (nat \<Rightarrow> real) \<Rightarrow> nat \<Rightarrow> nat \<Rightarrow> bool" where
  "sameDraws rnd1 rnd2 a b \<longleftrightarrow> (\<forall>i. a \<le> i \<and> i < b \<longrightarrow> rnd1 i = rnd2 i)"

definition drawsOnly :: "((nat \<Rightarrow> real) \<Rightarrow> World \<Rightarrow> World) \<Rightarrow> bool" where
  "drawsOnly F \<longleftrightarrow>
     (\<forall>rnd w. randomCalls w \<le> randomCalls (F rnd w)) \<and>
     (\<forall>rnd1 rnd2 w. sameDraws rnd1 rnd2 (randomCalls w) (randomCalls (F rnd1 w))
        \<longrightarrow> F rnd1 w = F rnd2 w)"

text \<open>The two nested loops of \<^verbatim>\<open>eruptVolcano\<close> over \<^verbatim>\<open>spreadUpthrust\<close>.\<close>

definition eruptAt :: "nat \<Rightarrow> nat \<Rightarrow> real \<Rightarrow> World \<Rightarrow> World" where
  "eruptAt baseX baseY upthrust w =
     foldl (\<lambda>wa xOffset.
        foldl (\<lambda>wb yOffset.
             eruptTile baseX baseY (spreadUpthrust upthrust ! xOffset ! yOffset) xOffset yOffset wb)
          wa [0..<length (spreadUpthrust upthrust ! xOffset)])
       w [0..<length (spreadUpthrust upthrust)]"

text \<open>A property of every tile of the grid, which may depend on the tile's position.\<close>

definition allTiles :: "(nat \<Rightarrow> nat \<Rightarrow> Tile \<Rightarrow> bool) \<Rightarrow> World \<Rightarrow> bool" where
  "allTiles P w \<longleftrightarrow> (\<forall>x y. x < worldWidth \<and> y < worldHeight \<longrightarrow> P x y (getTile w x y))"

text \<open>A tile whose biomass values and luminosity are not negative.\<close>

definition nonnegTile :: "Tile \<Rightarrow> bool" where
  "nonnegTile t \<longleftrightarrow> 0 \<le> prokaryote (biomass t) \<and> 0 \<le> total (biomass t) \<and> 0 \<le> baseLuminosity t"

text \<open>
  A state for evaluation: every tile under water at heat 100 with a population of 1000,
  and one unit of carbon dioxide in the atmosphere.
\<close>

definition crowdedWorld :: World where
  "crowdedWorld =
     \<lparr>atmosphere = mkAtmosphere\<lparr>carbonDioxide := 1\<rparr>,
      worldBiomass = mkBiomass,
      tiles = map (map (\<lambda>t. t\<lparr>heat := 100, tileCover := Water,
                                biomass := \<lparr>total = 1000, prokaryote = 1000\<rparr>\<rparr>)) mkTiles,
      randomCalls = 0\<rparr>"

text \<open>
  A state for evaluation: the tiles of \<open>crowdedWorld\<close>, all under water, below an atmosphere
  that holds some of every gas but oxygen.
\<close>

definition humidWorld :: World where
  "humidWorld = crowdedWorld\<lparr>atmosphere :=
      \<lparr>nitrogen = 100, oxygen = 0, carbonDioxide = 1, methane = 20, waterVapour = 777\<rparr>\<rparr>"

definition crowdedTile :: "Tile \<Rightarrow> bool" where
  "crowdedTile t \<longleftrightarrow> tileCover t = Water \<and> heat t \<le> 100 \<and> 1000 \<le> prokaryote (biomass t)
      \<and> 1 / 2 \<le> baseLuminosity t \<and> baseLuminosity t \<le> 1"

text \<open>No tile but the one at \<open>(x0, y0)\<close> is covered by water.\<close>

definition onlyWaterAt :: "nat \<Rightarrow> nat \<Rightarrow> World \<Rightarrow> bool" where
  "onlyWaterAt x0 y0 w \<longleftrightarrow>
     (\<forall>x y. x < worldWidth \<and> y < worldHeight \<and> (x \<noteq> x0 \<or> y \<noteq> y0) \<longrightarrow> tileCover (getTile w x y) \<noteq> Water)"


text \<open>
  A state for evaluation: ice at heat 50 everywhere, but for two neighbouring tiles under
  water at heat 100, the one at (0, 0) without life and the one at (1, 0) with a population
  of 10; \<open>c\<close> units of carbon dioxide.
\<close>

definition pairWorld :: "real \<Rightarrow> World" where
  "pairWorld c =
     \<lparr>atmosphere = mkAtmosphere\<lparr>carbonDioxide := c\<rparr>,
      worldBiomass = mkBiomass,
      tiles = map (\<lambda>x. map (\<lambda>y. (mkTile x y)
                 \<lparr>heat := (if x \<le> 1 \<and> y = 0 then 100 else 50),
                  tileCover := (if x \<le> 1 \<and> y = 0 then Water else Ice),
                  biomass := (if x = 1 \<and> y = 0 then \<lparr>total = 10, prokaryote = 10\<rparr> else mkBiomass)\<rparr>)
                 [0..<worldHeight]) [0..<worldWidth],
      randomCalls = 0\<rparr>"

text \<open>No tile but those at (0, 0) and (1, 0) is covered by water.\<close>

definition pairCovers :: "World \<Rightarrow> bool" where
  "pairCovers w \<longleftrightarrow>
     (\<forall>x y. x < worldWidth \<and> y < worldHeight \<and> \<not> (x \<le> 1 \<and> y = 0) \<longrightarrow> tileCover (getTile w x y) \<noteq> Water)"

text \<open>
  The tick with the order of phases that claim C2 words, for comparison with \<open>tick\<close>: the
  local update of every tile first (the callback of the first pass without its call of
  \<^verbatim>\<open>transferProkaryotes\<close>), then a pass of \<^verbatim>\<open>transferProkaryotes\<close> over all tiles. This is
  not what the source does.
\<close>

definition specLocalPass :: "(nat \<Rightarrow> real) \<Rightarrow> World \<Rightarrow> World" where
  "specLocalPass rnd w =
     (let tileAtmosphere = computeTileAtmosphere w;
          heatTrappingFactor = computeHeatTrappingFactor tileAtmosphere
      in applyTiles (tickTileLocal rnd tileAtmosphere heatTrappingFactor) w)"

definition specTick :: "(nat \<Rightarrow> real) \<Rightarrow> World \<Rightarrow> World" where
  "specTick rnd w =
     (let w1 = eruptVolcano rnd w;
          w2 = decayAtmosphere w1;
          w3 = specLocalPass rnd w2;
          w3' = applyTiles transferProkaryotes w3;
          w4 = applyTiles transferHeat w3'
      in applyTiles setCover w4)"

text \<open>
  The share of the upthrust that \<^verbatim>\<open>eruptVolcano\<close> gives to the offset \<open>(i, j)\<close> of its
  square, \<open>0 \<le> i, j < volcanoDiameter\<close>: the entry \<^verbatim>\<open>spreadUpthrust[i][j]\<close>.
\<close>

definition contribution :: "real \<Rightarrow> nat \<Rightarrow> nat \<Rightarrow> real" where
  "contribution upthrust i j =
     (max (real volcanoHalfDiameter
           - sqrt ((real volcanoHalfDiameter - real i) * (real volcanoHalfDiameter - real i)
                 + (real volcanoHalfDiameter - real j) * (real volcanoHalfDiameter - real j))) 0
      / real volcanoHalfDiameter) * upthrust"

text \<open>
  The contribution that claim C4 words, for the offset \<open>(dx, dy)\<close> from the selected tile,
  \<open>|dx| \<le> 4\<close> and \<open>|dy| \<le> 4\<close>; for comparison with the source.
\<close>

definition specContribution :: "real \<Rightarrow> int \<Rightarrow> int \<Rightarrow> real" where
  "specContribution upthrust dx dy =
     upthrust * max (real volcanoHalfDiameter - sqrt (real_of_int (dx * dx + dy * dy))) 0
       / real volcanoHalfDiameter"

text \<open>
  The tick of claim C10: \<^verbatim>\<open>tick\<close> with the statements the claim switches off left out,
  namely the call of \<^verbatim>\<open>eruptVolcano\<close> (volcanism) and, in the callback of the first pass,
  the abiogenesis block and the calls of \<^verbatim>\<open>applyBiomass\<close> and \<^verbatim>\<open>transferProkaryotes\<close>
  (biomass). The source has no such switches; everything else is as in \<^verbatim>\<open>tick\<close>.
\<close>

definition quietTickTile :: "real \<Rightarrow> nat \<Rightarrow> nat \<Rightarrow> World \<Rightarrow> World" where
  "quietTickTile heatTrappingFactor x y w =
     (let w1 = updTile x y (\<lambda>tile. tile\<lparr>altitude := max (altitude tile - erosionRate) 0\<rparr>) w;
          luminosity = computeLuminosity (getTile w1 x y);
          w2 = updTile x y (\<lambda>tile. tile\<lparr>heat := computeHeat tile luminosity heatTrappingFactor\<rparr>) w1
      in if tileCover (getTile w2 x y) = Water
         then w2\<lparr>atmosphere := (atmosphere w2)
                \<lparr>waterVapour := waterVapour (atmosphere w2) + waterVaporPerOceanTile\<rparr>\<rparr>
         else if tileCover (getTile w2 x y) = Rock
         then w2\<lparr>atmosphere := (atmosphere w2)
                \<lparr>carbonDioxide := carbonDioxide (atmosphere w2) + carbonPerLandTile\<rparr>\<rparr>
         else w2)"

definition quietPass :: "World \<Rightarrow> World" where
  "quietPass w =
     (let tileAtmosphere = computeTileAtmosphere w;
          heatTrappingFactor = computeHeatTrappingFactor tileAtmosphere
      in applyTiles (quietTickTile heatTrappingFactor) w)"

definition quietTick :: "World \<Rightarrow> World" where
  "quietTick w =
     (let w2 = decayAtmosphere w;
          w3 = quietPass w2;
          w4 = applyTiles transferHeat w3
      in applyTiles setCover w4)"

fun quietTicks :: "nat \<Rightarrow> World \<Rightarrow> World" where
  "quietTicks 0 w = w"
| "quietTicks (Suc n) w = quietTick (quietTicks n w)"

text \<open>The number of tiles covered by rock.\<close>

definition rockCount :: "World \<Rightarrow> nat" where
  "rockCount w = length (filter (\<lambda>t. tileCover t = Rock) (concat (tiles w)))"

text \<open>A state for evaluation: every tile rock at altitude 2000, no gas in the atmosphere.\<close>

definition rockWorld :: World where
  "rockWorld = mkWorld\<lparr>tiles := map (map (\<lambda>t. t\<lparr>altitude := 2000, tileCover := Rock\<rparr>)) mkTiles\<rparr>"

definition rockTile :: "Tile \<Rightarrow> bool" where
  "rockTile t \<longleftrightarrow> tileCover t = Rock \<and> 0 \<le> baseLuminosity t"

section \<open>Basic facts about the grid\<close>

lemma worldWidth_pos: "0 < worldWidth"
  by (simp add: worldWidth_def)

lemma worldHeight_pos: "0 < worldHeight"
  by (simp add: worldHeight_def)

lemma wfGrid_lengths:
  assumes "wfGrid w" "x < worldWidth"
  shows "length (tiles w) = worldWidth" "length (tiles w ! x) = worldHeight"
  using assms by (auto simp: wfGrid_def list_all_length)

lemma wfGrid_updTile [simp]: "wfGrid (updTile x y f w) = wfGrid w"
proof -
  have "length (((tiles w)[x := (tiles w ! x)[y := f (tiles w ! x ! y)]]) ! n) = length (tiles w ! n)"
    if "n < length (tiles w)" for n
    using that by (cases "n = x") simp_all
  then show ?thesis
    by (simp add: wfGrid_def updTile_def list_all_length)
qed

lemma tiles_updTile_length [simp]: "length (tiles (updTile x y f w)) = length (tiles w)"
  by (simp add: updTile_def)

lemma getTile_updTile:
  assumes "wfGrid w" "x < worldWidth" "y < worldHeight"
  shows "getTile (updTile x y f w) x' y' = (if x' = x \<and> y' = y then f (getTile w x y) else getTile w x' y')"
  using assms by (auto simp: getTile_def updTile_def wfGrid_def list_all_length nth_list_update)

lemma getTile_updTile_same:
  assumes "wfGrid w" "x < worldWidth" "y < worldHeight"
  shows "getTile (updTile x y f w) x y = f (getTile w x y)"
  using assms by (simp add: getTile_updTile)

lemma getTile_updTile_other:
  assumes "x' \<noteq> x \<or> y' \<noteq> y"
  shows "getTile (updTile x y f w) x' y' = getTile w x' y'"
proof (cases "x < length (tiles w)")
  case True
  then show ?thesis
    using assms by (cases "x' = x") (auto simp: getTile_def updTile_def)
next
  case False
  then show ?thesis
    by (simp add: getTile_def updTile_def list_update_beyond)
qed

lemma updTile_fields [simp]:
  "atmosphere (updTile x y f w) = atmosphere w"
  "worldBiomass (updTile x y f w) = worldBiomass w"
  "randomCalls (updTile x y f w) = randomCalls w"
  by (simp_all add: updTile_def)

lemma wfGrid_mkWorld: "wfGrid mkWorld"
  by (simp add: wfGrid_def mkWorld_def mkTiles_def list_all_iff)

lemma getTile_updTile_pres:
  assumes "P (getTile w x' y')" "\<And>t. P t \<Longrightarrow> P (f t)"
  shows "P (getTile (updTile x y f w) x' y')"
proof (cases "x' = x \<and> y' = y \<and> x < length (tiles w) \<and> y < length (tiles w ! x)")
  case True
  then have "getTile (updTile x y f w) x' y' = f (getTile w x' y')"
    by (simp add: getTile_def updTile_def)
  then show ?thesis using assms by simp
next
  case False
  then have "getTile (updTile x y f w) x' y' = getTile w x' y'"
    by (cases "x < length (tiles w)"; cases "x' = x")
       (auto simp: getTile_def updTile_def list_update_beyond)
  then show ?thesis using assms by simp
qed

subsection \<open>The iteration as one fold over the positions\<close>

lemma foldl_product:
  "foldl (\<lambda>s (x, y). f x y s) s (List.product xs ys) =
   foldl (\<lambda>s1 x. foldl (\<lambda>s2 y. f x y s2) s1 ys) s xs"
  by (induction xs arbitrary: s) (simp_all add: foldl_map)

lemma foldl_invariant:
  assumes "P s" "\<And>c s. c \<in> set cs \<Longrightarrow> P s \<Longrightarrow> P (f s c)"
  shows "P (foldl f s cs)"
  using assms by (induction cs arbitrary: s) simp_all

lemma applyTiles_columns:
  assumes pres: "\<And>x y w. wfGrid w \<Longrightarrow> wfGrid (func x y w)"
    and "wfGrid w" "set xs \<subseteq> {..<worldWidth}"
  shows "foldl (\<lambda>w1 x. foldl (\<lambda>w2 y. func x y w2) w1 [0..<length (tiles w1 ! x)]) w xs =
         foldl (\<lambda>w1 x. foldl (\<lambda>w2 y. func x y w2) w1 [0..<worldHeight]) w xs"
  using assms(2,3)
proof (induction xs arbitrary: w)
  case Nil
  then show ?case by simp
next
  case (Cons x xs)
  have len: "length (tiles w ! x) = worldHeight"
    using Cons.prems by (simp add: wfGrid_lengths)
  have "wfGrid (foldl (\<lambda>w2 y. func x y w2) w [0..<worldHeight])"
    by (rule foldl_invariant [where P = wfGrid]) (use Cons.prems pres in auto)
  then show ?case
    using Cons by (simp add: len)
qed

lemma applyTiles_scanOrder:
  assumes "\<And>x y w. wfGrid w \<Longrightarrow> wfGrid (func x y w)" "wfGrid w"
  shows "applyTiles func w = foldl (\<lambda>s (x, y). func x y s) w scanOrder"
  unfolding applyTiles_def scanOrder_def foldl_product
  using assms by (subst applyTiles_columns) (auto simp: wfGrid_lengths wfGrid_def)

lemma set_scanOrder: "set scanOrder = {(x, y). x < worldWidth \<and> y < worldHeight}"
  by (auto simp: scanOrder_def)

lemma distinct_scanOrder: "distinct scanOrder"
  by (simp add: scanOrder_def distinct_product)

lemma applyTiles_invariant:
  assumes "\<And>x y w. wfGrid w \<Longrightarrow> wfGrid (func x y w)" 
    and "wfGrid w" "P w"
    and "\<And>x y s. x < worldWidth \<Longrightarrow> y < worldHeight \<Longrightarrow> wfGrid s \<Longrightarrow> P s \<Longrightarrow> P (func x y s)"
  shows "P (applyTiles func w) \<and> wfGrid (applyTiles func w)"
proof -
  have "(\<lambda>s. P s \<and> wfGrid s) (foldl (\<lambda>s (x, y). func x y s) w scanOrder)"
    by (rule foldl_invariant) (use assms in \<open>auto simp: set_scanOrder\<close>)
  then show ?thesis
    using assms by (simp add: applyTiles_scanOrder)
qed

lemma wfGrid_fields [simp]:
  "wfGrid (w\<lparr>atmosphere := a\<rparr>) = wfGrid w"
  "wfGrid (w\<lparr>worldBiomass := b\<rparr>) = wfGrid w"
  "wfGrid (w\<lparr>randomCalls := n\<rparr>) = wfGrid w"
  by (simp_all add: wfGrid_def)

lemma getTile_fields [simp]:
  "getTile (w\<lparr>atmosphere := a\<rparr>) x y = getTile w x y"
  "getTile (w\<lparr>worldBiomass := b\<rparr>) x y = getTile w x y"
  "getTile (w\<lparr>randomCalls := n\<rparr>) x y = getTile w x y"
  by (simp_all add: getTile_def)

lemma wfGrid_transferHeat [simp]: "wfGrid (transferHeat x y w) = wfGrid w"
  by (simp add: transferHeat_def Let_def)

lemma wfGrid_setCover [simp]: "wfGrid (setCover x y w) = wfGrid w"
  by (simp add: setCover_def)

lemma wfGrid_transferPair [simp]: "wfGrid (transferPair x y nx ny w) = wfGrid w"
  by (simp add: transferPair_def Let_def)

lemma wfGrid_transferProkaryotes [simp]: "wfGrid (transferProkaryotes x y w) = wfGrid w"
  by (simp add: transferProkaryotes_def Let_def)

lemma wfGrid_applyBiomass [simp]: "wfGrid (applyBiomass x y ta w) = wfGrid w"
  by (simp add: applyBiomass_def Let_def)

lemma wfGrid_abiogenesis [simp]: "wfGrid (abiogenesis rnd x y w) = wfGrid w"
  by (simp add: abiogenesis_def mathRandom_def Let_def)

lemma wfGrid_tickTile [simp]: "wfGrid (tickTile rnd ta htf x y w) = wfGrid w"
  by (simp add: tickTile_def Let_def)

lemma wfGrid_decayAtmosphere [simp]: "wfGrid (decayAtmosphere w) = wfGrid w"
  by (simp add: decayAtmosphere_def Let_def)

lemma wfGrid_eruptTile [simp]: "wfGrid (eruptTile bx by v xo yo w) = wfGrid w"
  by (simp add: eruptTile_def Let_def)

lemma wfGrid_eruptVolcano [simp]: "wfGrid (eruptVolcano rnd w) = wfGrid w"
proof -
  have inner: "wfGrid (foldl (\<lambda>wb yo. eruptTile bx by (sp ! xo ! yo) xo yo wb) wa ys) = wfGrid wa"
    for bx "by" sp xo wa ys
    by (induction ys arbitrary: wa) simp_all
  have outer: "wfGrid (foldl (\<lambda>wa xo. foldl (\<lambda>wb yo. eruptTile bx by (sp ! xo ! yo) xo yo wb) wa
                  [0..<length (sp ! xo)]) w0 xs) = wfGrid w0"
    for bx "by" sp w0 xs
    by (induction xs arbitrary: w0) (simp_all add: inner)
  show ?thesis
    by (simp add: eruptVolcano_def getRandomX_def getRandomY_def mathRandom_def Let_def outer)
qed

lemma wfGrid_applyTiles:
  assumes "\<And>x y w. wfGrid w \<Longrightarrow> wfGrid (func x y w)" "wfGrid w"
  shows "wfGrid (applyTiles func w)"
  using applyTiles_invariant [where P = "\<lambda>_. True", OF assms] by simp

lemma wfGrid_localPass: "wfGrid w \<Longrightarrow> wfGrid (localPass rnd w)"
  by (simp add: localPass_def Let_def wfGrid_applyTiles)

lemma wfGrid_tick: "wfGrid w \<Longrightarrow> wfGrid (tick rnd w)"
  by (simp add: tick_def Let_def wfGrid_applyTiles wfGrid_localPass)

lemma wfGrid_ticks: "wfGrid w \<Longrightarrow> wfGrid (ticks rnd n w)"
  by (induction n) (simp_all add: wfGrid_tick)

subsection \<open>Which phases write \<open>tileCover\<close>\<close>

lemma foldl_establishes:
  assumes "c \<in> set cs" "I s"
    and inv: "\<And>s c'. I s \<Longrightarrow> c' \<in> set cs \<Longrightarrow> I (f s c')"
    and est: "\<And>s. I s \<Longrightarrow> Q (f s c)"
    and pres: "\<And>s c'. I s \<Longrightarrow> c' \<in> set cs \<Longrightarrow> Q s \<Longrightarrow> Q (f s c')"
  shows "Q (foldl f s cs)"
  using assms
proof (induction cs arbitrary: s)
  case Nil
  then show ?case by simp
next
  case (Cons a cs)
  show ?case
  proof (cases "c = a")
    case True
    have "(\<lambda>s. I s \<and> Q s) (foldl f (f s a) cs)"
      by (rule foldl_invariant) (use Cons.prems True in auto)
    then show ?thesis by simp
  next
    case False
    then have "c \<in> set cs" using Cons.prems(1) by simp
    moreover have "I (f s a)" using Cons.prems by simp
    ultimately have "Q (foldl f (f s a) cs)"
      by (rule Cons.IH) (use Cons.prems in auto)
    then show ?thesis by simp
  qed
qed

lemma cover_eruptTile:
  "tileCover (getTile (eruptTile bx by v xo yo w) x y) = tileCover (getTile w x y)"
  unfolding eruptTile_def Let_def
  by (auto intro: getTile_updTile_pres [where P = "\<lambda>t. tileCover t = tileCover (getTile w x y)"])

lemma cover_eruptVolcano:
  "tileCover (getTile (eruptVolcano rnd w) x y) = tileCover (getTile w x y)"
proof -
  have inner: "tileCover (getTile (foldl (\<lambda>wb yo. eruptTile bx by (sp ! xo ! yo) xo yo wb) wa ys) x y)
               = tileCover (getTile wa x y)"
    for bx "by" sp xo wa ys
    by (induction ys arbitrary: wa) (simp_all add: cover_eruptTile)
  have outer: "tileCover (getTile (foldl (\<lambda>wa xo. foldl (\<lambda>wb yo. eruptTile bx by (sp ! xo ! yo) xo yo wb) wa
                  [0..<length (sp ! xo)]) w0 xs) x y) = tileCover (getTile w0 x y)"
    for bx "by" sp w0 xs
    by (induction xs arbitrary: w0) (simp_all add: inner)
  show ?thesis
    by (simp add: eruptVolcano_def getRandomX_def getRandomY_def mathRandom_def Let_def outer)
qed

lemma cover_decayAtmosphere:
  "tileCover (getTile (decayAtmosphere w) x y) = tileCover (getTile w x y)"
  by (simp add: decayAtmosphere_def Let_def getTile_def)

lemma cover_updTile:
  assumes "\<And>t. tileCover (f t) = tileCover t"
  shows "tileCover (getTile (updTile x' y' f w) x y) = tileCover (getTile w x y)"
  by (rule getTile_updTile_pres [where P = "\<lambda>t. tileCover t = tileCover (getTile w x y)"])
     (simp_all add: assms)

lemma cover_setProkaryote [simp]: "tileCover (setProkaryote p t) = tileCover t"
  by (simp add: setProkaryote_def)

lemma cover_setTotal [simp]: "tileCover (setTotal p t) = tileCover t"
  by (simp add: setTotal_def)

lemma cover_transferPair:
  "tileCover (getTile (transferPair x' y' nx ny w) x y) = tileCover (getTile w x y)"
  by (simp add: transferPair_def Let_def cover_updTile)

lemma cover_transferProkaryotes:
  "tileCover (getTile (transferProkaryotes x' y' w) x y) = tileCover (getTile w x y)"
  by (simp add: transferProkaryotes_def Let_def cover_transferPair)

lemma cover_applyBiomass:
  "tileCover (getTile (applyBiomass x' y' ta w) x y) = tileCover (getTile w x y)"
  by (simp add: applyBiomass_def Let_def cover_updTile)

lemma cover_abiogenesis:
  "tileCover (getTile (abiogenesis rnd x' y' w) x y) = tileCover (getTile w x y)"
  by (simp add: abiogenesis_def mathRandom_def Let_def cover_updTile)

lemma cover_tickTile:
  "tileCover (getTile (tickTile rnd ta htf x' y' w) x y) = tileCover (getTile w x y)"
  by (simp add: tickTile_def Let_def cover_transferProkaryotes cover_applyBiomass
      cover_abiogenesis cover_updTile)

lemma cover_transferHeat:
  "tileCover (getTile (transferHeat x' y' w) x y) = tileCover (getTile w x y)"
  by (simp add: transferHeat_def Let_def cover_updTile)

lemma cover_applyTiles:
  assumes "\<And>x y w. wfGrid w \<Longrightarrow> wfGrid (func x y w)"
    and "\<And>x' y' s. tileCover (getTile (func x' y' s) x y) = tileCover (getTile s x y)"
    and "wfGrid w"
  shows "tileCover (getTile (applyTiles func w) x y) = tileCover (getTile w x y)"
  using applyTiles_invariant [where P = "\<lambda>s. tileCover (getTile s x y) = tileCover (getTile w x y)"
      and func = func and w = w] assms
  by simp

lemma cover_localPass:
  "wfGrid w \<Longrightarrow> tileCover (getTile (localPass rnd w) x y) = tileCover (getTile w x y)"
  by (simp add: localPass_def Let_def cover_applyTiles cover_tickTile)

lemma computeTileCover_cover [simp]:
  "computeTileCover (t\<lparr>tileCover := c\<rparr>) = computeTileCover t"
  by (simp add: computeTileCover_def)

lemma cover_after_setCover_pass:
  assumes "wfGrid w" "x < worldWidth" "y < worldHeight"
  shows "tileCover (getTile (applyTiles setCover w) x y)
         = computeTileCover (getTile (applyTiles setCover w) x y)"
proof -
  let ?Q = "\<lambda>s. tileCover (getTile s x y) = computeTileCover (getTile s x y)"
  have "?Q (foldl (\<lambda>s (x, y). setCover x y s) w scanOrder)"
  proof (rule foldl_establishes [where c = "(x, y)" and I = wfGrid])
    show "(x, y) \<in> set scanOrder" using assms by (simp add: set_scanOrder)
    show "wfGrid w" by fact
    show "wfGrid (case c' of (x, y) \<Rightarrow> setCover x y s)" if "wfGrid s" for s c'
      using that by (cases c') simp
    show "?Q (case (x, y) of (x, y) \<Rightarrow> setCover x y s)" if "wfGrid s" for s
      using that assms by (simp add: setCover_def getTile_updTile_same)
    show "?Q (case c' of (x, y) \<Rightarrow> setCover x y s)" if "?Q s" for s c'
      using that unfolding setCover_def
      by (cases c') (auto intro: getTile_updTile_pres [where P = "\<lambda>t. tileCover t = computeTileCover t"])
  qed
  then show ?thesis
    using assms by (simp add: applyTiles_scanOrder)
qed

section \<open>Surface cover after a tick\<close>

text \<open>
  Claim C8. After \<^verbatim>\<open>tick()\<close>, the \<open>tileCover\<close> of every tile is the classification of
  the altitude and heat the tile has then: Rock if the altitude is at least \<open>seaLevel\<close>,
  otherwise Water if the heat is above \<open>freezingPoint\<close>, otherwise Ice. The last pass of
  the tick alone writes \<open>tileCover\<close>: after the eruption, after the decay of the
  atmosphere, after the first pass over the tiles and after the heat pass every tile
  still has the cover it had when the tick began.
\<close>

theorem tick_tileCover_classification:
  assumes "wfGrid w" "x < worldWidth" "y < worldHeight"
  shows "tileCover (getTile (tick rnd w) x y) =
           (if altitude (getTile (tick rnd w) x y) \<ge> seaLevel then Rock
            else if heat (getTile (tick rnd w) x y) > freezingPoint then Water
            else Ice)
         \<and> tick rnd w = applyTiles setCover
              (applyTiles transferHeat (localPass rnd (decayAtmosphere (eruptVolcano rnd w))))
         \<and> tileCover (getTile (eruptVolcano rnd w) x y) = tileCover (getTile w x y)
         \<and> tileCover (getTile (decayAtmosphere (eruptVolcano rnd w)) x y) = tileCover (getTile w x y)
         \<and> tileCover (getTile (localPass rnd (decayAtmosphere (eruptVolcano rnd w))) x y)
             = tileCover (getTile w x y)
         \<and> tileCover (getTile (applyTiles transferHeat
               (localPass rnd (decayAtmosphere (eruptVolcano rnd w)))) x y)
             = tileCover (getTile w x y)"
proof -
  let ?w2 = "decayAtmosphere (eruptVolcano rnd w)"
  let ?w3 = "localPass rnd ?w2"
  let ?w4 = "applyTiles transferHeat ?w3"
  have wf2: "wfGrid ?w2" using assms(1) by simp
  have wf3: "wfGrid ?w3" using wf2 by (rule wfGrid_localPass)
  have wf4: "wfGrid ?w4" using wf3 by (simp add: wfGrid_applyTiles)
  have t: "tick rnd w = applyTiles setCover ?w4"
    by (simp add: tick_def Let_def)
  have "tileCover (getTile (tick rnd w) x y) = computeTileCover (getTile (tick rnd w) x y)"
    unfolding t using wf4 assms(2,3) by (rule cover_after_setCover_pass)
  then have c1: "tileCover (getTile (tick rnd w) x y) =
           (if altitude (getTile (tick rnd w) x y) \<ge> seaLevel then Rock
            else if heat (getTile (tick rnd w) x y) > freezingPoint then Water
            else Ice)"
    by (simp add: computeTileCover_def not_less)
  have c3: "tileCover (getTile (eruptVolcano rnd w) x y) = tileCover (getTile w x y)"
    by (rule cover_eruptVolcano)
  have c4: "tileCover (getTile ?w2 x y) = tileCover (getTile w x y)"
    by (simp add: cover_decayAtmosphere cover_eruptVolcano)
  have c5: "tileCover (getTile ?w3 x y) = tileCover (getTile w x y)"
    using wf2 c4 by (simp add: cover_localPass)
  have c6: "tileCover (getTile ?w4 x y) = tileCover (getTile w x y)"
    using wf3 c5 by (simp add: cover_applyTiles cover_transferHeat)
  show ?thesis
    using c1 t c3 c4 c5 c6 by blast
qed

theorem tick_tileCover_classification_witness:
  "wfGrid mkWorld \<and> 3 < worldWidth \<and> 5 < worldHeight
   \<and> tileCover (getTile (tick (\<lambda>n. 0) mkWorld) 3 5) =
           (if altitude (getTile (tick (\<lambda>n. 0) mkWorld) 3 5) \<ge> seaLevel then Rock
            else if heat (getTile (tick (\<lambda>n. 0) mkWorld) 3 5) > freezingPoint then Water
            else Ice)
   \<and> tileCover (getTile (applyTiles transferHeat
               (localPass (\<lambda>n. 0) (decayAtmosphere (eruptVolcano (\<lambda>n. 0) mkWorld)))) 3 5)
       = tileCover (getTile mkWorld 3 5)"
proof -
  have h: "wfGrid mkWorld" "3 < worldWidth" "5 < worldHeight"
    by (simp_all add: wfGrid_mkWorld worldWidth_def worldHeight_def)
  show ?thesis
    using h tick_tileCover_classification [OF h, of "\<lambda>n. 0"] by blast
qed

subsection \<open>The atmosphere through the phases\<close>

lemma atmosphere_transferPair [simp]: "atmosphere (transferPair x y nx ny w) = atmosphere w"
  by (simp add: transferPair_def Let_def)

lemma atmosphere_transferProkaryotes [simp]: "atmosphere (transferProkaryotes x y w) = atmosphere w"
  by (simp add: transferProkaryotes_def Let_def)

lemma atmosphere_abiogenesis [simp]: "atmosphere (abiogenesis rnd x y w) = atmosphere w"
  by (simp add: abiogenesis_def mathRandom_def Let_def)

lemma atmosphere_transferHeat [simp]: "atmosphere (transferHeat x y w) = atmosphere w"
  by (simp add: transferHeat_def Let_def)

lemma atmosphere_setCover [simp]: "atmosphere (setCover x y w) = atmosphere w"
  by (simp add: setCover_def)

lemma atmosphere_eruptTile [simp]: "atmosphere (eruptTile bx by v xo yo w) = atmosphere w"
  by (simp add: eruptTile_def Let_def)

lemma atmosphere_eruptVolcano [simp]: "atmosphere (eruptVolcano rnd w) = atmosphere w"
proof -
  have inner: "atmosphere (foldl (\<lambda>wb yo. eruptTile bx by (sp ! xo ! yo) xo yo wb) wa ys) = atmosphere wa"
    for bx "by" sp xo wa ys
    by (induction ys arbitrary: wa) simp_all
  have outer: "atmosphere (foldl (\<lambda>wa xo. foldl (\<lambda>wb yo. eruptTile bx by (sp ! xo ! yo) xo yo wb) wa
                  [0..<length (sp ! xo)]) w0 xs) = atmosphere w0"
    for bx "by" sp w0 xs
    by (induction xs arbitrary: w0) (simp_all add: inner)
  show ?thesis
    by (simp add: eruptVolcano_def getRandomX_def getRandomY_def mathRandom_def Let_def outer)
qed

lemma atmosphere_applyTiles:
  assumes "\<And>x y w. wfGrid w \<Longrightarrow> wfGrid (func x y w)"
    and "\<And>x y s. atmosphere (func x y s) = atmosphere s"
    and "wfGrid w"
  shows "atmosphere (applyTiles func w) = atmosphere w"
  using applyTiles_invariant [where P = "\<lambda>s. atmosphere s = atmosphere w" and func = func and w = w]
    assms by simp

lemma atmosphere_decayAtmosphere:
  "atmosphere (decayAtmosphere w) =
     \<lparr>nitrogen = nitrogen (atmosphere w) - nitrogen (atmosphere w) * atmosphereLossRate,
      oxygen = oxygen (atmosphere w) - oxygen (atmosphere w) * atmosphereLossRate,
      carbonDioxide = carbonDioxide (atmosphere w) - carbonDioxide (atmosphere w) * atmosphereLossRate,
      methane = methane (atmosphere w) - methane (atmosphere w) * atmosphereLossRate,
      waterVapour = 0\<rparr>"
  by (simp add: decayAtmosphere_def Let_def)

lemma applyBiomass_tile:
  assumes "wfGrid w" "x < worldWidth" "y < worldHeight"
  shows "getTile (applyBiomass x y ta w) x' y' =
           (if x' = x \<and> y' = y then grownTile ta (getTile w x y) else getTile w x' y')"
  using assms
  by (auto simp: applyBiomass_def Let_def getTile_updTile grownTile_def setTotal_def setProkaryote_def)

lemma applyBiomass_atmosphere:
  assumes "wfGrid w" "x < worldWidth" "y < worldHeight"
  shows "atmosphere (applyBiomass x y ta w) =
           (atmosphere w)\<lparr>carbonDioxide := carbonDioxide (atmosphere w)
                 - prokaryote (biomass (grownTile ta (getTile w x y))) * carbonPerPhotosyntheticBiomass,
              oxygen := oxygen (atmosphere w)
                 + prokaryote (biomass (grownTile ta (getTile w x y))) * oxygenPerPhotosyntheticBiomass\<rparr>"
  using assms
  by (auto simp: applyBiomass_def Let_def getTile_updTile grownTile_def setTotal_def setProkaryote_def)

lemma tickTile_split:
  "tickTile rnd ta htf x y w = transferProkaryotes x y (tickTileLocal rnd ta htf x y w)"
  by (simp add: tickTile_def tickTileLocal_def Let_def)

lemma wfGrid_tickTileLocal [simp]: "wfGrid (tickTileLocal rnd ta htf x y w) = wfGrid w"
  by (simp add: tickTileLocal_def Let_def)

lemma abiogenesis_tile:
  assumes "wfGrid w" "x < worldWidth" "y < worldHeight"
  shows "getTile (abiogenesis rnd x y w) x' y' =
           (if x' = x \<and> y' = y then seededTile (rnd (randomCalls w)) (getTile w x y) else getTile w x' y')"
  using assms
  by (auto simp: abiogenesis_def mathRandom_def Let_def getTile_updTile seededTile_def
      abiogenesisTest_def setTotal_def setProkaryote_def)

lemma abiogenesis_randomCalls:
  "randomCalls (abiogenesis rnd x y w) =
     (if abiogenesisTest (getTile w x y) then Suc (randomCalls w) else randomCalls w)"
  by (simp add: abiogenesis_def mathRandom_def Let_def abiogenesisTest_def)

lemma tickTileLocal_tile:
  assumes "wfGrid w" "x < worldWidth" "y < worldHeight"
  shows "getTile (tickTileLocal rnd ta htf x y w) x' y' =
           (if x' = x \<and> y' = y then localTile (rnd (randomCalls w)) ta htf (getTile w x y)
            else getTile w x' y')"
  using assms
  by (simp add: tickTileLocal_def Let_def applyBiomass_tile abiogenesis_tile getTile_updTile
      localTile_def heatedTile_def)

lemma cover_heatedTile [simp]: "tileCover (heatedTile htf t) = tileCover t"
  by (simp add: heatedTile_def Let_def)

lemma cover_seededTile [simp]: "tileCover (seededTile r t) = tileCover t"
  by (simp add: seededTile_def)

lemma cover_grownTile [simp]: "tileCover (grownTile ta t) = tileCover t"
  by (simp add: grownTile_def Let_def)

lemma tickTileLocal_atmosphere:
  assumes "wfGrid w" "x < worldWidth" "y < worldHeight"
  shows "atmosphere (tickTileLocal rnd ta htf x y w) =
     (let p = prokaryote (biomass (localTile (rnd (randomCalls w)) ta htf (getTile w x y)));
          a = atmosphere w
      in a\<lparr>waterVapour := waterVapour a +
              (if tileCover (getTile w x y) = Water then waterVaporPerOceanTile else 0),
           carbonDioxide := carbonDioxide a +
              (if tileCover (getTile w x y) = Rock then carbonPerLandTile else 0)
              - p * carbonPerPhotosyntheticBiomass,
           oxygen := oxygen a + p * oxygenPerPhotosyntheticBiomass\<rparr>)"
  using assms
  by (simp add: tickTileLocal_def Let_def applyBiomass_atmosphere abiogenesis_tile getTile_updTile
      localTile_def heatedTile_def)

lemma tickTile_atmosphere:
  assumes "wfGrid w" "x < worldWidth" "y < worldHeight"
  shows "atmosphere (tickTile rnd ta htf x y w) =
     (let p = prokaryote (biomass (localTile (rnd (randomCalls w)) ta htf (getTile w x y)));
          a = atmosphere w
      in a\<lparr>waterVapour := waterVapour a +
              (if tileCover (getTile w x y) = Water then waterVaporPerOceanTile else 0),
           carbonDioxide := carbonDioxide a +
              (if tileCover (getTile w x y) = Rock then carbonPerLandTile else 0)
              - p * carbonPerPhotosyntheticBiomass,
           oxygen := oxygen a + p * oxygenPerPhotosyntheticBiomass\<rparr>)"
  using assms by (simp add: tickTile_split tickTileLocal_atmosphere)

subsection \<open>Water vapour, nitrogen and methane over the first pass\<close>

lemma tiles_scanOrder:
  assumes "wfGrid w"
  shows "map (\<lambda>(x, y). getTile w x y) scanOrder = concat (tiles w)"
proof -
  have col: "map (\<lambda>y. tiles w ! x ! y) [0..<worldHeight] = tiles w ! x" if "x < worldWidth" for x
    using wfGrid_lengths(2) [OF assms that] map_nth [of "tiles w ! x"] by simp
  have "map (\<lambda>(x, y). getTile w x y) scanOrder
        = concat (map (\<lambda>x. map (\<lambda>y. tiles w ! x ! y) [0..<worldHeight]) [0..<worldWidth])"
    by (simp add: scanOrder_def List.product_concat_map map_concat comp_def getTile_def)
  also have "\<dots> = concat (map (\<lambda>x. tiles w ! x) [0..<worldWidth])"
    using col by (intro arg_cong [where f = concat] map_cong) auto
  also have "\<dots> = concat (tiles w)"
    using wfGrid_lengths(1) [OF assms] map_nth [of "tiles w"] worldWidth_pos by simp
  finally show ?thesis .
qed

lemma count_scanOrder:
  assumes "wfGrid w"
  shows "length (filter (\<lambda>(x, y). P (getTile w x y)) scanOrder) = length (filter P (concat (tiles w)))"
proof -
  have "length (filter P (map (\<lambda>(x, y). getTile w x y) scanOrder))
        = length (filter (P \<circ> (\<lambda>(x, y). getTile w x y)) scanOrder)"
    by (simp add: filter_map)
  moreover have "P \<circ> (\<lambda>(x, y). getTile w x y) = (\<lambda>(x, y). P (getTile w x y))"
    by auto
  ultimately show ?thesis
    by (simp add: tiles_scanOrder [OF assms])
qed

lemma waterVapour_tickTile_fold:
  assumes "wfGrid s" "set cs \<subseteq> set scanOrder"
  shows "waterVapour (atmosphere (foldl (\<lambda>s (x, y). tickTile rnd ta htf x y s) s cs))
         = waterVapour (atmosphere s)
           + waterVaporPerOceanTile * real (length (filter (\<lambda>(x, y). tileCover (getTile s x y) = Water) cs))"
  using assms
proof (induction cs arbitrary: s)
  case Nil
  then show ?case by simp
next
  case (Cons c cs)
  obtain x y where c: "c = (x, y)" by (cases c)
  have b: "x < worldWidth" "y < worldHeight"
    using Cons.prems(2) by (auto simp: c set_scanOrder)
  let ?s = "tickTile rnd ta htf x y s"
  have same: "(\<lambda>(x', y'). tileCover (getTile ?s x' y') = Water) = (\<lambda>(x', y'). tileCover (getTile s x' y') = Water)"
    by (simp add: cover_tickTile)
  have "waterVapour (atmosphere (foldl (\<lambda>s (x, y). tickTile rnd ta htf x y s) ?s cs))
        = waterVapour (atmosphere ?s)
          + waterVaporPerOceanTile * real (length (filter (\<lambda>(x, y). tileCover (getTile ?s x y) = Water) cs))"
    by (rule Cons.IH) (use Cons.prems in simp_all)
  then show ?case
    using Cons.prems(1) b
    by (simp add: c same tickTile_atmosphere Let_def algebra_simps)
qed

lemma localPass_waterVapour:
  assumes "wfGrid w"
  shows "waterVapour (atmosphere (localPass rnd w))
         = waterVapour (atmosphere w)
           + waterVaporPerOceanTile * real (length (filter (\<lambda>t. tileCover t = Water) (concat (tiles w))))"
  using assms waterVapour_tickTile_fold [OF assms subset_refl]
  by (simp add: localPass_def Let_def applyTiles_scanOrder
      count_scanOrder [OF assms, where P = "\<lambda>t. tileCover t = Water"])

lemma localPass_nitrogen_methane:
  assumes "wfGrid w"
  shows "nitrogen (atmosphere (localPass rnd w)) = nitrogen (atmosphere w)
         \<and> methane (atmosphere (localPass rnd w)) = methane (atmosphere w)"
proof -
  let ?P = "\<lambda>s. nitrogen (atmosphere s) = nitrogen (atmosphere w) \<and> methane (atmosphere s) = methane (atmosphere w)"
  have "?P (applyTiles (tickTile rnd (computeTileAtmosphere w)
              (computeHeatTrappingFactor (computeTileAtmosphere w))) w)
        \<and> wfGrid (applyTiles (tickTile rnd (computeTileAtmosphere w)
              (computeHeatTrappingFactor (computeTileAtmosphere w))) w)"
    by (rule applyTiles_invariant) (use assms in \<open>simp_all add: tickTile_atmosphere Let_def\<close>)
  then show ?thesis
    by (simp add: localPass_def Let_def)
qed

lemma atmosphere_heat_pass:
  "wfGrid w \<Longrightarrow> atmosphere (applyTiles transferHeat w) = atmosphere w"
  by (simp add: atmosphere_applyTiles)

lemma atmosphere_cover_pass:
  "wfGrid w \<Longrightarrow> atmosphere (applyTiles setCover w) = atmosphere w"
  by (simp add: atmosphere_applyTiles)

lemma tick_atmosphere:
  assumes "wfGrid w"
  shows "atmosphere (tick rnd w) = atmosphere (localPass rnd (decayAtmosphere (eruptVolcano rnd w)))"
  using assms
  by (simp add: tick_def Let_def atmosphere_cover_pass atmosphere_heat_pass
      wfGrid_applyTiles wfGrid_localPass)

lemma tiles_decayAtmosphere [simp]: "tiles (decayAtmosphere w) = tiles w"
  by (simp add: decayAtmosphere_def Let_def)

lemma count_water_eruptVolcano:
  assumes "wfGrid w"
  shows "length (filter (\<lambda>t. tileCover t = Water) (concat (tiles (eruptVolcano rnd w))))
         = length (filter (\<lambda>t. tileCover t = Water) (concat (tiles w)))"
proof -
  have "wfGrid (eruptVolcano rnd w)" using assms by simp
  from count_scanOrder [OF this, where P = "\<lambda>t. tileCover t = Water"]
    count_scanOrder [OF assms, where P = "\<lambda>t. tileCover t = Water"]
  show ?thesis by (simp add: cover_eruptVolcano)
qed

section \<open>Water vapour and the decay of the other gases\<close>

text \<open>
  Claim C7. Water vapour is not decayed: at the end of a tick, \<open>atmosphere.waterVapour\<close>
  is \<open>waterVaporPerOceanTile\<close> times the number of tiles whose \<open>tileCover\<close> is Water during
  the first pass over the tiles (the covers the tiles have when the tick begins, which no
  phase before the last pass changes); the value from the tick before does not enter it.
  Every other gas quantity \<open>q\<close> is \<open>q - q * atmosphereLossRate\<close> in the state the first pass
  starts from, where water vapour is 0; nitrogen and methane keep that value to the end of
  the tick.
\<close>

theorem tick_waterVapour_recomputed:
  assumes "wfGrid w"
  shows "waterVapour (atmosphere (tick rnd w))
           = waterVaporPerOceanTile
             * real (length (filter (\<lambda>t. tileCover t = Water) (concat (tiles w))))
         \<and> (\<forall>x y. tileCover (getTile (decayAtmosphere (eruptVolcano rnd w)) x y)
               = tileCover (getTile w x y))
         \<and> tick rnd w = applyTiles setCover
              (applyTiles transferHeat (localPass rnd (decayAtmosphere (eruptVolcano rnd w))))
         \<and> atmosphere (decayAtmosphere (eruptVolcano rnd w)) =
             \<lparr>nitrogen = nitrogen (atmosphere w) - nitrogen (atmosphere w) * atmosphereLossRate,
              oxygen = oxygen (atmosphere w) - oxygen (atmosphere w) * atmosphereLossRate,
              carbonDioxide = carbonDioxide (atmosphere w)
                 - carbonDioxide (atmosphere w) * atmosphereLossRate,
              methane = methane (atmosphere w) - methane (atmosphere w) * atmosphereLossRate,
              waterVapour = 0\<rparr>
         \<and> nitrogen (atmosphere (tick rnd w))
             = nitrogen (atmosphere w) - nitrogen (atmosphere w) * atmosphereLossRate
         \<and> methane (atmosphere (tick rnd w))
             = methane (atmosphere w) - methane (atmosphere w) * atmosphereLossRate"
proof -
  let ?w2 = "decayAtmosphere (eruptVolcano rnd w)"
  have wf2: "wfGrid ?w2" using assms by simp
  have a2: "atmosphere ?w2 =
             \<lparr>nitrogen = nitrogen (atmosphere w) - nitrogen (atmosphere w) * atmosphereLossRate,
              oxygen = oxygen (atmosphere w) - oxygen (atmosphere w) * atmosphereLossRate,
              carbonDioxide = carbonDioxide (atmosphere w)
                 - carbonDioxide (atmosphere w) * atmosphereLossRate,
              methane = methane (atmosphere w) - methane (atmosphere w) * atmosphereLossRate,
              waterVapour = 0\<rparr>"
    by (simp add: atmosphere_decayAtmosphere)
  have "waterVapour (atmosphere (tick rnd w)) = waterVapour (atmosphere (localPass rnd ?w2))"
    by (simp add: tick_atmosphere [OF assms])
  also have "\<dots> = waterVapour (atmosphere ?w2) + waterVaporPerOceanTile
       * real (length (filter (\<lambda>t. tileCover t = Water) (concat (tiles ?w2))))"
    by (rule localPass_waterVapour [OF wf2])
  also have "\<dots> = waterVaporPerOceanTile
       * real (length (filter (\<lambda>t. tileCover t = Water) (concat (tiles w))))"
    by (simp add: a2 count_water_eruptVolcano [OF assms])
  finally have c1: "waterVapour (atmosphere (tick rnd w)) = waterVaporPerOceanTile
       * real (length (filter (\<lambda>t. tileCover t = Water) (concat (tiles w))))" .
  have c2: "\<forall>x y. tileCover (getTile ?w2 x y) = tileCover (getTile w x y)"
    by (simp add: cover_decayAtmosphere cover_eruptVolcano)
  have c3: "tick rnd w = applyTiles setCover (applyTiles transferHeat (localPass rnd ?w2))"
    by (simp add: tick_def Let_def)
  have c5: "nitrogen (atmosphere (tick rnd w))
             = nitrogen (atmosphere w) - nitrogen (atmosphere w) * atmosphereLossRate"
    and c6: "methane (atmosphere (tick rnd w))
             = methane (atmosphere w) - methane (atmosphere w) * atmosphereLossRate"
    using localPass_nitrogen_methane [OF wf2, of rnd]
    by (simp_all add: tick_atmosphere [OF assms] a2)
  show ?thesis
    using c1 c2 c3 a2 c5 c6 by blast
qed

lemma wfGrid_humidWorld: "wfGrid humidWorld"
  by (simp add: wfGrid_def humidWorld_def crowdedWorld_def mkTiles_def list_all_iff)

lemma humidWorld_water:
  "length (filter (\<lambda>t. tileCover t = Water) (concat (tiles humidWorld))) = 10000"
proof -
  have "filter (\<lambda>t. tileCover t = Water) (concat (tiles humidWorld)) = concat (tiles humidWorld)"
    by (rule filter_True) (auto simp: humidWorld_def crowdedWorld_def)
  moreover have "length (concat (tiles humidWorld)) = worldWidth * worldHeight"
    by (simp add: humidWorld_def crowdedWorld_def mkTiles_def length_concat comp_def
        sum_list_triv del: upt_rec_numeral)
  ultimately show ?thesis
    by (simp add: worldWidth_def worldHeight_def)
qed

theorem tick_waterVapour_recomputed_witness:
  "wfGrid humidWorld
   \<and> waterVapour (atmosphere humidWorld) = 777
   \<and> waterVapour (atmosphere (tick (\<lambda>n. 0) humidWorld)) = 10000
   \<and> nitrogen (atmosphere humidWorld) = 100
   \<and> nitrogen (atmosphere (tick (\<lambda>n. 0) humidWorld)) = 99
   \<and> methane (atmosphere humidWorld) = 20
   \<and> methane (atmosphere (tick (\<lambda>n. 0) humidWorld)) = 198 / 10"
proof -
  have a: "atmosphere humidWorld
      = \<lparr>nitrogen = 100, oxygen = 0, carbonDioxide = 1, methane = 20, waterVapour = 777\<rparr>"
    by (simp add: humidWorld_def)
  from tick_waterVapour_recomputed [OF wfGrid_humidWorld, of "\<lambda>n. 0"]
  have "waterVapour (atmosphere (tick (\<lambda>n. 0) humidWorld))
           = waterVaporPerOceanTile
             * real (length (filter (\<lambda>t. tileCover t = Water) (concat (tiles humidWorld))))"
    and "nitrogen (atmosphere (tick (\<lambda>n. 0) humidWorld))
           = nitrogen (atmosphere humidWorld) - nitrogen (atmosphere humidWorld) * atmosphereLossRate"
    and "methane (atmosphere (tick (\<lambda>n. 0) humidWorld))
           = methane (atmosphere humidWorld) - methane (atmosphere humidWorld) * atmosphereLossRate"
    by blast+
  then show ?thesis
    using wfGrid_humidWorld
    by (simp add: humidWorld_water a waterVaporPerOceanTile_def atmosphereLossRate_def)
qed

subsection \<open>One step of the heat pass\<close>

lemma east_neighbour:
  assumes "x < worldWidth"
  shows "(x + 1) mod worldWidth < worldWidth" "(x + 1) mod worldWidth \<noteq> x"
  using assms by (auto simp: worldWidth_def mod_Suc)

lemma transferHeat_tile:
  assumes "wfGrid s" "x < worldWidth" "y < worldHeight"
  shows "getTile (transferHeat x y s) x' y' =
     (let avgE = (heat (getTile s x y) + heat (getTile s ((x + 1) mod worldWidth) y)) / 2;
          avgS = (heat (getTile s x y) + heat (getTile s x (y + 1))) / 2
      in if x' = x \<and> y' = y
         then (getTile s x y)\<lparr>heat := (if y + 1 < worldHeight then (avgE + avgS) / 2 else avgE)\<rparr>
         else if x' = (x + 1) mod worldWidth \<and> y' = y
         then (getTile s x' y')\<lparr>heat := avgE\<rparr>
         else if y + 1 < worldHeight \<and> x' = x \<and> y' = y + 1
         then (getTile s x' y')\<lparr>heat := avgS\<rparr>
         else getTile s x' y')"
proof -
  note e = east_neighbour [OF assms(2)]
  show ?thesis
  proof (cases "y + 1 = worldHeight")
    case True
    then show ?thesis
      using assms e by (simp add: transferHeat_def Let_def getTile_updTile)
  next
    case False
    then have "y + 1 < worldHeight" using assms(3) by simp
    then show ?thesis
      using assms e False by (simp add: transferHeat_def Let_def getTile_updTile)
  qed
qed

lemma scanOrder_explicit:
  "scanOrder = concat (map (\<lambda>x. map (\<lambda>y. (x, y)) [0..<worldHeight]) [0..<worldWidth])"
  by (simp add: scanOrder_def List.product_concat_map)

lemma worldBiomass_transferHeat [simp]: "worldBiomass (transferHeat x y w) = worldBiomass w"
  by (simp add: transferHeat_def Let_def)

lemma randomCalls_transferHeat [simp]: "randomCalls (transferHeat x y w) = randomCalls w"
  by (simp add: transferHeat_def Let_def)

section \<open>The heat diffusion pass\<close>

text \<open>
  Claim C1. The heat pass of a tick visits the tiles \<^verbatim>\<open>tiles[x][y]\<close> column by column, not
  row by row: the first index \<open>x\<close> runs in the outer loop and the second index \<open>y\<close> in the
  inner loop, each ascending: (0,0), (0,1), ..., (0,H-1), (1,0), ... . It is a fold of
  \<open>transferHeat\<close> over that list of positions, so each step works on the state the steps
  before it left. At the tile \<open>(x, y)\<close>, with \<open>E = ((x+1) mod W, y)\<close> and \<open>S = (x, y+1)\<close>,
  \<open>avgE = (heat(x,y) + heat(E)) / 2\<close> and \<open>avgS = (heat(x,y) + heat(S)) / 2\<close> on the values before
  the step: \<open>E\<close> gets the heat \<open>avgE\<close>; if \<open>y + 1 < H\<close> then \<open>S\<close> gets \<open>avgS\<close> and the tile itself
  \<open>(avgE + avgS) / 2\<close>; in the last row the tile itself gets \<open>avgE\<close>. No other field and no
  other tile changes.
\<close>

theorem heat_pass_column_order:
  assumes "wfGrid w" "wfGrid s" "x < worldWidth" "y < worldHeight"
  shows "tick rnd w = applyTiles setCover
            (foldl (\<lambda>s (x, y). transferHeat x y s)
               (localPass rnd (decayAtmosphere (eruptVolcano rnd w))) scanOrder)
         \<and> applyTiles transferHeat s = foldl (\<lambda>s (x, y). transferHeat x y s) s scanOrder
         \<and> scanOrder = concat (map (\<lambda>x. map (\<lambda>y. (x, y)) [0..<worldHeight]) [0..<worldWidth])
         \<and> (\<forall>x' y'. getTile (transferHeat x y s) x' y' =
             (let avgE = (heat (getTile s x y) + heat (getTile s ((x + 1) mod worldWidth) y)) / 2;
                  avgS = (heat (getTile s x y) + heat (getTile s x (y + 1))) / 2
              in if x' = x \<and> y' = y
                 then (getTile s x y)\<lparr>heat := (if y + 1 < worldHeight then (avgE + avgS) / 2 else avgE)\<rparr>
                 else if x' = (x + 1) mod worldWidth \<and> y' = y
                 then (getTile s x' y')\<lparr>heat := avgE\<rparr>
                 else if y + 1 < worldHeight \<and> x' = x \<and> y' = y + 1
                 then (getTile s x' y')\<lparr>heat := avgS\<rparr>
                 else getTile s x' y'))
         \<and> atmosphere (transferHeat x y s) = atmosphere s
         \<and> worldBiomass (transferHeat x y s) = worldBiomass s"
proof -
  have wf3: "wfGrid (localPass rnd (decayAtmosphere (eruptVolcano rnd w)))"
    using assms(1) by (simp add: wfGrid_localPass)
  have "tick rnd w = applyTiles setCover
            (applyTiles transferHeat (localPass rnd (decayAtmosphere (eruptVolcano rnd w))))"
    by (simp add: tick_def Let_def)
  then have c1: "tick rnd w = applyTiles setCover
            (foldl (\<lambda>s (x, y). transferHeat x y s)
               (localPass rnd (decayAtmosphere (eruptVolcano rnd w))) scanOrder)"
    using wf3 by (simp add: applyTiles_scanOrder)
  have c2: "applyTiles transferHeat s = foldl (\<lambda>s (x, y). transferHeat x y s) s scanOrder"
    using assms(2) by (simp add: applyTiles_scanOrder)
  show ?thesis
    using c1 c2 scanOrder_explicit transferHeat_tile [OF assms(2-4)]
    by simp
qed

theorem heat_pass_column_order_witness:
  "wfGrid mkWorld \<and> wfGrid (updTile 99 5 (\<lambda>t. t\<lparr>heat := 40\<rparr>) mkWorld)
   \<and> 99 < worldWidth \<and> 5 < worldHeight
   \<and> heat (getTile (transferHeat 99 5 (updTile 99 5 (\<lambda>t. t\<lparr>heat := 40\<rparr>) mkWorld)) 99 5) = 20
   \<and> heat (getTile (transferHeat 99 5 (updTile 99 5 (\<lambda>t. t\<lparr>heat := 40\<rparr>) mkWorld)) 0 5) = 20
   \<and> heat (getTile (transferHeat 99 5 (updTile 99 5 (\<lambda>t. t\<lparr>heat := 40\<rparr>) mkWorld)) 99 6) = 20
   \<and> heat (getTile (transferHeat 99 5 (updTile 99 5 (\<lambda>t. t\<lparr>heat := 40\<rparr>) mkWorld)) 98 5) = 0"
proof -
  let ?s = "updTile 99 5 (\<lambda>t. t\<lparr>heat := 40\<rparr>) mkWorld"
  have h: "wfGrid mkWorld" "wfGrid ?s" "99 < worldWidth" "5 < worldHeight"
    by (simp_all add: wfGrid_mkWorld worldWidth_def worldHeight_def)
  have g: "getTile ?s x y = (if x = 99 \<and> y = 5 then (getTile mkWorld 99 5)\<lparr>heat := 40\<rparr> else getTile mkWorld x y)" for x y
    using h by (simp add: getTile_updTile)
  have m: "heat (getTile mkWorld x y) = 0" if "x < 100" "y < 100" for x y
    using that by (simp add: getTile_def mkWorld_def mkTiles_def mkTile_def worldWidth_def worldHeight_def Let_def)
  from heat_pass_column_order [OF h, of "\<lambda>n. 0"]
  have "\<forall>x' y'. getTile (transferHeat 99 5 ?s) x' y' =
             (let avgE = (heat (getTile ?s 99 5) + heat (getTile ?s ((99 + 1) mod worldWidth) 5)) / 2;
                  avgS = (heat (getTile ?s 99 5) + heat (getTile ?s 99 (5 + 1))) / 2
              in if x' = 99 \<and> y' = 5
                 then (getTile ?s 99 5)\<lparr>heat := (if 5 + 1 < worldHeight then (avgE + avgS) / 2 else avgE)\<rparr>
                 else if x' = (99 + 1) mod worldWidth \<and> y' = 5
                 then (getTile ?s x' y')\<lparr>heat := avgE\<rparr>
                 else if 5 + 1 < worldHeight \<and> x' = 99 \<and> y' = 5 + 1
                 then (getTile ?s x' y')\<lparr>heat := avgS\<rparr>
                 else getTile ?s x' y')"
    by blast
  then show ?thesis
    using h by (simp add: g m Let_def worldWidth_def worldHeight_def)
qed

subsection \<open>The order of the scan matters\<close>

lemma foldl_transferHeat_untouched:
  assumes "wfGrid s"
    and "\<And>x y. (x, y) \<in> set cs \<Longrightarrow> x < worldWidth \<and> y < worldHeight
            \<and> (a, b) \<noteq> (x, y) \<and> (a, b) \<noteq> ((x + 1) mod worldWidth, y) \<and> (a, b) \<noteq> (x, y + 1)"
  shows "wfGrid (foldl (\<lambda>s (x, y). transferHeat x y s) s cs)
         \<and> getTile (foldl (\<lambda>s (x, y). transferHeat x y s) s cs) a b = getTile s a b"
proof -
  let ?P = "\<lambda>s'. wfGrid s' \<and> getTile s' a b = getTile s a b"
  have "?P (foldl (\<lambda>s (x, y). transferHeat x y s) s cs)"
  proof (rule foldl_invariant [where P = ?P])
    show "?P s" using assms(1) by simp
  next
    fix c s' assume c: "c \<in> set cs" and p: "?P s'"
    obtain x y where xy: "c = (x, y)" by (cases c)
    from assms(2) [of x y] c xy
    have r: "x < worldWidth" "y < worldHeight" "a \<noteq> x \<or> b \<noteq> y"
      "a \<noteq> (x + 1) mod worldWidth \<or> b \<noteq> y" "a \<noteq> x \<or> b \<noteq> y + 1"
      by auto
    have "getTile (transferHeat x y s') a b = getTile s' a b"
      using r by (auto simp: transferHeat_tile [OF conjunct1 [OF p] r(1,2)] Let_def)
    then show "?P (case c of (x, y) \<Rightarrow> transferHeat x y s')"
      using p by (simp add: xy)
  qed
  then show ?thesis by simp
qed

lemma wfGrid_hotWorld: "wfGrid hotWorld"
  by (simp add: hotWorld_def wfGrid_mkWorld)

lemma heat_hotWorld:
  assumes "x < worldWidth" "y < worldHeight"
  shows "heat (getTile hotWorld x y) = (if x = 0 \<and> y = 0 then 40 else 0)"
proof -
  have g: "getTile hotWorld x y
      = (if x = 0 \<and> y = 0 then (getTile mkWorld 0 0)\<lparr>heat := 40\<rparr> else getTile mkWorld x y)"
    unfolding hotWorld_def
    by (rule getTile_updTile [OF wfGrid_mkWorld worldWidth_pos worldHeight_pos])
  have m: "heat (getTile mkWorld x y) = 0"
    using assms by (simp add: getTile_def mkWorld_def mkTiles_def mkTile_def Let_def)
  show ?thesis
    by (simp add: g m)
qed

lemma hotWorld_first_step:
  assumes "x < worldWidth" "y < worldHeight"
  shows "heat (getTile (transferHeat 0 0 hotWorld) x y)
     = (if (x = 0 \<and> y = 0) \<or> (x = 1 \<and> y = 0) \<or> (x = 0 \<and> y = 1) then 20 else 0)"
  unfolding transferHeat_tile [OF wfGrid_hotWorld worldWidth_pos worldHeight_pos]
  using assms by (simp add: heat_hotWorld Let_def worldWidth_def worldHeight_def)

lemma scanOrder_split:
  "scanOrder = [(0, 0), (0, 1)] @ map (\<lambda>y. (0, y)) [2..<worldHeight] @ [(1, 0)]
     @ (map (\<lambda>y. (1, y)) [1..<worldHeight]
        @ concat (map (\<lambda>x. map (\<lambda>y. (x, y)) [0..<worldHeight]) [2..<worldWidth]))"
proof -
  have w: "[0..<worldWidth] = 0 # 1 # [2..<worldWidth]"
    by (simp add: worldWidth_def upt_conv_Cons del: upt_rec_numeral)
  have h: "[0..<worldHeight] = 0 # 1 # [2..<worldHeight]" "[0..<worldHeight] = 0 # [1..<worldHeight]"
    by (simp_all add: worldHeight_def upt_conv_Cons del: upt_rec_numeral)
  have "scanOrder = map (\<lambda>y. (0, y)) [0..<worldHeight] @ map (\<lambda>y. (1, y)) [0..<worldHeight]
      @ concat (map (\<lambda>x. map (\<lambda>y. (x, y)) [0..<worldHeight]) [2..<worldWidth])"
    unfolding scanOrder_explicit by (subst w) simp
  also have "map (\<lambda>y. (0::nat, y)) [0..<worldHeight] = [(0, 0), (0, 1)] @ map (\<lambda>y. (0, y)) [2..<worldHeight]"
    by (subst h(1)) simp
  also have "map (\<lambda>y. (1::nat, y)) [0..<worldHeight] = [(1, 0)] @ map (\<lambda>y. (1, y)) [1..<worldHeight]"
    by (subst h(2)) simp
  finally show ?thesis by simp
qed

lemma rowMajorOrder_split:
  "rowMajorOrder = [(0, 0), (1, 0)]
     @ (map (\<lambda>x. (x, 0)) [2..<worldWidth]
        @ concat (map (\<lambda>y. map (\<lambda>x. (x, y)) [0..<worldWidth]) [1..<worldHeight]))"
proof -
  have w: "[0..<worldWidth] = 0 # 1 # [2..<worldWidth]"
    by (simp add: worldWidth_def upt_conv_Cons del: upt_rec_numeral)
  have h: "[0..<worldHeight] = 0 # [1..<worldHeight]"
    by (simp_all add: worldHeight_def upt_conv_Cons del: upt_rec_numeral)
  have "rowMajorOrder = map (\<lambda>x. (x, 0)) [0..<worldWidth]
      @ concat (map (\<lambda>y. map (\<lambda>x. (x, y)) [0..<worldWidth]) [1..<worldHeight])"
    unfolding rowMajorOrder_def by (subst h) simp
  also have "map (\<lambda>x. (x, 0::nat)) [0..<worldWidth] = [(0, 0), (1, 0)] @ map (\<lambda>x. (x, 0)) [2..<worldWidth]"
    by (subst w) simp
  finally show ?thesis by simp
qed

lemma east_is_one:
  assumes "x < worldWidth" "(x + 1) mod worldWidth = 1"
  shows "x = 0"
  using assms by (auto simp: worldWidth_def mod_Suc split: if_splits)

lemma hotWorld_rowMajor: "heat (getTile (rowMajorHeatPass hotWorld) 1 0) = 10"
proof -
  let ?f = "\<lambda>s (x, y). transferHeat x y s"
  let ?rest = "map (\<lambda>x. (x, 0)) [2..<worldWidth]
        @ concat (map (\<lambda>y. map (\<lambda>x. (x, y)) [0..<worldWidth]) [1..<worldHeight])"
  let ?s1 = "transferHeat 0 0 hotWorld"
  let ?s2 = "transferHeat 1 0 ?s1"
  have b: "(1::nat) < worldWidth" "(0::nat) < worldHeight"
    by (simp_all add: worldWidth_def worldHeight_def)
  have wf1: "wfGrid ?s1" by (simp add: wfGrid_hotWorld)
  have wf2: "wfGrid ?s2" by (simp add: wfGrid_hotWorld)
  have h2: "heat (getTile ?s2 1 0) = 10"
    unfolding transferHeat_tile [OF wf1 b]
    by (simp add: hotWorld_first_step Let_def worldWidth_def worldHeight_def)
  have "getTile (foldl ?f ?s2 ?rest) 1 0 = getTile ?s2 1 0"
  proof (rule conjunct2 [OF foldl_transferHeat_untouched [OF wf2]])
    fix x y assume "(x, y) \<in> set ?rest"
    then have r: "x < worldWidth" "y < worldHeight" "2 \<le> x \<or> 1 \<le> y"
      by (auto simp: worldHeight_def)
    have e: "(x + 1) mod worldWidth \<noteq> 1 \<or> y \<noteq> 0"
      using east_is_one [OF r(1)] r(3) by (cases "y = 0") auto
    have n: "x \<noteq> 1 \<or> y \<noteq> 0"
      using r(3) by arith
    show "x < worldWidth \<and> y < worldHeight
            \<and> (1, 0) \<noteq> (x, y) \<and> (1, 0) \<noteq> ((x + 1) mod worldWidth, y) \<and> (1, 0) \<noteq> (x, y + 1)"
      unfolding prod.inject using r(1,2) e n by (intro conjI) (simp, simp, metis, metis, simp)
  qed
  then show ?thesis
    unfolding rowMajorHeatPass_def rowMajorOrder_split using h2 by simp
qed

lemma col0_untouched:
  assumes "(x, y) \<in> set (map (\<lambda>y. (0::nat, y)) [2..<worldHeight])" "a \<noteq> 0" "b < 2"
  shows "x < worldWidth \<and> y < worldHeight
            \<and> (a, b) \<noteq> (x, y) \<and> (a, b) \<noteq> ((x + 1) mod worldWidth, y) \<and> (a, b) \<noteq> (x, y + 1)"
proof -
  from assms(1) have "x = 0" "2 \<le> y" "y < worldHeight" by auto
  then show ?thesis
    using assms(2,3) by (simp add: worldWidth_pos)
qed

lemma hotWorld_columns: "heat (getTile (applyTiles transferHeat hotWorld) 1 0) = 25 / 2"
proof -
  let ?f = "\<lambda>s (x, y). transferHeat x y s"
  let ?col0 = "map (\<lambda>y. (0::nat, y)) [2..<worldHeight]"
  let ?rest = "map (\<lambda>y. (1::nat, y)) [1..<worldHeight]
        @ concat (map (\<lambda>x. map (\<lambda>y. (x, y)) [0..<worldHeight]) [2..<worldWidth])"
  let ?s1 = "transferHeat 0 0 hotWorld"
  let ?s2 = "transferHeat 0 1 ?s1"
  let ?s3 = "foldl ?f ?s2 ?col0"
  let ?s4 = "transferHeat 1 0 ?s3"
  have b: "(0::nat) < worldWidth" "(1::nat) < worldHeight" "(1::nat) < worldWidth" "(0::nat) < worldHeight"
    by (simp_all add: worldWidth_def worldHeight_def)
  have wf1: "wfGrid ?s1" by (simp add: wfGrid_hotWorld)
  have wf2: "wfGrid ?s2" by (simp add: wfGrid_hotWorld)
  have h2: "heat (getTile ?s2 1 0) = 20" "heat (getTile ?s2 2 0) = 0" "heat (getTile ?s2 1 1) = 10"
    unfolding transferHeat_tile [OF wf1 b(1,2)]
    by (simp_all add: hotWorld_first_step Let_def worldWidth_def worldHeight_def)
  have u: "wfGrid ?s3 \<and> getTile ?s3 a b = getTile ?s2 a b" if "a \<noteq> 0" "b < 2" for a b
    by (rule foldl_transferHeat_untouched [OF wf2]) (rule col0_untouched [OF _ that])
  have wf3: "wfGrid ?s3"
    using u [of 1 0] by simp
  have h3: "heat (getTile ?s3 1 0) = 20" "heat (getTile ?s3 2 0) = 0" "heat (getTile ?s3 1 1) = 10"
    using u [of 1 0] u [of 2 0] u [of 1 1] h2 by simp_all
  have wf4: "wfGrid ?s4" using wf3 by simp
  have h4: "heat (getTile ?s4 1 0) = 25 / 2"
    unfolding transferHeat_tile [OF wf3 b(3,4)] using h3
    by (simp add: Let_def worldWidth_def worldHeight_def numeral_2_eq_2)
  have "getTile (foldl ?f ?s4 ?rest) 1 0 = getTile ?s4 1 0"
  proof (rule conjunct2 [OF foldl_transferHeat_untouched [OF wf4]])
    fix x y assume "(x, y) \<in> set ?rest"
    then have r: "x < worldWidth" "y < worldHeight" "x = 1 \<and> 1 \<le> y \<or> 2 \<le> x"
      by (auto simp: worldWidth_def)
    have e: "(x + 1) mod worldWidth \<noteq> 1 \<or> y \<noteq> 0"
      using east_is_one [OF r(1)] r(3) by (cases "y = 0") auto
    have n: "x \<noteq> 1 \<or> y \<noteq> 0"
      using r(3) by arith
    show "x < worldWidth \<and> y < worldHeight
            \<and> (1, 0) \<noteq> (x, y) \<and> (1, 0) \<noteq> ((x + 1) mod worldWidth, y) \<and> (1, 0) \<noteq> (x, y + 1)"
      unfolding prod.inject using r(1,2) e n by (intro conjI) (simp, simp, metis, metis, simp)
  qed
  then have "heat (getTile (foldl ?f hotWorld scanOrder) 1 0) = 25 / 2"
    unfolding scanOrder_split using h4 by simp
  then show ?thesis
    by (simp add: applyTiles_scanOrder wfGrid_hotWorld)
qed

text \<open>
  Claim C1, the order as the claim has it. In the row-major order the second tile
  visited is \<open>(1, 0)\<close>; \<^verbatim>\<open>applyTiles\<close> visits \<open>(0, 1)\<close> second and reaches \<open>(1, 0)\<close> only after the
  whole column 0. The heats differ: from the initial state with heat 40 at \<open>(0, 0)\<close>, the
  tile \<open>(1, 0)\<close> ends the heat pass of the code at \<open>25 / 2\<close>, because its southern neighbour
  \<open>(1, 1)\<close> has already been given 10 by the step at \<open>(0, 1)\<close>, and it would end a row-major
  pass at 10.
\<close>

theorem heat_pass_not_row_major:
  "heat (getTile hotWorld 0 0) = 40
   \<and> heat (getTile hotWorld 1 0) = 0
   \<and> take 2 scanOrder = [(0, 0), (0, 1)]
   \<and> take 2 rowMajorOrder = [(0, 0), (1, 0)]
   \<and> heat (getTile (applyTiles transferHeat hotWorld) 1 0) = 25 / 2
   \<and> heat (getTile (rowMajorHeatPass hotWorld) 1 0) = 10"
proof -
  have "take 2 scanOrder = [(0, 0), (0, 1)]"
    unfolding scanOrder_split by simp
  moreover have "take 2 rowMajorOrder = [(0, 0), (1, 0)]"
    unfolding rowMajorOrder_split by simp
  moreover have "heat (getTile hotWorld 0 0) = 40" "heat (getTile hotWorld 1 0) = 0"
    by (simp_all add: heat_hotWorld worldWidth_def worldHeight_def)
  ultimately show ?thesis
    using hotWorld_columns hotWorld_rowMajor by simp
qed

subsection \<open>Dependence on the random numbers\<close>

lemma sameDraws_mono:
  "sameDraws r1 r2 a b \<Longrightarrow> a \<le> a' \<Longrightarrow> b' \<le> b \<Longrightarrow> sameDraws r1 r2 a' b'"
  by (auto simp: sameDraws_def)

lemma drawsOnly_const:
  assumes "\<And>rnd w. F rnd w = G w" "\<And>w. randomCalls (G w) = randomCalls w"
  shows "drawsOnly F"
  using assms by (simp add: drawsOnly_def)

lemma drawsOnly_comp:
  assumes F: "drawsOnly F" and G: "drawsOnly G"
  shows "drawsOnly (\<lambda>rnd w. G rnd (F rnd w))"
  unfolding drawsOnly_def
proof (intro conjI allI impI)
  fix rnd w
  show "randomCalls w \<le> randomCalls (G rnd (F rnd w))"
    using F G unfolding drawsOnly_def by (meson le_trans)
next
  fix rnd1 rnd2 w
  assume s: "sameDraws rnd1 rnd2 (randomCalls w) (randomCalls (G rnd1 (F rnd1 w)))"
  have m1: "randomCalls w \<le> randomCalls (F rnd1 w)"
    and m2: "randomCalls (F rnd1 w) \<le> randomCalls (G rnd1 (F rnd1 w))"
    using F G unfolding drawsOnly_def by blast+
  have "sameDraws rnd1 rnd2 (randomCalls w) (randomCalls (F rnd1 w))"
    by (rule sameDraws_mono [OF s le_refl m2])
  then have e: "F rnd1 w = F rnd2 w"
    using F unfolding drawsOnly_def by blast
  have "sameDraws rnd1 rnd2 (randomCalls (F rnd1 w)) (randomCalls (G rnd1 (F rnd1 w)))"
    by (rule sameDraws_mono [OF s m1 le_refl])
  then have "G rnd1 (F rnd1 w) = G rnd2 (F rnd1 w)"
    using G unfolding drawsOnly_def by blast
  then show "G rnd1 (F rnd1 w) = G rnd2 (F rnd2 w)"
    using e by simp
qed

lemma drawsOnly_foldl:
  assumes "\<And>c. c \<in> set cs \<Longrightarrow> drawsOnly (\<lambda>rnd. f rnd c)"
  shows "drawsOnly (\<lambda>rnd w. foldl (\<lambda>s c. f rnd c s) w cs)"
  using assms
proof (induction cs)
  case Nil
  show ?case by (simp add: drawsOnly_def)
next
  case (Cons c cs)
  have "drawsOnly (\<lambda>rnd w. (\<lambda>rnd w. foldl (\<lambda>s c. f rnd c s) w cs) rnd ((\<lambda>rnd. f rnd c) rnd w))"
    by (rule drawsOnly_comp) (use Cons in auto)
  then show ?case by simp
qed

text \<open>The list a loop runs over may depend on the state the loop starts from.\<close>

lemma drawsOnly_state:
  assumes "\<And>w0. drawsOnly (\<lambda>rnd. F w0 rnd)"
  shows "drawsOnly (\<lambda>rnd w. F w rnd w)"
  using assms unfolding drawsOnly_def by blast

lemma drawsOnly_abiogenesis: "drawsOnly (\<lambda>rnd. abiogenesis rnd x y)"
  unfolding drawsOnly_def
proof (intro conjI allI impI)
  fix rnd w
  show "randomCalls w \<le> randomCalls (abiogenesis rnd x y w)"
    by (simp add: abiogenesis_randomCalls)
next
  fix rnd1 rnd2 w
  assume s: "sameDraws rnd1 rnd2 (randomCalls w) (randomCalls (abiogenesis rnd1 x y w))"
  show "abiogenesis rnd1 x y w = abiogenesis rnd2 x y w"
  proof (cases "abiogenesisTest (getTile w x y)")
    case True
    then have "rnd1 (randomCalls w) = rnd2 (randomCalls w)"
      using s by (simp add: abiogenesis_randomCalls sameDraws_def)
    then show ?thesis
      by (simp add: abiogenesis_def mathRandom_def)
  next
    case False
    then have n: "\<not> (total (biomass (getTile w x y)) = 0
        \<and> heat (getTile w x y) > prokaryoteAbiogenesisMinHeat
        \<and> heat (getTile w x y) < unlivableTemperature)"
      by (simp add: abiogenesisTest_def)
    show ?thesis
      unfolding abiogenesis_def by (simp only: n if_False)
  qed
qed

lemma randomCalls_applyBiomass [simp]: "randomCalls (applyBiomass x y ta w) = randomCalls w"
  by (simp add: applyBiomass_def Let_def)

lemma randomCalls_transferPair [simp]: "randomCalls (transferPair x y nx ny w) = randomCalls w"
  by (simp add: transferPair_def Let_def)

lemma randomCalls_transferProkaryotes [simp]: "randomCalls (transferProkaryotes x y w) = randomCalls w"
  by (simp add: transferProkaryotes_def Let_def)

lemma randomCalls_setCover [simp]: "randomCalls (setCover x y w) = randomCalls w"
  by (simp add: setCover_def)

lemma randomCalls_decayAtmosphere [simp]: "randomCalls (decayAtmosphere w) = randomCalls w"
  by (simp add: decayAtmosphere_def Let_def)

lemma randomCalls_eruptTile [simp]: "randomCalls (eruptTile bx by v xo yo w) = randomCalls w"
  by (simp add: eruptTile_def Let_def)

lemma drawsOnly_tickTile: "drawsOnly (\<lambda>rnd. tickTile rnd ta htf x y)"
proof -
  let ?pre = "\<lambda>w. (let w1 = updTile x y (\<lambda>tile. tile\<lparr>altitude := max (altitude tile - erosionRate) 0\<rparr>) w;
          luminosity = computeLuminosity (getTile w1 x y);
          w2 = updTile x y (\<lambda>tile. tile\<lparr>heat := computeHeat tile luminosity htf\<rparr>) w1
      in (if tileCover (getTile w2 x y) = Water
                then w2\<lparr>atmosphere := (atmosphere w2)
                       \<lparr>waterVapour := waterVapour (atmosphere w2) + waterVaporPerOceanTile\<rparr>\<rparr>
                else if tileCover (getTile w2 x y) = Rock
                then w2\<lparr>atmosphere := (atmosphere w2)
                       \<lparr>carbonDioxide := carbonDioxide (atmosphere w2) + carbonPerLandTile\<rparr>\<rparr>
                else w2))"
  let ?post = "\<lambda>w. transferProkaryotes x y (applyBiomass x y ta w)"
  have 1: "drawsOnly (\<lambda>(rnd :: nat \<Rightarrow> real) w. ?pre w)"
    by (rule drawsOnly_const [where G = ?pre]) (simp_all add: Let_def)
  have 2: "drawsOnly (\<lambda>(rnd :: nat \<Rightarrow> real) w. ?post w)"
    by (rule drawsOnly_const [where G = ?post]) simp_all
  have "drawsOnly (\<lambda>rnd w. ?post (abiogenesis rnd x y (?pre w)))"
    by (intro drawsOnly_comp [OF drawsOnly_comp [OF 1 drawsOnly_abiogenesis] 2])
  moreover have "(\<lambda>rnd w. ?post (abiogenesis rnd x y (?pre w))) = (\<lambda>rnd. tickTile rnd ta htf x y)"
    by (intro ext) (simp only: tickTile_def Let_def)
  ultimately show ?thesis by simp
qed

lemma drawsOnly_applyTiles:
  assumes "\<And>x y. drawsOnly (\<lambda>rnd. func rnd x y)"
  shows "drawsOnly (\<lambda>rnd. applyTiles (func rnd))"
proof -
  have inner: "drawsOnly (\<lambda>rnd w. foldl (\<lambda>w2 y. func rnd x y w2) w ys)" for x ys
    by (rule drawsOnly_foldl) (rule assms)
  have inner': "drawsOnly (\<lambda>rnd w1. foldl (\<lambda>w2 y. func rnd x y w2) w1 [0..<length (tiles w1 ! x)])" for x
    by (rule drawsOnly_state) (rule inner)
  have outer: "drawsOnly (\<lambda>rnd w. foldl (\<lambda>w1 x. foldl (\<lambda>w2 y. func rnd x y w2) w1 [0..<length (tiles w1 ! x)]) w xs)" for xs
    by (rule drawsOnly_foldl) (rule inner')
  have "drawsOnly (\<lambda>rnd w. foldl (\<lambda>w1 x. foldl (\<lambda>w2 y. func rnd x y w2) w1 [0..<length (tiles w1 ! x)]) w
           [0..<length (tiles w)])"
    by (rule drawsOnly_state) (rule outer)
  then show ?thesis
    by (simp add: applyTiles_def [abs_def])
qed

lemma drawsOnly_localPass: "drawsOnly localPass"
proof -
  have "drawsOnly (\<lambda>rnd w. applyTiles (tickTile rnd (computeTileAtmosphere w0)
            (computeHeatTrappingFactor (computeTileAtmosphere w0))) w)" for w0
    by (rule drawsOnly_applyTiles) (rule drawsOnly_tickTile)
  then have "drawsOnly (\<lambda>rnd w. applyTiles (tickTile rnd (computeTileAtmosphere w)
            (computeHeatTrappingFactor (computeTileAtmosphere w))) w)"
    by (rule drawsOnly_state)
  then show ?thesis
    by (simp add: localPass_def [abs_def] Let_def)
qed

lemma eruptVolcano_eruptAt:
  "eruptVolcano rnd w =
     eruptAt (nat \<lfloor>rnd (randomCalls w) * real worldWidth\<rfloor>)
             (nat \<lfloor>rnd (randomCalls w + 1) * real worldHeight\<rfloor>)
             (volcanoMinUpthrust + of_int \<lfloor>volcanoUpthrustVariation * rnd (randomCalls w + 2)\<rfloor>)
             (w\<lparr>randomCalls := randomCalls w + 3\<rparr>)"
  by (simp add: eruptVolcano_def eruptAt_def getRandomX_def getRandomY_def mathRandom_def Let_def
      numeral_3_eq_3)

lemma randomCalls_eruptAt [simp]: "randomCalls (eruptAt bx by u w) = randomCalls w"
proof -
  have inner: "randomCalls (foldl (\<lambda>wb yo. eruptTile bx by (sp ! xo ! yo) xo yo wb) wa ys) = randomCalls wa"
    for sp xo wa ys
    by (induction ys arbitrary: wa) simp_all
  have outer: "randomCalls (foldl (\<lambda>wa xo. foldl (\<lambda>wb yo. eruptTile bx by (sp ! xo ! yo) xo yo wb) wa
                  [0..<length (sp ! xo)]) w0 xs) = randomCalls w0"
    for sp w0 xs
    by (induction xs arbitrary: w0) (simp_all add: inner)
  show ?thesis
    by (simp add: eruptAt_def outer)
qed

lemma randomCalls_eruptVolcano: "randomCalls (eruptVolcano rnd w) = randomCalls w + 3"
  by (simp add: eruptVolcano_eruptAt)

lemma drawsOnly_eruptVolcano: "drawsOnly eruptVolcano"
  unfolding drawsOnly_def
proof (intro conjI allI impI)
  fix rnd w
  show "randomCalls w \<le> randomCalls (eruptVolcano rnd w)"
    by (simp add: randomCalls_eruptVolcano)
next
  fix rnd1 rnd2 w
  assume "sameDraws rnd1 rnd2 (randomCalls w) (randomCalls (eruptVolcano rnd1 w))"
  then have "rnd1 (randomCalls w) = rnd2 (randomCalls w)"
    "rnd1 (randomCalls w + 1) = rnd2 (randomCalls w + 1)"
    "rnd1 (randomCalls w + 2) = rnd2 (randomCalls w + 2)"
    by (simp_all add: sameDraws_def randomCalls_eruptVolcano)
  then show "eruptVolcano rnd1 w = eruptVolcano rnd2 w"
    by (simp add: eruptVolcano_eruptAt)
qed

lemma randomCalls_applyTiles_fixed:
  assumes "\<And>x y s. randomCalls (func x y s) = randomCalls s"
  shows "randomCalls (applyTiles func w) = randomCalls w"
proof -
  have inner: "randomCalls (foldl (\<lambda>w2 y. func x y w2) w1 ys) = randomCalls w1" for x w1 ys
    by (induction ys arbitrary: w1) (simp_all add: assms)
  have outer: "randomCalls (foldl (\<lambda>w1 x. foldl (\<lambda>w2 y. func x y w2) w1 [0..<length (tiles w1 ! x)]) w0 xs)
               = randomCalls w0" for w0 xs
    by (induction xs arbitrary: w0) (simp_all add: inner)
  show ?thesis
    by (simp add: applyTiles_def outer)
qed

lemma drawsOnly_tick: "drawsOnly tick"
proof -
  have d: "drawsOnly (\<lambda>(rnd :: nat \<Rightarrow> real). decayAtmosphere)"
    by (rule drawsOnly_const [where G = decayAtmosphere]) simp_all
  have h: "drawsOnly (\<lambda>(rnd :: nat \<Rightarrow> real) w. applyTiles setCover (applyTiles transferHeat w))"
    by (rule drawsOnly_const [where G = "\<lambda>w. applyTiles setCover (applyTiles transferHeat w)"])
       (simp_all add: randomCalls_applyTiles_fixed)
  have "drawsOnly (\<lambda>rnd w. applyTiles setCover (applyTiles transferHeat
           (localPass rnd (decayAtmosphere (eruptVolcano rnd w)))))"
    by (intro drawsOnly_comp [OF drawsOnly_comp [OF drawsOnly_comp [OF drawsOnly_eruptVolcano d]
          drawsOnly_localPass] h])
  moreover have "(\<lambda>rnd w. applyTiles setCover (applyTiles transferHeat
           (localPass rnd (decayAtmosphere (eruptVolcano rnd w))))) = tick"
    by (intro ext) (simp only: tick_def Let_def)
  ultimately show ?thesis by simp
qed

lemma drawsOnly_ticks: "drawsOnly (\<lambda>rnd. ticks rnd n)"
proof (induction n)
  case 0
  show ?case by (simp add: drawsOnly_def)
next
  case (Suc n)
  have "drawsOnly (\<lambda>rnd w. tick rnd (ticks rnd n w))"
    by (rule drawsOnly_comp [OF Suc drawsOnly_tick])
  then show ?case by simp
qed

lemma randomCalls_tickTile_le:
  "randomCalls (tickTile rnd ta htf x y w) \<le> Suc (randomCalls w)"
  by (simp add: tickTile_def Let_def abiogenesis_randomCalls)

lemma randomCalls_tickTile_fold_le:
  "randomCalls (foldl (\<lambda>s (x, y). tickTile rnd ta htf x y s) s cs) \<le> randomCalls s + length cs"
proof (induction cs arbitrary: s)
  case Nil
  show ?case by simp
next
  case (Cons c cs)
  obtain x y where c: "c = (x, y)" by (cases c)
  have "randomCalls (foldl (\<lambda>s (x, y). tickTile rnd ta htf x y s) (tickTile rnd ta htf x y s) cs)
        \<le> randomCalls (tickTile rnd ta htf x y s) + length cs"
    by (rule Cons.IH)
  also have "\<dots> \<le> Suc (randomCalls s) + length cs"
    using randomCalls_tickTile_le [of rnd ta htf x y s] by simp
  finally show ?case by (simp add: c)
qed

lemma randomCalls_tick_le:
  assumes "wfGrid w"
  shows "randomCalls (tick rnd w) \<le> randomCalls w + 3 + worldWidth * worldHeight"
proof -
  let ?w2 = "decayAtmosphere (eruptVolcano rnd w)"
  have wf2: "wfGrid ?w2" using assms by simp
  have "randomCalls (tick rnd w) = randomCalls (localPass rnd ?w2)"
    by (simp add: tick_def Let_def randomCalls_applyTiles_fixed)
  also have "\<dots> = randomCalls (foldl (\<lambda>s (x, y). tickTile rnd (computeTileAtmosphere ?w2)
             (computeHeatTrappingFactor (computeTileAtmosphere ?w2)) x y s) ?w2 scanOrder)"
    using wf2 by (simp add: localPass_def Let_def applyTiles_scanOrder)
  also have "\<dots> \<le> randomCalls ?w2 + length scanOrder"
    by (rule randomCalls_tickTile_fold_le)
  also have "\<dots> = randomCalls w + 3 + worldWidth * worldHeight"
    by (simp add: randomCalls_eruptVolcano scanOrder_def)
  finally show ?thesis .
qed

section \<open>Determinism in the random numbers\<close>

text \<open>
  Claim C9. The state after \<open>n\<close> ticks is a function of the state before them and of the
  values \<^verbatim>\<open>Math.random()\<close> returns to the calls made in these ticks (the two of the
  volcano's position, the one of its magnitude, and the abiogenesis trials): two runs of
  \<open>n\<close> ticks from the same state whose random sources return the same value at every
  call the first run makes end in the same state, the atmosphere, the grid, the biomass
  totals and the number of calls made.
\<close>

theorem ticks_deterministic:
  assumes "sameDraws rnd1 rnd2 (randomCalls w) (randomCalls (ticks rnd1 n w))"
  shows "ticks rnd1 n w = ticks rnd2 n w"
  using assms drawsOnly_ticks [of n] unfolding drawsOnly_def by blast

theorem ticks_deterministic_witness:
  "sameDraws (\<lambda>i. 0) (\<lambda>i. if i < 10003 then 0 else 1 / 2) (randomCalls mkWorld)
      (randomCalls (ticks (\<lambda>i. 0) 1 mkWorld))
   \<and> ticks (\<lambda>i. 0) 1 mkWorld = ticks (\<lambda>i. if i < 10003 then 0 else 1 / 2) 1 mkWorld"
proof -
  have "randomCalls (ticks (\<lambda>i. 0) 1 mkWorld) \<le> 10003"
    using randomCalls_tick_le [OF wfGrid_mkWorld, of "\<lambda>i. 0"]
    by (simp add: mkWorld_def worldWidth_def worldHeight_def)
  then have h: "sameDraws (\<lambda>i. 0) (\<lambda>i. if i < 10003 then 0 else 1 / 2) (randomCalls mkWorld)
      (randomCalls (ticks (\<lambda>i. 0) 1 mkWorld))"
    unfolding sameDraws_def by auto
  show ?thesis
    using h ticks_deterministic [OF h] by blast
qed

subsection \<open>Properties of all tiles through the phases\<close>

lemma allTilesD: "allTiles P w \<Longrightarrow> x < worldWidth \<Longrightarrow> y < worldHeight \<Longrightarrow> P x y (getTile w x y)"
  by (simp add: allTiles_def)

lemma allTiles_fields [simp]:
  "allTiles P (w\<lparr>atmosphere := a\<rparr>) = allTiles P w"
  "allTiles P (w\<lparr>worldBiomass := b\<rparr>) = allTiles P w"
  "allTiles P (w\<lparr>randomCalls := n\<rparr>) = allTiles P w"
  by (simp_all add: allTiles_def)

lemma allTiles_updTile:
  assumes "allTiles P w" "P x y (getTile w x y) \<Longrightarrow> P x y (f (getTile w x y))"
    and "wfGrid w" "x < worldWidth" "y < worldHeight"
  shows "allTiles P (updTile x y f w)"
  using assms by (simp add: allTiles_def getTile_updTile)

lemma allTiles_eruptTile:
  assumes "allTiles P w" "wfGrid w" "\<And>x y t a. P x y t \<Longrightarrow> P x y (t\<lparr>altitude := a\<rparr>)"
  shows "allTiles P (eruptTile bx by v xo yo w)"
  using assms by (auto simp: eruptTile_def Let_def intro!: allTiles_updTile dest: allTilesD)

lemma eruptAt_invariant:
  assumes "Q w" "\<And>v xo yo s. Q s \<Longrightarrow> Q (eruptTile bx by v xo yo s)"
  shows "Q (eruptAt bx by u w)"
  unfolding eruptAt_def
  by (rule foldl_invariant [where P = Q], fact, rule foldl_invariant [where P = Q], assumption)
     (rule assms(2))

lemma allTiles_eruptVolcano:
  assumes "allTiles P w" "wfGrid w" "\<And>x y t a. P x y t \<Longrightarrow> P x y (t\<lparr>altitude := a\<rparr>)"
  shows "allTiles P (eruptVolcano rnd w)"
proof -
  have "(\<lambda>s. allTiles P s \<and> wfGrid s) (eruptAt bx by u (w\<lparr>randomCalls := n\<rparr>))" for bx "by" u n
    by (rule eruptAt_invariant) (use assms in \<open>auto intro: allTiles_eruptTile\<close>)
  then show ?thesis by (simp add: eruptVolcano_eruptAt)
qed

lemma allTiles_decayAtmosphere [simp]: "allTiles P (decayAtmosphere w) = allTiles P w"
  by (simp add: allTiles_def getTile_def)

lemma allTiles_transferHeat:
  assumes "allTiles P w" "wfGrid w" "x < worldWidth" "y < worldHeight"
    and "\<And>x y t h. P x y t \<Longrightarrow> P x y (t\<lparr>heat := h\<rparr>)"
  shows "allTiles P (transferHeat x y w)"
  using assms east_neighbour(1) [OF assms(3)]
  by (auto simp: allTiles_def transferHeat_tile Let_def)

lemma allTiles_setCover:
  assumes "allTiles P w" "wfGrid w" "x < worldWidth" "y < worldHeight"
    and "\<And>x y t c. P x y t \<Longrightarrow> P x y (t\<lparr>tileCover := c\<rparr>)"
  shows "allTiles P (setCover x y w)"
  using assms by (auto simp: setCover_def intro!: allTiles_updTile dest: allTilesD)

lemma allTiles_heat_pass:
  assumes "allTiles P w" "wfGrid w" "\<And>x y t h. P x y t \<Longrightarrow> P x y (t\<lparr>heat := h\<rparr>)"
  shows "allTiles P (applyTiles transferHeat w)"
  using applyTiles_invariant [where P = "allTiles P" and func = transferHeat and w = w] assms
  by (simp add: allTiles_transferHeat)

lemma allTiles_cover_pass:
  assumes "allTiles P w" "wfGrid w" "\<And>x y t c. P x y t \<Longrightarrow> P x y (t\<lparr>tileCover := c\<rparr>)"
  shows "allTiles P (applyTiles setCover w)"
  using applyTiles_invariant [where P = "allTiles P" and func = setCover and w = w] assms
  by (simp add: allTiles_setCover)

text \<open>One exchange of \<^verbatim>\<open>transferProkaryotes\<close>, tile by tile.\<close>

lemma transferPair_tile:
  assumes "wfGrid s" "x < worldWidth" "y < worldHeight" "nx < worldWidth" "ny < worldHeight"
    and "nx \<noteq> x \<or> ny \<noteq> y"
  shows "getTile (transferPair x y nx ny s) x' y' =
     (let avePop = (prokaryote (biomass (getTile s x y)) + prokaryote (biomass (getTile s nx ny))) / 2
      in if canProkaryotesSurvive (getTile s nx ny) \<and>
            (prokaryote (biomass (getTile s x y)) > 2 \<or> prokaryote (biomass (getTile s nx ny)) > 2)
            \<and> ((x' = x \<and> y' = y) \<or> (x' = nx \<and> y' = ny))
         then setProkaryote avePop (getTile s x' y')
         else getTile s x' y')"
  using assms by (auto simp: transferPair_def Let_def getTile_updTile)

lemma allTiles_transferPair:
  assumes "allTiles P s" "wfGrid s" "x < worldWidth" "y < worldHeight" "nx < worldWidth" "ny < worldHeight"
    and "nx \<noteq> x \<or> ny \<noteq> y"
    and "canProkaryotesSurvive (getTile s nx ny) \<Longrightarrow>
         prokaryote (biomass (getTile s x y)) > 2 \<or> prokaryote (biomass (getTile s nx ny)) > 2 \<Longrightarrow>
         P x y (setProkaryote ((prokaryote (biomass (getTile s x y))
                  + prokaryote (biomass (getTile s nx ny))) / 2) (getTile s x y))
         \<and> P nx ny (setProkaryote ((prokaryote (biomass (getTile s x y))
                  + prokaryote (biomass (getTile s nx ny))) / 2) (getTile s nx ny))"
  shows "allTiles P (transferPair x y nx ny s)"
  unfolding allTiles_def
proof (intro allI impI)
  fix x' y' assume b: "x' < worldWidth \<and> y' < worldHeight"
  then have "P x' y' (getTile s x' y')" using assms(1) by (simp add: allTiles_def)
  then show "P x' y' (getTile (transferPair x y nx ny s) x' y')"
    using assms(8) by (auto simp: transferPair_tile [OF assms(2-7)] Let_def)
qed

lemma canProkaryotesSurvive_setProkaryote [simp]:
  "canProkaryotesSurvive (setProkaryote p t) = canProkaryotesSurvive t"
  by (simp add: canProkaryotesSurvive_def setProkaryote_def)

lemma allTiles_transferProkaryotes:
  assumes all: "allTiles P s" and wf: "wfGrid s" and x: "x < worldWidth" and y: "y < worldHeight"
    and closure: "\<And>nx ny t t'. nx < worldWidth \<Longrightarrow> ny < worldHeight \<Longrightarrow>
          (nx = (x + 1) mod worldWidth \<and> ny = y) \<or> (nx = x \<and> ny = y + 1) \<Longrightarrow>
          P x y t \<Longrightarrow> P nx ny t' \<Longrightarrow> canProkaryotesSurvive t \<Longrightarrow> canProkaryotesSurvive t' \<Longrightarrow>
          prokaryote (biomass t) > 2 \<or> prokaryote (biomass t') > 2 \<Longrightarrow>
          P x y (setProkaryote ((prokaryote (biomass t) + prokaryote (biomass t')) / 2) t)
          \<and> P nx ny (setProkaryote ((prokaryote (biomass t) + prokaryote (biomass t')) / 2) t')"
  shows "allTiles P (transferProkaryotes x y s)"
proof (cases "canProkaryotesSurvive (getTile s x y)")
  case False
  then show ?thesis using all by (simp add: transferProkaryotes_def)
next
  case True
  note e = east_neighbour [OF x]
  let ?s1 = "transferPair x y ((x + 1) mod worldWidth) y s"
  have wf1: "wfGrid ?s1" using wf by simp
  have all1: "allTiles P ?s1"
  proof (rule allTiles_transferPair [OF all wf x y e(1) y])
    show "(x + 1) mod worldWidth \<noteq> x \<or> y \<noteq> y" using e by simp
    assume "canProkaryotesSurvive (getTile s ((x + 1) mod worldWidth) y)"
      "prokaryote (biomass (getTile s x y)) > 2
       \<or> prokaryote (biomass (getTile s ((x + 1) mod worldWidth) y)) > 2"
    then show "P x y (setProkaryote ((prokaryote (biomass (getTile s x y))
                  + prokaryote (biomass (getTile s ((x + 1) mod worldWidth) y))) / 2) (getTile s x y))
         \<and> P ((x + 1) mod worldWidth) y (setProkaryote ((prokaryote (biomass (getTile s x y))
                  + prokaryote (biomass (getTile s ((x + 1) mod worldWidth) y))) / 2)
                  (getTile s ((x + 1) mod worldWidth) y))"
      using closure [OF e(1) y _ allTilesD [OF all x y] allTilesD [OF all e(1) y] True]
      by blast
  qed
  have surv1: "canProkaryotesSurvive (getTile ?s1 x y)"
    unfolding transferPair_tile [OF wf x y e(1) y disjI1 [OF e(2)]]
    using True by (simp add: Let_def)
  show ?thesis
  proof (cases "y + 1 = worldHeight")
    case True
    then show ?thesis
      using all1 \<open>canProkaryotesSurvive (getTile s x y)\<close>
      by (simp add: transferProkaryotes_def Let_def)
  next
    case False
    then have y1: "y + 1 < worldHeight" using y by simp
    have "allTiles P (transferPair x y x (y + 1) ?s1)"
    proof (rule allTiles_transferPair [OF all1 wf1 x y x y1])
      show "x \<noteq> x \<or> y + 1 \<noteq> y" by simp
      assume "canProkaryotesSurvive (getTile ?s1 x (y + 1))"
        "prokaryote (biomass (getTile ?s1 x y)) > 2
         \<or> prokaryote (biomass (getTile ?s1 x (y + 1))) > 2"
      then show "P x y (setProkaryote ((prokaryote (biomass (getTile ?s1 x y))
                  + prokaryote (biomass (getTile ?s1 x (y + 1)))) / 2) (getTile ?s1 x y))
         \<and> P x (y + 1) (setProkaryote ((prokaryote (biomass (getTile ?s1 x y))
                  + prokaryote (biomass (getTile ?s1 x (y + 1)))) / 2) (getTile ?s1 x (y + 1)))"
        using closure [OF x y1 _ allTilesD [OF all1 x y] allTilesD [OF all1 x y1] surv1]
        by blast
    qed
    then show ?thesis
      using False \<open>canProkaryotesSurvive (getTile s x y)\<close>
      by (simp add: transferProkaryotes_def Let_def)
  qed
qed

lemma allTiles_tickTile:
  assumes all: "allTiles P s" and wf: "wfGrid s" and x: "x < worldWidth" and y: "y < worldHeight"
    and loc: "P x y (getTile s x y) \<Longrightarrow>
          P x y (localTile (rnd (randomCalls s)) ta htf (getTile s x y))"
    and closure: "\<And>nx ny t t'. nx < worldWidth \<Longrightarrow> ny < worldHeight \<Longrightarrow>
          (nx = (x + 1) mod worldWidth \<and> ny = y) \<or> (nx = x \<and> ny = y + 1) \<Longrightarrow>
          P x y t \<Longrightarrow> P nx ny t' \<Longrightarrow> canProkaryotesSurvive t \<Longrightarrow> canProkaryotesSurvive t' \<Longrightarrow>
          prokaryote (biomass t) > 2 \<or> prokaryote (biomass t') > 2 \<Longrightarrow>
          P x y (setProkaryote ((prokaryote (biomass t) + prokaryote (biomass t')) / 2) t)
          \<and> P nx ny (setProkaryote ((prokaryote (biomass t) + prokaryote (biomass t')) / 2) t')"
  shows "allTiles P (tickTile rnd ta htf x y s)"
proof -
  have "allTiles P (tickTileLocal rnd ta htf x y s)"
    using all loc x y by (simp add: allTiles_def tickTileLocal_tile [OF wf x y])
  then show ?thesis
    unfolding tickTile_split
    by (rule allTiles_transferProkaryotes) (use wf x y closure in auto)
qed

subsection \<open>Signs of the gas quantities and of the biomass\<close>

lemma nonnegTile_localTile:
  assumes "nonnegTile t" "0 \<le> carbonDioxide ta"
  shows "nonnegTile (localTile r ta htf t)"
proof -
  let ?t = "seededTile r (heatedTile htf t)"
  have s: "nonnegTile ?t"
    using assms(1) by (simp add: nonnegTile_def seededTile_def heatedTile_def Let_def)
  have rate: "0 \<le> min (carbonDioxide ta * prokaryoteReproductionRate) prokaryoteReproductionRate"
    using assms(2) by (simp add: prokaryoteReproductionRate_def)
  have cap: "0 \<le> baseLuminosity ?t * fullLuminosityHeat * photosynthticBiomassPerEnergy"
    using s by (simp add: nonnegTile_def fullLuminosityHeat_def photosynthticBiomassPerEnergy_def)
  have "0 \<le> p + p * min (carbonDioxide ta * prokaryoteReproductionRate) prokaryoteReproductionRate"
    if "0 \<le> p" for p :: real
    using that rate by simp
  then show ?thesis
    using s cap unfolding localTile_def grownTile_def nonnegTile_def Let_def
    by (simp add: min_def)
qed

lemma nonnegTile_average:
  assumes "nonnegTile t" "nonnegTile t'"
  shows "nonnegTile (setProkaryote ((prokaryote (biomass t) + prokaryote (biomass t')) / 2) t)"
    and "nonnegTile (setProkaryote ((prokaryote (biomass t) + prokaryote (biomass t')) / 2) t')"
  using assms by (simp_all add: nonnegTile_def setProkaryote_def)

lemma nonneg_tickTile:
  assumes "allTiles (\<lambda>x y. nonnegTile) s" "0 \<le> oxygen (atmosphere s)" "0 \<le> waterVapour (atmosphere s)"
    and "wfGrid s" "x < worldWidth" "y < worldHeight" "0 \<le> carbonDioxide ta"
  shows "allTiles (\<lambda>x y. nonnegTile) (tickTile rnd ta htf x y s)
         \<and> 0 \<le> oxygen (atmosphere (tickTile rnd ta htf x y s))
         \<and> 0 \<le> waterVapour (atmosphere (tickTile rnd ta htf x y s))"
proof -
  have t: "nonnegTile (getTile s x y)"
    using assms(1,5,6) by (rule allTilesD)
  have l: "nonnegTile (localTile (rnd (randomCalls s)) ta htf (getTile s x y))"
    using t assms(7) by (rule nonnegTile_localTile)
  have "allTiles (\<lambda>x y. nonnegTile) (tickTile rnd ta htf x y s)"
    by (rule allTiles_tickTile [OF assms(1,4,5,6)]) (use l nonnegTile_average in auto)
  moreover have "0 \<le> oxygen (atmosphere (tickTile rnd ta htf x y s))"
    using l assms(2)
    by (simp add: tickTile_atmosphere [OF assms(4,5,6)] Let_def nonnegTile_def
        oxygenPerPhotosyntheticBiomass_def)
  moreover have "0 \<le> waterVapour (atmosphere (tickTile rnd ta htf x y s))"
    using assms(3)
    by (simp add: tickTile_atmosphere [OF assms(4,5,6)] Let_def waterVaporPerOceanTile_def)
  ultimately show ?thesis by blast
qed

lemma nonneg_localPass:
  assumes "allTiles (\<lambda>x y. nonnegTile) w" "0 \<le> oxygen (atmosphere w)" "0 \<le> waterVapour (atmosphere w)"
    and "wfGrid w" "0 \<le> carbonDioxide (atmosphere w)"
  shows "allTiles (\<lambda>x y. nonnegTile) (localPass rnd w)
         \<and> 0 \<le> oxygen (atmosphere (localPass rnd w))
         \<and> 0 \<le> waterVapour (atmosphere (localPass rnd w))"
proof -
  let ?ta = "computeTileAtmosphere w"
  let ?htf = "computeHeatTrappingFactor ?ta"
  let ?I = "\<lambda>s. allTiles (\<lambda>x y. nonnegTile) s \<and> 0 \<le> oxygen (atmosphere s)
        \<and> 0 \<le> waterVapour (atmosphere s)"
  have ta: "0 \<le> carbonDioxide ?ta"
    using assms(5) by (simp add: computeTileAtmosphere_def atmospherePerTile_def)
  have "?I (applyTiles (tickTile rnd ?ta ?htf) w) \<and> wfGrid (applyTiles (tickTile rnd ?ta ?htf) w)"
  proof (rule applyTiles_invariant)
    show "?I w" using assms by simp
    show "wfGrid w" by fact
    show "wfGrid (tickTile rnd ?ta ?htf x y s)" if "wfGrid s" for x y s
      using that by simp
    show "?I (tickTile rnd ?ta ?htf x y s)"
      if "x < worldWidth" "y < worldHeight" "wfGrid s" "?I s" for x y s
      using nonneg_tickTile [of s x y ?ta rnd ?htf] that ta by blast
  qed
  then show ?thesis by (simp add: localPass_def Let_def)
qed

lemma nonnegTile_fields [simp]:
  "nonnegTile (t\<lparr>altitude := a\<rparr>) = nonnegTile t"
  "nonnegTile (t\<lparr>heat := h\<rparr>) = nonnegTile t"
  "nonnegTile (t\<lparr>tileCover := c\<rparr>) = nonnegTile t"
  by (simp_all add: nonnegTile_def)

subsection \<open>A tick of the crowded world\<close>

lemma mkTile_luminosity:
  assumes "y < worldHeight"
  shows "1 / 2 \<le> baseLuminosity (mkTile x y)" "baseLuminosity (mkTile x y) \<le> 1"
proof -
  have "\<bar>real y - 50\<bar> \<le> 50"
    using assms by (simp add: worldHeight_def abs_le_iff)
  then show "1 / 2 \<le> baseLuminosity (mkTile x y)" "baseLuminosity (mkTile x y) \<le> 1"
    by (simp_all add: mkTile_def Let_def worldHeight_def polarLuminosity_def)
qed

lemma getTile_mkTiles:
  assumes "x < worldWidth" "y < worldHeight"
  shows "mkTiles ! x ! y = mkTile x y"
  using assms by (simp add: mkTiles_def)

lemma wfGrid_crowdedWorld: "wfGrid crowdedWorld"
  by (simp add: wfGrid_def crowdedWorld_def mkTiles_def list_all_iff)

lemma getTile_crowdedWorld:
  assumes "x < worldWidth" "y < worldHeight"
  shows "getTile crowdedWorld x y =
     (mkTile x y)\<lparr>heat := 100, tileCover := Water, biomass := \<lparr>total = 1000, prokaryote = 1000\<rparr>\<rparr>"
  using assms by (simp add: getTile_def crowdedWorld_def mkTiles_def)

lemma crowdedWorld_tiles: "allTiles (\<lambda>x y. crowdedTile) crowdedWorld"
  unfolding allTiles_def
proof (intro allI impI)
  fix x y assume b: "x < worldWidth \<and> y < worldHeight"
  then show "crowdedTile (getTile crowdedWorld x y)"
    using mkTile_luminosity [of y x] by (simp add: getTile_crowdedWorld crowdedTile_def)
qed

lemma crowdedTile_localTile:
  assumes "crowdedTile t" "0 < carbonDioxide ta" "0 \<le> htf" "htf \<le> 1 / 2"
  shows "crowdedTile (localTile r ta htf t)"
    and "1000 \<le> prokaryote (biomass (localTile r ta htf t))"
proof -
  let ?h = "heatedTile htf t"
  have lum: "computeLuminosity (t\<lparr>altitude := a\<rparr>) = baseLuminosity t" for a
    using assms(1) by (simp add: computeLuminosity_def crowdedTile_def waterReflectivity_def)
  have "baseLuminosity t * (1 + htf) \<le> 1 * (1 + 1 / 2)"
    using assms by (intro mult_mono) (simp_all add: crowdedTile_def)
  then have heat: "heat ?h \<le> 100"
    using assms(1)
    by (simp add: heatedTile_def Let_def computeHeat_def lum fullLuminosityHeat_def crowdedTile_def)
  have h: "crowdedTile ?h"
    using assms(1) heat by (simp add: crowdedTile_def heatedTile_def Let_def)
  have "\<not> abiogenesisTest ?h"
    using heat by (simp add: abiogenesisTest_def prokaryoteAbiogenesisMinHeat_def)
  then have sd: "seededTile r ?h = ?h"
    by (simp add: seededTile_def)
  have rate: "0 \<le> min (carbonDioxide ta * prokaryoteReproductionRate) prokaryoteReproductionRate"
    using assms(2) by (simp add: prokaryoteReproductionRate_def)
  have grow: "1000 \<le> prokaryote (biomass ?h)
      + prokaryote (biomass ?h) * min (carbonDioxide ta * prokaryoteReproductionRate) prokaryoteReproductionRate"
    using h rate by (simp add: crowdedTile_def add_increasing2)
  have cap: "1000 \<le> baseLuminosity ?h * fullLuminosityHeat * photosynthticBiomassPerEnergy"
    using h by (simp add: crowdedTile_def fullLuminosityHeat_def photosynthticBiomassPerEnergy_def)
  have alive: "\<not> (heat ?h > unlivableTemperature \<or> tileCover ?h \<noteq> Water \<or> carbonDioxide ta = 0)"
    using h assms(2) by (simp add: crowdedTile_def unlivableTemperature_def)
  show "crowdedTile (localTile r ta htf t)"
    using h grow cap alive unfolding localTile_def sd grownTile_def Let_def crowdedTile_def
    by simp
  then show "1000 \<le> prokaryote (biomass (localTile r ta htf t))"
    by (simp add: crowdedTile_def)
qed

lemma crowdedTile_average:
  assumes "crowdedTile t" "crowdedTile t'"
  shows "crowdedTile (setProkaryote ((prokaryote (biomass t) + prokaryote (biomass t')) / 2) t)"
    and "crowdedTile (setProkaryote ((prokaryote (biomass t) + prokaryote (biomass t')) / 2) t')"
  using assms by (simp_all add: crowdedTile_def setProkaryote_def)

lemma crowded_tickTile:
  assumes "allTiles (\<lambda>x y. crowdedTile) s" "wfGrid s" "x < worldWidth" "y < worldHeight"
    and "0 < carbonDioxide ta" "0 \<le> htf" "htf \<le> 1 / 2"
  shows "allTiles (\<lambda>x y. crowdedTile) (tickTile rnd ta htf x y s)"
    and "carbonDioxide (atmosphere (tickTile rnd ta htf x y s)) \<le> carbonDioxide (atmosphere s) - 10"
proof -
  have t: "crowdedTile (getTile s x y)"
    using assms(1,3,4) by (rule allTilesD)
  note l = crowdedTile_localTile [OF t assms(5-7), of "rnd (randomCalls s)"]
  show "allTiles (\<lambda>x y. crowdedTile) (tickTile rnd ta htf x y s)"
    by (rule allTiles_tickTile [OF assms(1-4)]) (use l crowdedTile_average in auto)
  show "carbonDioxide (atmosphere (tickTile rnd ta htf x y s)) \<le> carbonDioxide (atmosphere s) - 10"
    using t l(2)
    by (simp add: tickTile_atmosphere [OF assms(2-4)] Let_def crowdedTile_def
        carbonPerPhotosyntheticBiomass_def)
qed

lemma crowdedWorld_carbonDioxide:
  "carbonDioxide (atmosphere (tick rnd crowdedWorld)) < 0"
proof -
  let ?w2 = "decayAtmosphere (eruptVolcano rnd crowdedWorld)"
  let ?ta = "computeTileAtmosphere ?w2"
  let ?htf = "computeHeatTrappingFactor ?ta"
  let ?I = "\<lambda>s. wfGrid s \<and> allTiles (\<lambda>x y. crowdedTile) s \<and> carbonDioxide (atmosphere s) \<le> 1"
  let ?f = "\<lambda>s (x, y). tickTile rnd ?ta ?htf x y s"
  have wf2: "wfGrid ?w2" by (simp add: wfGrid_crowdedWorld)
  have a2: "atmosphere ?w2 = \<lparr>nitrogen = 0, oxygen = 0, carbonDioxide = 99 / 100, methane = 0,
      waterVapour = 0\<rparr>"
    by (simp add: atmosphere_decayAtmosphere crowdedWorld_def mkAtmosphere_def atmosphereLossRate_def)
  have ta: "0 < carbonDioxide ?ta" "0 \<le> ?htf" "?htf \<le> 1 / 2"
    by (simp_all add: computeTileAtmosphere_def computeHeatTrappingFactor_def a2 atmospherePerTile_def
        worldWidth_def worldHeight_def carbonHeatRetention_def waterVaporHeatRetention_def)
  have "allTiles (\<lambda>x y. crowdedTile) (eruptVolcano rnd crowdedWorld)"
    by (rule allTiles_eruptVolcano [OF crowdedWorld_tiles wfGrid_crowdedWorld])
       (simp add: crowdedTile_def)
  then have all2: "allTiles (\<lambda>x y. crowdedTile) ?w2"
    by simp
  have "carbonDioxide (atmosphere (foldl ?f ?w2 scanOrder)) < 0"
  proof (rule foldl_establishes [where c = "(0, 0)" and I = ?I])
    show "(0, 0) \<in> set scanOrder"
      by (simp add: set_scanOrder worldWidth_pos worldHeight_pos)
    show "?I ?w2" using wf2 all2 by (simp add: a2)
    show "?I (?f s c')" if "?I s" "c' \<in> set scanOrder" for s c'
      using that crowded_tickTile [of s "fst c'" "snd c'" ?ta ?htf rnd] ta
      by (cases c') (auto simp: set_scanOrder)
    show "carbonDioxide (atmosphere (?f s (0, 0))) < 0" if "?I s" for s
      using that crowded_tickTile(2) [of s 0 0 ?ta ?htf rnd] ta worldWidth_pos worldHeight_pos
      by auto
    show "carbonDioxide (atmosphere (?f s c')) < 0"
      if "?I s" "c' \<in> set scanOrder" "carbonDioxide (atmosphere s) < 0" for s c'
      using that crowded_tickTile(2) [of s "fst c'" "snd c'" ?ta ?htf rnd] ta
      by (cases c') (auto simp: set_scanOrder)
  qed
  then have "carbonDioxide (atmosphere (localPass rnd ?w2)) < 0"
    using wf2 by (simp add: localPass_def Let_def applyTiles_scanOrder)
  then show ?thesis
    by (simp add: tick_atmosphere [OF wfGrid_crowdedWorld])
qed

lemma crowdedWorld_nonneg:
  "0 \<le> nitrogen (atmosphere crowdedWorld)" "0 \<le> oxygen (atmosphere crowdedWorld)"
  "0 \<le> carbonDioxide (atmosphere crowdedWorld)" "0 \<le> methane (atmosphere crowdedWorld)"
  "0 \<le> waterVapour (atmosphere crowdedWorld)"
  by (simp_all add: crowdedWorld_def mkAtmosphere_def)

lemma crowdedWorld_nonnegTile: "allTiles (\<lambda>x y. nonnegTile) crowdedWorld"
  unfolding allTiles_def
proof (intro allI impI)
  fix x y assume b: "x < worldWidth \<and> y < worldHeight"
  then have "crowdedTile (getTile crowdedWorld x y)"
    using crowdedWorld_tiles by (simp add: allTiles_def)
  then show "nonnegTile (getTile crowdedWorld x y)"
    by (simp add: crowdedTile_def nonnegTile_def getTile_crowdedWorld b)
qed

section \<open>Signs of the gas quantities and of the biomass after a tick\<close>

text \<open>
  Claim C5, as amended. From a state in which the five gas quantities and the biomass
  values of every tile are not negative, on a grid whose tiles have a nonnegative
  \<open>baseLuminosity\<close> (as \<^verbatim>\<open>Tile()\<close> builds them), after \<^verbatim>\<open>tick()\<close> the quantities of
  nitrogen, oxygen, methane and water vapour are not negative, and neither are
  \<open>biomass.prokaryote\<close> and \<open>biomass.total\<close> of any tile. The quantity of carbon dioxide
  is not in this list: \<^verbatim>\<open>applyBiomass\<close> subtracts from it without a lower bound.
\<close>

theorem tick_nonnegative:
  assumes "wfGrid w"
    and "0 \<le> nitrogen (atmosphere w)" "0 \<le> oxygen (atmosphere w)"
    and "0 \<le> carbonDioxide (atmosphere w)" "0 \<le> methane (atmosphere w)"
    and "0 \<le> waterVapour (atmosphere w)"
    and "allTiles (\<lambda>x y. nonnegTile) w"
  shows "0 \<le> nitrogen (atmosphere (tick rnd w)) \<and> 0 \<le> oxygen (atmosphere (tick rnd w))
         \<and> 0 \<le> methane (atmosphere (tick rnd w)) \<and> 0 \<le> waterVapour (atmosphere (tick rnd w))
         \<and> allTiles (\<lambda>x y t. 0 \<le> prokaryote (biomass t) \<and> 0 \<le> total (biomass t)) (tick rnd w)"
proof -
  let ?w2 = "decayAtmosphere (eruptVolcano rnd w)"
  let ?w3 = "localPass rnd ?w2"
  have wf2: "wfGrid ?w2" using assms(1) by simp
  have wf3: "wfGrid ?w3" using wf2 by (rule wfGrid_localPass)
  have all2: "allTiles (\<lambda>x y. nonnegTile) ?w2"
    using assms(1,7) by (simp add: allTiles_eruptVolcano)
  have a2: "0 \<le> nitrogen (atmosphere ?w2)" "0 \<le> oxygen (atmosphere ?w2)"
    "0 \<le> carbonDioxide (atmosphere ?w2)" "0 \<le> methane (atmosphere ?w2)"
    "0 \<le> waterVapour (atmosphere ?w2)"
    using assms(2-5) by (simp_all add: atmosphere_decayAtmosphere atmosphereLossRate_def)
  have l: "allTiles (\<lambda>x y. nonnegTile) ?w3" "0 \<le> oxygen (atmosphere ?w3)"
    "0 \<le> waterVapour (atmosphere ?w3)"
    using nonneg_localPass [OF all2 a2(2) a2(5) wf2 a2(3), of rnd] by blast+
  have nm: "0 \<le> nitrogen (atmosphere ?w3)" "0 \<le> methane (atmosphere ?w3)"
    using localPass_nitrogen_methane [OF wf2, of rnd] a2(1,4) by simp_all
  have "allTiles (\<lambda>x y. nonnegTile) (applyTiles transferHeat ?w3)"
    using l(1) wf3 by (rule allTiles_heat_pass) simp
  then have "allTiles (\<lambda>x y. nonnegTile) (applyTiles setCover (applyTiles transferHeat ?w3))"
    by (rule allTiles_cover_pass) (use wf3 in \<open>simp_all add: wfGrid_applyTiles\<close>)
  then have "allTiles (\<lambda>x y. nonnegTile) (tick rnd w)"
    by (simp add: tick_def Let_def)
  then have "allTiles (\<lambda>x y t. 0 \<le> prokaryote (biomass t) \<and> 0 \<le> total (biomass t)) (tick rnd w)"
    by (simp add: allTiles_def nonnegTile_def)
  then show ?thesis
    using l(2,3) nm by (simp add: tick_atmosphere [OF assms(1)])
qed

theorem tick_nonnegative_witness:
  "wfGrid crowdedWorld
   \<and> 0 \<le> nitrogen (atmosphere crowdedWorld) \<and> 0 \<le> oxygen (atmosphere crowdedWorld)
   \<and> 0 \<le> carbonDioxide (atmosphere crowdedWorld) \<and> 0 \<le> methane (atmosphere crowdedWorld)
   \<and> 0 \<le> waterVapour (atmosphere crowdedWorld)
   \<and> allTiles (\<lambda>x y. nonnegTile) crowdedWorld
   \<and> 0 \<le> nitrogen (atmosphere (tick (\<lambda>n. 0) crowdedWorld))
   \<and> 0 \<le> oxygen (atmosphere (tick (\<lambda>n. 0) crowdedWorld))
   \<and> 0 \<le> methane (atmosphere (tick (\<lambda>n. 0) crowdedWorld))
   \<and> 0 \<le> waterVapour (atmosphere (tick (\<lambda>n. 0) crowdedWorld))
   \<and> allTiles (\<lambda>x y t. 0 \<le> prokaryote (biomass t) \<and> 0 \<le> total (biomass t))
        (tick (\<lambda>n. 0) crowdedWorld)"
  using tick_nonnegative [OF wfGrid_crowdedWorld crowdedWorld_nonneg crowdedWorld_nonnegTile,
      of "\<lambda>n. 0"]
    wfGrid_crowdedWorld crowdedWorld_nonneg crowdedWorld_nonnegTile
  by blast

text \<open>
  The claim as stated fails for carbon dioxide: the crowded world satisfies its
  hypotheses, and after one tick the quantity of carbon dioxide is negative.
\<close>

theorem tick_carbonDioxide_negative:
  "wfGrid crowdedWorld
   \<and> 0 \<le> nitrogen (atmosphere crowdedWorld) \<and> 0 \<le> oxygen (atmosphere crowdedWorld)
   \<and> 0 \<le> carbonDioxide (atmosphere crowdedWorld) \<and> 0 \<le> methane (atmosphere crowdedWorld)
   \<and> 0 \<le> waterVapour (atmosphere crowdedWorld)
   \<and> allTiles (\<lambda>x y. nonnegTile) crowdedWorld
   \<and> carbonDioxide (atmosphere (tick (\<lambda>n. 0) crowdedWorld)) < 0"
  using crowdedWorld_carbonDioxide [of "\<lambda>n. 0"]
    wfGrid_crowdedWorld crowdedWorld_nonneg crowdedWorld_nonnegTile
  by blast

subsection \<open>Tiles without a habitable neighbour\<close>

lemma foldl_before_after:
  assumes "distinct cs" "c \<in> set cs" "I s"
    and before: "\<And>s c'. I s \<Longrightarrow> c' \<in> set cs \<Longrightarrow> c' \<noteq> c \<Longrightarrow> I (f s c')"
    and at: "\<And>s. I s \<Longrightarrow> Q (f s c)"
    and after: "\<And>s c'. Q s \<Longrightarrow> c' \<in> set cs \<Longrightarrow> c' \<noteq> c \<Longrightarrow> Q (f s c')"
  shows "Q (foldl f s cs)"
proof -
  obtain pre post where cs: "cs = pre @ c # post"
    using assms(2) by (auto simp: in_set_conv_decomp)
  have npre: "c \<notin> set pre" and npost: "c \<notin> set post"
    using assms(1) by (auto simp: cs)
  have "I (foldl f s pre)"
    by (rule foldl_invariant [where P = I]) (use assms(3) before npre in \<open>auto simp: cs\<close>)
  then have "Q (f (foldl f s pre) c)"
    by (rule at)
  then have "Q (foldl f (f (foldl f s pre) c) post)"
    by (rule foldl_invariant [where P = Q]) (use after npost in \<open>auto simp: cs\<close>)
  then show ?thesis
    by (simp add: cs)
qed

lemma transferPair_id:
  assumes "\<not> canProkaryotesSurvive (getTile s nx ny)"
  shows "transferPair x y nx ny s = s"
  using assms by (simp add: transferPair_def)

lemma transferProkaryotes_notWater:
  assumes "tileCover (getTile s x y) \<noteq> Water"
  shows "transferProkaryotes x y s = s"
  using assms by (simp add: transferProkaryotes_def canProkaryotesSurvive_def)

lemma transferProkaryotes_isolated:
  assumes "tileCover (getTile s ((x + 1) mod worldWidth) y) \<noteq> Water"
    and "y + 1 < worldHeight \<Longrightarrow> tileCover (getTile s x (y + 1)) \<noteq> Water"
    and "y < worldHeight"
  shows "transferProkaryotes x y s = s"
proof -
  have e: "transferPair x y ((x + 1) mod worldWidth) y s = s"
    using assms(1) by (simp add: transferPair_id canProkaryotesSurvive_def)
  have "transferPair x y x (y + 1) s = s" if "y + 1 \<noteq> worldHeight"
    using that assms(2,3) by (simp add: transferPair_id canProkaryotesSurvive_def)
  then show ?thesis
    unfolding transferProkaryotes_def Let_def e by simp
qed

lemma cover_localTile [simp]: "tileCover (localTile r ta htf t) = tileCover t"
  by (simp add: localTile_def)



lemma onlyWaterAt_tickTile [simp]:
  "onlyWaterAt x0 y0 (tickTile rnd ta htf x y s) = onlyWaterAt x0 y0 s"
  by (simp add: onlyWaterAt_def cover_tickTile)

lemma onlyWaterAt_eruptVolcano [simp]:
  "onlyWaterAt x0 y0 (eruptVolcano rnd w) = onlyWaterAt x0 y0 w"
  by (simp add: onlyWaterAt_def cover_eruptVolcano)

lemma onlyWaterAt_decayAtmosphere [simp]:
  "onlyWaterAt x0 y0 (decayAtmosphere w) = onlyWaterAt x0 y0 w"
  by (simp add: onlyWaterAt_def cover_decayAtmosphere)


lemma biomass_heat_cover_pass:
  assumes "wfGrid s" "x < worldWidth" "y < worldHeight"
  shows "biomass (getTile (applyTiles setCover (applyTiles transferHeat s)) x y) = biomass (getTile s x y)"
proof -
  let ?P = "\<lambda>x' y' t. x' = x \<and> y' = y \<longrightarrow> biomass t = biomass (getTile s x y)"
  have "allTiles ?P s" by (simp add: allTiles_def)
  then have "allTiles ?P (applyTiles transferHeat s)"
    using assms(1) by (rule allTiles_heat_pass) simp
  then have "allTiles ?P (applyTiles setCover (applyTiles transferHeat s))"
    by (rule allTiles_cover_pass) (use assms(1) in \<open>simp_all add: wfGrid_applyTiles\<close>)
  then show ?thesis
    using assms(2,3) by (simp add: allTiles_def)
qed

lemma eruptVolcano_tile:
  assumes "wfGrid w" "x < worldWidth" "y < worldHeight"
  shows "\<exists>a. getTile (eruptVolcano rnd w) x y = (getTile w x y)\<lparr>altitude := a\<rparr>"
proof -
  let ?P = "\<lambda>x y t. \<exists>a. t = (getTile w x y)\<lparr>altitude := a\<rparr>"
  have "getTile w x y = (getTile w x y)\<lparr>altitude := altitude (getTile w x y)\<rparr>" for x y
    by simp
  then have "allTiles ?P w" unfolding allTiles_def by blast
  then have "allTiles ?P (eruptVolcano rnd w)"
    using assms(1) by (rule allTiles_eruptVolcano) auto
  then show ?thesis
    using assms(2,3) by (simp add: allTiles_def)
qed





lemma computeTileAtmosphere_eruptVolcano:
  "computeTileAtmosphere (decayAtmosphere (eruptVolcano rnd w)) = computeTileAtmosphere (decayAtmosphere w)"
  by (simp add: computeTileAtmosphere_def atmosphere_decayAtmosphere)


subsection \<open>Abiogenesis followed by \<^verbatim>\<open>applyBiomass\<close>\<close>




subsection \<open>A tick of the seed world\<close>










section \<open>Abiogenesis\<close>




subsection \<open>A tick of the pair world\<close>

lemma scanOrder_first:
  "\<exists>rest. scanOrder = (0, 0) # rest \<and> (0, 0) \<notin> set rest \<and> set rest \<subseteq> set scanOrder"
proof -
  have "[0..<worldWidth] = 0 # [1..<worldWidth]" "[0..<worldHeight] = 0 # [1..<worldHeight]"
    using worldWidth_pos worldHeight_pos by (simp_all add: upt_conv_Cons)
  then obtain rest where r: "scanOrder = (0, 0) # rest"
    by (simp add: scanOrder_def)
  have "(0, 0) \<notin> set rest"
    using distinct_scanOrder unfolding r by simp
  moreover have "set rest \<subseteq> set scanOrder"
    unfolding r by auto
  ultimately show ?thesis
    using r by blast
qed

lemma pairCovers_tickTile [simp]: "pairCovers (tickTile rnd ta htf x y s) = pairCovers s"
  by (simp add: pairCovers_def cover_tickTile)

lemma pairCovers_eruptVolcano [simp]: "pairCovers (eruptVolcano rnd w) = pairCovers w"
  by (simp add: pairCovers_def cover_eruptVolcano)

lemma pairCovers_decayAtmosphere [simp]: "pairCovers (decayAtmosphere w) = pairCovers w"
  by (simp add: pairCovers_def cover_decayAtmosphere)

lemma wfGrid_pairWorld: "wfGrid (pairWorld c)"
  by (simp add: wfGrid_def pairWorld_def list_all_iff)

lemma getTile_pairWorld:
  assumes "x < worldWidth" "y < worldHeight"
  shows "getTile (pairWorld c) x y = (mkTile x y)
                 \<lparr>heat := (if x \<le> 1 \<and> y = 0 then 100 else 50),
                  tileCover := (if x \<le> 1 \<and> y = 0 then Water else Ice),
                  biomass := (if x = 1 \<and> y = 0 then \<lparr>total = 10, prokaryote = 10\<rparr> else mkBiomass)\<rparr>"
  using assms by (simp add: getTile_def pairWorld_def)

lemma pairWorld_covers: "pairCovers (pairWorld c)"
  by (auto simp: pairCovers_def getTile_pairWorld)

lemma pairWorld_tiles:
  "getTile (pairWorld c) 0 0 = \<lparr>altitude = 0, baseLuminosity = 1 / 2, heat = 100, tileCover = Water,
      biomass = \<lparr>total = 0, prokaryote = 0\<rparr>\<rparr>"
  "getTile (pairWorld c) 1 0 = \<lparr>altitude = 0, baseLuminosity = 1 / 2, heat = 100, tileCover = Water,
      biomass = \<lparr>total = 10, prokaryote = 10\<rparr>\<rparr>"
  by (simp_all add: getTile_pairWorld worldWidth_def worldHeight_def mkTile_def Let_def mkBiomass_def
      polarLuminosity_def)

text \<open>The tile at (0, 0) after its own local update: still without life, and habitable.\<close>

lemma pair_localTile_00:
  assumes "0 \<le> htf" "htf \<le> 1"
  shows "biomass (localTile r ta htf (\<lparr>altitude = a, baseLuminosity = 1 / 2, heat = 100,
            tileCover = Water, biomass = \<lparr>total = 0, prokaryote = 0\<rparr>\<rparr>)) = \<lparr>total = 0, prokaryote = 0\<rparr>"
    and "canProkaryotesSurvive (localTile r ta htf (\<lparr>altitude = a, baseLuminosity = 1 / 2, heat = 100,
            tileCover = Water, biomass = \<lparr>total = 0, prokaryote = 0\<rparr>\<rparr>))"
proof -
  let ?t = "\<lparr>altitude = a, baseLuminosity = 1 / 2, heat = 100,
            tileCover = Water, biomass = \<lparr>total = 0, prokaryote = 0\<rparr>\<rparr>"
  have h: "heat (heatedTile htf ?t) = 86 + 6 * htf"
    by (simp add: heatedTile_def Let_def computeHeat_def computeLuminosity_def fullLuminosityHeat_def
        waterReflectivity_def algebra_simps)
  have "\<not> abiogenesisTest (heatedTile htf ?t)"
    using assms by (simp add: abiogenesisTest_def h prokaryoteAbiogenesisMinHeat_def)
  then have s: "seededTile r (heatedTile htf ?t) = heatedTile htf ?t"
    by (simp add: seededTile_def)
  have b: "biomass (heatedTile htf ?t) = \<lparr>total = 0, prokaryote = 0\<rparr>"
    "baseLuminosity (heatedTile htf ?t) = 1 / 2" "tileCover (heatedTile htf ?t) = Water"
    by (simp_all add: heatedTile_def Let_def)
  show "biomass (localTile r ta htf ?t) = \<lparr>total = 0, prokaryote = 0\<rparr>"
    unfolding localTile_def s grownTile_def Let_def
    by (simp add: b fullLuminosityHeat_def photosynthticBiomassPerEnergy_def)
  have "heat (localTile r ta htf ?t) = 86 + 6 * htf"
    unfolding localTile_def s grownTile_def Let_def by (simp add: h)
  then show "canProkaryotesSurvive (localTile r ta htf ?t)"
    using assms by (simp add: canProkaryotesSurvive_def unlivableTemperature_def)
qed

lemma pair_bounds: "0 < worldWidth" "1 < worldWidth" "2 < worldWidth" "0 < worldHeight" "1 < worldHeight"
  "(0 + 1) mod worldWidth = 1" "(1 + 1) mod worldWidth = 2"
  by (simp_all add: worldWidth_def worldHeight_def)

lemma pair_transfer_00:
  assumes wf: "wfGrid s" and pc: "pairCovers s"
    and s0: "canProkaryotesSurvive (getTile s 0 0)" and s1: "canProkaryotesSurvive (getTile s 1 0)"
    and p0: "prokaryote (biomass (getTile s 0 0)) = 0"
    and p1: "prokaryote (biomass (getTile s 1 0)) = p" and p: "2 < p"
  shows "getTile (transferProkaryotes 0 0 s) x' y' =
           (if (x' = 0 \<or> x' = 1) \<and> y' = 0 then setProkaryote (p / 2) (getTile s x' y')
            else getTile s x' y')"
proof -
  let ?s1 = "transferPair 0 0 1 0 s"
  have ne: "(1 :: nat) \<noteq> 0 \<or> (0 :: nat) \<noteq> 0" by simp
  have e: "getTile ?s1 x' y' =
           (if (x' = 0 \<or> x' = 1) \<and> y' = 0 then setProkaryote (p / 2) (getTile s x' y')
            else getTile s x' y')" for x' y'
    unfolding transferPair_tile [OF wf pair_bounds(1,4,2,4) ne] Let_def
    using s1 p0 p1 p by auto
  have "tileCover (getTile s 0 1) \<noteq> Water"
    using pc pair_bounds by (simp add: pairCovers_def)
  then have "\<not> canProkaryotesSurvive (getTile ?s1 0 1)"
    unfolding e by (simp add: canProkaryotesSurvive_def)
  then have "transferPair 0 0 0 (0 + 1) ?s1 = ?s1"
    by (simp add: transferPair_id)
  then have tp: "transferProkaryotes 0 0 s = ?s1"
    using s0 pair_bounds by (simp add: transferProkaryotes_def Let_def)
  show ?thesis
    unfolding tp by (rule e)
qed

lemma pair_transfer_other:
  assumes wf: "wfGrid s" and pc: "pairCovers s"
    and b: "x < worldWidth" "y < worldHeight" "x \<noteq> 0 \<or> y \<noteq> 0"
  shows "transferProkaryotes x y s = s"
proof (cases "x = 1 \<and> y = 0")
  case True
  have "tileCover (getTile s ((1 + 1) mod worldWidth) 0) \<noteq> Water"
    "tileCover (getTile s 1 (0 + 1)) \<noteq> Water"
    using pc by (simp_all add: pairCovers_def worldWidth_def worldHeight_def)
  then have "transferProkaryotes 1 0 s = s"
    using pair_bounds(4) by (intro transferProkaryotes_isolated)
  then show ?thesis
    using True by simp
next
  case False
  then have "\<not> (x \<le> 1 \<and> y = 0)"
    using b(3) by arith
  then have "tileCover (getTile s x y) \<noteq> Water"
    using pc b(1,2) unfolding pairCovers_def by blast
  then show ?thesis
    by (rule transferProkaryotes_notWater)
qed

lemma cover_tickTileLocal:
  "tileCover (getTile (tickTileLocal rnd ta htf x' y' w) x y) = tileCover (getTile w x y)"
  by (simp add: tickTileLocal_def Let_def cover_applyBiomass cover_abiogenesis cover_updTile)

lemma pairCovers_tickTileLocal [simp]: "pairCovers (tickTileLocal rnd ta htf x y s) = pairCovers s"
  by (simp add: pairCovers_def cover_tickTileLocal)

lemma pair_tickTile_other:
  assumes wf: "wfGrid s" and pc: "pairCovers s"
    and b: "x < worldWidth" "y < worldHeight" "x \<noteq> 0 \<or> y \<noteq> 0"
  shows "getTile (tickTile rnd ta htf x y s) 0 0 = getTile s 0 0"
proof -
  have "transferProkaryotes x y (tickTileLocal rnd ta htf x y s) = tickTileLocal rnd ta htf x y s"
    using wf pc b by (simp add: pair_transfer_other)
  then show ?thesis
    using b by (auto simp: tickTile_split tickTileLocal_tile [OF wf b(1,2)])
qed

lemma pair_localPass_00:
  assumes wf: "wfGrid w" and pc: "pairCovers w"
    and t00: "getTile w 0 0 = \<lparr>altitude = a, baseLuminosity = 1 / 2, heat = 100,
            tileCover = Water, biomass = \<lparr>total = 0, prokaryote = 0\<rparr>\<rparr>"
    and t10: "tileCover (getTile w 1 0) = Water" "heat (getTile w 1 0) = 100"
       "prokaryote (biomass (getTile w 1 0)) = 10"
    and htf: "0 \<le> computeHeatTrappingFactor (computeTileAtmosphere w)"
       "computeHeatTrappingFactor (computeTileAtmosphere w) \<le> 1"
  shows "biomass (getTile (localPass rnd w) 0 0) = \<lparr>total = 0, prokaryote = 5\<rparr>"
proof -
  let ?ta = "computeTileAtmosphere w"
  let ?htf = "computeHeatTrappingFactor ?ta"
  let ?f = "\<lambda>s (x, y). tickTile rnd ?ta ?htf x y s"
  let ?sL = "tickTileLocal rnd ?ta ?htf 0 0 w"
  let ?Q = "\<lambda>s. wfGrid s \<and> pairCovers s \<and> biomass (getTile s 0 0) = \<lparr>total = 0, prokaryote = 5\<rparr>"
  obtain rest where rest: "scanOrder = (0, 0) # rest" "(0, 0) \<notin> set rest"
    "set rest \<subseteq> set scanOrder"
    using scanOrder_first by blast
  have L: "getTile ?sL x' y' = (if x' = 0 \<and> y' = 0 then localTile (rnd (randomCalls w)) ?ta ?htf (getTile w 0 0)
            else getTile w x' y')" for x' y'
    by (rule tickTileLocal_tile [OF wf pair_bounds(1,4)])
  have "getTile (tickTile rnd ?ta ?htf 0 0 w) 0 0
        = setProkaryote (10 / 2) (localTile (rnd (randomCalls w)) ?ta ?htf (getTile w 0 0))"
    unfolding tickTile_split
    by (subst pair_transfer_00 [where p = 10])
       (use wf pc t10 pair_localTile_00 [OF htf] in
         \<open>simp_all add: L t00 canProkaryotesSurvive_def unlivableTemperature_def\<close>)
  then have "biomass (getTile (tickTile rnd ?ta ?htf 0 0 w) 0 0) = \<lparr>total = 0, prokaryote = 5\<rparr>"
    using pair_localTile_00(1) [OF htf] by (simp add: t00 setProkaryote_def)
  then have "?Q (?f w (0, 0))"
    using wf pc by simp
  then have "?Q (foldl ?f (?f w (0, 0)) rest)"
  proof (rule foldl_invariant [where P = ?Q])
    fix c s assume c: "c \<in> set rest" and q: "?Q s"
    obtain x y where xy: "c = (x, y)" by (cases c)
    have "c \<noteq> (0, 0)" using c rest(2) by auto
    then have b: "x < worldWidth" "y < worldHeight" "x \<noteq> 0 \<or> y \<noteq> 0"
      using c rest(3) by (auto simp: xy set_scanOrder)
    show "?Q (?f s c)"
      using q pair_tickTile_other [OF _ _ b, of s rnd ?ta ?htf] by (simp add: xy)
  qed
  then show ?thesis
    using wf by (simp add: localPass_def Let_def applyTiles_scanOrder rest(1))
qed

lemma pairWorld_trapping:
  assumes "0 \<le> c" "c \<le> 10000"
  shows "computeHeatTrappingFactor (computeTileAtmosphere (decayAtmosphere (pairWorld c)))
           = c * (198 / 10000000)"
    and "carbonDioxide (computeTileAtmosphere (decayAtmosphere (pairWorld c))) = c * (99 / 1000000)"
  by (simp_all add: computeTileAtmosphere_def computeHeatTrappingFactor_def atmosphere_decayAtmosphere
      pairWorld_def mkAtmosphere_def atmosphereLossRate_def atmospherePerTile_def
      worldWidth_def worldHeight_def carbonHeatRetention_def waterVaporHeatRetention_def)

lemma pairWorld_erupted:
  "wfGrid (decayAtmosphere (eruptVolcano rnd (pairWorld c)))"
  "pairCovers (decayAtmosphere (eruptVolcano rnd (pairWorld c)))"
  "\<exists>a. getTile (decayAtmosphere (eruptVolcano rnd (pairWorld c))) 0 0
        = \<lparr>altitude = a, baseLuminosity = 1 / 2, heat = 100,
            tileCover = Water, biomass = \<lparr>total = 0, prokaryote = 0\<rparr>\<rparr>"
  "\<exists>a. getTile (decayAtmosphere (eruptVolcano rnd (pairWorld c))) 1 0
        = \<lparr>altitude = a, baseLuminosity = 1 / 2, heat = 100,
            tileCover = Water, biomass = \<lparr>total = 10, prokaryote = 10\<rparr>\<rparr>"
proof -
  let ?w2 = "decayAtmosphere (eruptVolcano rnd (pairWorld c))"
  show "wfGrid ?w2" "pairCovers ?w2"
    by (simp_all add: wfGrid_pairWorld pairWorld_covers)
  have g: "getTile ?w2 x y = getTile (eruptVolcano rnd (pairWorld c)) x y" for x y
    by (simp add: getTile_def)
  show "\<exists>a. getTile ?w2 0 0 = \<lparr>altitude = a, baseLuminosity = 1 / 2, heat = 100,
            tileCover = Water, biomass = \<lparr>total = 0, prokaryote = 0\<rparr>\<rparr>"
    using eruptVolcano_tile [OF wfGrid_pairWorld pair_bounds(1,4), of rnd c]
    by (simp add: g pairWorld_tiles)
  show "\<exists>a. getTile ?w2 1 0 = \<lparr>altitude = a, baseLuminosity = 1 / 2, heat = 100,
            tileCover = Water, biomass = \<lparr>total = 10, prokaryote = 10\<rparr>\<rparr>"
  proof -
    obtain a where "getTile (eruptVolcano rnd (pairWorld c)) 1 0
        = (getTile (pairWorld c) 1 0)\<lparr>altitude := a\<rparr>"
      using eruptVolcano_tile [OF wfGrid_pairWorld pair_bounds(2,4), of rnd c] by blast
    then have "getTile ?w2 1 0 = \<lparr>altitude = a, baseLuminosity = 1 / 2, heat = 100,
            tileCover = Water, biomass = \<lparr>total = 10, prokaryote = 10\<rparr>\<rparr>"
      unfolding g pairWorld_tiles by simp
    then show ?thesis by blast
  qed
qed

lemma pairWorld_tick_00:
  assumes "0 \<le> c" "c \<le> 10000"
  shows "biomass (getTile (tick rnd (pairWorld c)) 0 0) = \<lparr>total = 0, prokaryote = 5\<rparr>"
proof -
  let ?w2 = "decayAtmosphere (eruptVolcano rnd (pairWorld c))"
  note e = pairWorld_erupted [of rnd c]
  obtain a where a: "getTile ?w2 0 0 = \<lparr>altitude = a, baseLuminosity = 1 / 2, heat = 100,
            tileCover = Water, biomass = \<lparr>total = 0, prokaryote = 0\<rparr>\<rparr>"
    using e(3) by blast
  obtain a' where a': "getTile ?w2 1 0 = \<lparr>altitude = a', baseLuminosity = 1 / 2, heat = 100,
            tileCover = Water, biomass = \<lparr>total = 10, prokaryote = 10\<rparr>\<rparr>"
    using e(4) by blast
  have htf: "0 \<le> computeHeatTrappingFactor (computeTileAtmosphere ?w2)"
    "computeHeatTrappingFactor (computeTileAtmosphere ?w2) \<le> 1"
    using assms
    by (simp_all add: computeTileAtmosphere_eruptVolcano pairWorld_trapping(1) [OF assms])
  have "biomass (getTile (localPass rnd ?w2) 0 0) = \<lparr>total = 0, prokaryote = 5\<rparr>"
    by (rule pair_localPass_00 [OF e(1,2) a _ _ _ htf]) (use a' in simp_all)
  then show ?thesis
    using e(1) pair_bounds
    by (simp add: tick_def Let_def biomass_heat_cover_pass wfGrid_localPass)
qed

subsection \<open>The pair world under the two-pass order\<close>

lemma specLocalPass_tile:
  assumes wf: "wfGrid w" and x: "x < worldWidth" and y: "y < worldHeight"
  shows "\<exists>k. getTile (specLocalPass rnd w) x y
           = localTile (rnd k) (computeTileAtmosphere w)
               (computeHeatTrappingFactor (computeTileAtmosphere w)) (getTile w x y)"
proof -
  let ?ta = "computeTileAtmosphere w"
  let ?htf = "computeHeatTrappingFactor ?ta"
  let ?f = "\<lambda>s (x, y). tickTileLocal rnd ?ta ?htf x y s"
  let ?I = "\<lambda>s. wfGrid s \<and> getTile s x y = getTile w x y"
  let ?Q = "\<lambda>s. wfGrid s \<and> (\<exists>k. getTile s x y = localTile (rnd k) ?ta ?htf (getTile w x y))"
  have other: "getTile (?f s c') x y = getTile s x y"
    if "wfGrid s" "c' \<in> set scanOrder" "c' \<noteq> (x, y)" for s c'
    using that by (cases c') (auto simp: set_scanOrder tickTileLocal_tile)
  have "?Q (foldl ?f w scanOrder)"
  proof (rule foldl_before_after [where c = "(x, y)" and I = ?I])
    show "distinct scanOrder" by (rule distinct_scanOrder)
    show "(x, y) \<in> set scanOrder" using x y by (simp add: set_scanOrder)
    show "?I w" using wf by simp
    show "?I (?f s c')" if "?I s" "c' \<in> set scanOrder" "c' \<noteq> (x, y)" for s c'
      using that other [of s c'] by (cases c') auto
    show "?Q (?f s c')" if "?Q s" "c' \<in> set scanOrder" "c' \<noteq> (x, y)" for s c'
      using that other [of s c'] by (cases c') auto
    show "?Q (?f s (x, y))" if "?I s" for s
      using that x y by (auto simp: tickTileLocal_tile)
  qed
  then show ?thesis
    using wf by (simp add: specLocalPass_def Let_def applyTiles_scanOrder)
qed

lemma wfGrid_specLocalPass: "wfGrid w \<Longrightarrow> wfGrid (specLocalPass rnd w)"
  by (simp add: specLocalPass_def Let_def wfGrid_applyTiles)

lemma cover_specLocalPass:
  "wfGrid w \<Longrightarrow> tileCover (getTile (specLocalPass rnd w) x y) = tileCover (getTile w x y)"
  by (simp add: specLocalPass_def Let_def cover_applyTiles cover_tickTileLocal)

lemma pairCovers_specLocalPass: "wfGrid w \<Longrightarrow> pairCovers (specLocalPass rnd w) = pairCovers w"
  by (simp add: pairCovers_def cover_specLocalPass)

lemma pair_localTile_10:
  assumes "0 \<le> htf" "htf \<le> 1" "carbonDioxide ta = 99 / 100"
  shows "biomass (localTile r ta htf (\<lparr>altitude = a, baseLuminosity = 1 / 2, heat = 100,
            tileCover = Water, biomass = \<lparr>total = 10, prokaryote = 10\<rparr>\<rparr>))
         = \<lparr>total = 20099 / 2000, prokaryote = 20099 / 2000\<rparr>"
    and "canProkaryotesSurvive (localTile r ta htf (\<lparr>altitude = a, baseLuminosity = 1 / 2, heat = 100,
            tileCover = Water, biomass = \<lparr>total = 10, prokaryote = 10\<rparr>\<rparr>))"
proof -
  let ?t = "\<lparr>altitude = a, baseLuminosity = 1 / 2, heat = 100,
            tileCover = Water, biomass = \<lparr>total = 10, prokaryote = 10\<rparr>\<rparr>"
  have h: "heat (heatedTile htf ?t) = 86 + 6 * htf"
    by (simp add: heatedTile_def Let_def computeHeat_def computeLuminosity_def fullLuminosityHeat_def
        waterReflectivity_def algebra_simps)
  have "\<not> abiogenesisTest (heatedTile htf ?t)"
    by (simp add: abiogenesisTest_def heatedTile_def Let_def)
  then have s: "seededTile r (heatedTile htf ?t) = heatedTile htf ?t"
    by (simp add: seededTile_def)
  have b: "biomass (heatedTile htf ?t) = \<lparr>total = 10, prokaryote = 10\<rparr>"
    "baseLuminosity (heatedTile htf ?t) = 1 / 2" "tileCover (heatedTile htf ?t) = Water"
    by (simp_all add: heatedTile_def Let_def)
  have alive: "\<not> heat (heatedTile htf ?t) > unlivableTemperature"
    using assms by (simp add: h unlivableTemperature_def)
  show "biomass (localTile r ta htf ?t) = \<lparr>total = 20099 / 2000, prokaryote = 20099 / 2000\<rparr>"
    unfolding localTile_def s grownTile_def Let_def
    using alive
    by (simp add: b assms(3) fullLuminosityHeat_def photosynthticBiomassPerEnergy_def
        prokaryoteReproductionRate_def)
  have "heat (localTile r ta htf ?t) = 86 + 6 * htf"
    unfolding localTile_def s grownTile_def Let_def by (simp add: h)
  then show "canProkaryotesSurvive (localTile r ta htf ?t)"
    using assms by (simp add: canProkaryotesSurvive_def unlivableTemperature_def)
qed

lemma pairCovers_transferProkaryotes [simp]:
  "pairCovers (transferProkaryotes x y s) = pairCovers s"
  by (simp add: pairCovers_def cover_transferProkaryotes)

lemma pair_diffusion_pass:
  assumes wf: "wfGrid s" and pc: "pairCovers s"
    and s0: "canProkaryotesSurvive (getTile s 0 0)" and s1: "canProkaryotesSurvive (getTile s 1 0)"
    and p0: "prokaryote (biomass (getTile s 0 0)) = 0"
    and p1: "prokaryote (biomass (getTile s 1 0)) = p" and p: "2 < p"
  shows "applyTiles transferProkaryotes s = transferProkaryotes 0 0 s"
proof -
  let ?f = "\<lambda>s (x, y). transferProkaryotes x y s"
  let ?s1 = "transferProkaryotes 0 0 s"
  obtain rest where rest: "scanOrder = (0, 0) # rest" "(0, 0) \<notin> set rest"
    "set rest \<subseteq> set scanOrder"
    using scanOrder_first by blast
  have 1: "wfGrid ?s1" "pairCovers ?s1"
    using wf pc by simp_all
  have "(\<lambda>t. t = ?s1) (foldl ?f ?s1 rest)"
  proof (rule foldl_invariant)
    fix c t assume c: "c \<in> set rest" and t: "t = ?s1"
    obtain x y where xy: "c = (x, y)" by (cases c)
    have "c \<noteq> (0, 0)" using c rest(2) by auto
    then have b: "x < worldWidth" "y < worldHeight" "x \<noteq> 0 \<or> y \<noteq> 0"
      using c rest(3) by (auto simp: xy set_scanOrder)
    show "?f t c = ?s1"
      using pair_transfer_other [OF 1 b] by (simp add: xy t)
  qed simp
  then show ?thesis
    using wf by (simp add: applyTiles_scanOrder rest(1))
qed

lemma pairWorld_specTick_00:
  "biomass (getTile (specTick rnd (pairWorld 10000)) 0 0) = \<lparr>total = 0, prokaryote = 20099 / 4000\<rparr>"
proof -
  let ?w2 = "decayAtmosphere (eruptVolcano rnd (pairWorld 10000))"
  let ?w3 = "specLocalPass rnd ?w2"
  let ?ta = "computeTileAtmosphere ?w2"
  let ?htf = "computeHeatTrappingFactor ?ta"
  note e = pairWorld_erupted [of rnd 10000]
  obtain a where a: "getTile ?w2 0 0 = \<lparr>altitude = a, baseLuminosity = 1 / 2, heat = 100,
            tileCover = Water, biomass = \<lparr>total = 0, prokaryote = 0\<rparr>\<rparr>"
    using e(3) by blast
  obtain a' where a': "getTile ?w2 1 0 = \<lparr>altitude = a', baseLuminosity = 1 / 2, heat = 100,
            tileCover = Water, biomass = \<lparr>total = 10, prokaryote = 10\<rparr>\<rparr>"
    using e(4) by blast
  have htf: "0 \<le> ?htf" "?htf \<le> 1" and share: "carbonDioxide ?ta = 99 / 100"
    using pairWorld_trapping [of 10000]
    by (simp_all add: computeTileAtmosphere_eruptVolcano)
  have wf3: "wfGrid ?w3" using e(1) by (rule wfGrid_specLocalPass)
  have pc3: "pairCovers ?w3" using e(1,2) by (simp add: pairCovers_specLocalPass)
  obtain k where k: "getTile ?w3 0 0 = localTile (rnd k) ?ta ?htf (getTile ?w2 0 0)"
    using specLocalPass_tile [OF e(1) pair_bounds(1,4), of rnd] by blast
  obtain k' where k': "getTile ?w3 1 0 = localTile (rnd k') ?ta ?htf (getTile ?w2 1 0)"
    using specLocalPass_tile [OF e(1) pair_bounds(2,4), of rnd] by blast
  have t0: "canProkaryotesSurvive (getTile ?w3 0 0)" "biomass (getTile ?w3 0 0) = \<lparr>total = 0, prokaryote = 0\<rparr>"
    unfolding k a using pair_localTile_00 [OF htf] by simp_all
  have t1: "canProkaryotesSurvive (getTile ?w3 1 0)"
    "prokaryote (biomass (getTile ?w3 1 0)) = 20099 / 2000"
    unfolding k' a' using pair_localTile_10 [OF htf share] by simp_all
  have p0: "prokaryote (biomass (getTile ?w3 0 0)) = 0"
    using t0(2) by simp
  have big: "(2 :: real) < 20099 / 2000" by simp
  have d: "applyTiles transferProkaryotes ?w3 = transferProkaryotes 0 0 ?w3"
    using wf3 pc3 t0(1) t1(1) p0 t1(2) big by (rule pair_diffusion_pass)
  have "getTile (transferProkaryotes 0 0 ?w3) 0 0 = setProkaryote ((20099 / 2000) / 2) (getTile ?w3 0 0)"
    unfolding pair_transfer_00 [OF wf3 pc3 t0(1) t1(1) p0 t1(2) big] by simp
  then have "biomass (getTile (applyTiles transferProkaryotes ?w3) 0 0)
      = \<lparr>total = 0, prokaryote = 20099 / 4000\<rparr>"
    unfolding d using t0(2) by (simp add: setProkaryote_def)
  moreover have "wfGrid (applyTiles transferProkaryotes ?w3)"
    using wf3 by (simp add: wfGrid_applyTiles)
  ultimately show ?thesis
    using pair_bounds by (simp add: specTick_def Let_def biomass_heat_cover_pass)
qed

section \<open>Population diffusion\<close>

lemma localPass_interleaved:
  assumes "wfGrid w"
  shows "localPass rnd w =
     foldl (\<lambda>s (x, y). transferProkaryotes x y
               (tickTileLocal rnd (computeTileAtmosphere w)
                  (computeHeatTrappingFactor (computeTileAtmosphere w)) x y s))
       w scanOrder"
proof -
  have "(\<lambda>s (x, y). tickTile rnd ta htf x y s)
        = (\<lambda>s (x, y). transferProkaryotes x y (tickTileLocal rnd ta htf x y s))" for ta htf
    by (simp add: tickTile_split)
  then show ?thesis
    using assms by (simp add: localPass_def Let_def applyTiles_scanOrder)
qed

lemma transferProkaryotes_cases:
  assumes "y < worldHeight"
  shows "transferProkaryotes x y s =
     (if canProkaryotesSurvive (getTile s x y)
      then (if y + 1 < worldHeight
            then transferPair x y x (y + 1) (transferPair x y ((x + 1) mod worldWidth) y s)
            else transferPair x y ((x + 1) mod worldWidth) y s)
      else s)"
proof -
  have "y + 1 \<noteq> worldHeight \<longleftrightarrow> y + 1 < worldHeight"
    using assms by auto
  then show ?thesis
    by (simp add: transferProkaryotes_def Let_def)
qed

text \<open>
  Claim C2, as amended. The population diffusion of a tile is the last statement of the
  callback of the first pass: it runs right after the local update of that tile and before
  the local update of the tiles visited later, not in a pass of its own. A tile whose heat is
  below \<open>unlivableTemperature\<close> and whose cover is Water exchanges with its east neighbour
  \<open>((x+1) mod W, y)\<close> and then, if \<open>y + 1 < H\<close>, with its south neighbour \<open>(x, y+1)\<close>; an exchange
  takes place exactly when the neighbour too has a heat below \<open>unlivableTemperature\<close> and
  the cover Water, and one of the two populations exceeds 2 (the share of carbon dioxide
  is not looked at); it sets \<open>prokaryote\<close> of both tiles to the average of the two, at once,
  and changes nothing else.
\<close>

theorem population_diffusion_interleaved:
  assumes "wfGrid w" "wfGrid s" "x < worldWidth" "y < worldHeight"
    and "nx < worldWidth" "ny < worldHeight" "nx \<noteq> x \<or> ny \<noteq> y"
  shows "localPass rnd w =
           foldl (\<lambda>s (x, y). transferProkaryotes x y
                     (tickTileLocal rnd (computeTileAtmosphere w)
                        (computeHeatTrappingFactor (computeTileAtmosphere w)) x y s))
             w scanOrder
         \<and> transferProkaryotes x y s =
             (if canProkaryotesSurvive (getTile s x y)
              then (if y + 1 < worldHeight
                    then transferPair x y x (y + 1) (transferPair x y ((x + 1) mod worldWidth) y s)
                    else transferPair x y ((x + 1) mod worldWidth) y s)
              else s)
         \<and> (\<forall>x' y'. getTile (transferPair x y nx ny s) x' y' =
               (let avePop = (prokaryote (biomass (getTile s x y))
                              + prokaryote (biomass (getTile s nx ny))) / 2
                in if canProkaryotesSurvive (getTile s nx ny) \<and>
                      (prokaryote (biomass (getTile s x y)) > 2
                       \<or> prokaryote (biomass (getTile s nx ny)) > 2)
                      \<and> ((x' = x \<and> y' = y) \<or> (x' = nx \<and> y' = ny))
                   then (getTile s x' y')\<lparr>biomass := (biomass (getTile s x' y'))\<lparr>prokaryote := avePop\<rparr>\<rparr>
                   else getTile s x' y'))
         \<and> (\<forall>t. canProkaryotesSurvive t \<longleftrightarrow> heat t < unlivableTemperature \<and> tileCover t = Water)"
proof -
  note a = localPass_interleaved [OF assms(1), of rnd]
  note b = transferProkaryotes_cases [OF assms(4), of x s]
  note c = transferPair_tile [OF assms(2-7), unfolded setProkaryote_def]
  have d: "\<forall>t. canProkaryotesSurvive t \<longleftrightarrow> heat t < unlivableTemperature \<and> tileCover t = Water"
    by (simp add: canProkaryotesSurvive_def)
  show ?thesis
    using a b c d by blast
qed

theorem population_diffusion_interleaved_witness:
  "wfGrid (pairWorld 10000) \<and> 0 < worldWidth \<and> 0 < worldHeight \<and> 1 < worldWidth
   \<and> (1 :: nat) \<noteq> 0
   \<and> prokaryote (biomass (getTile (transferPair 0 0 1 0 (pairWorld 10000)) 0 0)) = 5
   \<and> prokaryote (biomass (getTile (transferPair 0 0 1 0 (pairWorld 10000)) 1 0)) = 5
   \<and> total (biomass (getTile (transferPair 0 0 1 0 (pairWorld 10000)) 1 0)) = 10"
proof -
  have ne: "(1 :: nat) \<noteq> 0 \<or> (0 :: nat) \<noteq> 0" by simp
  note h = wfGrid_pairWorld [of 10000] wfGrid_pairWorld [of 10000] pair_bounds(1,4,2,4) ne
  have "\<forall>x' y'. getTile (transferPair 0 0 1 0 (pairWorld 10000)) x' y' =
               (let avePop = (prokaryote (biomass (getTile (pairWorld 10000) 0 0))
                              + prokaryote (biomass (getTile (pairWorld 10000) 1 0))) / 2
                in if canProkaryotesSurvive (getTile (pairWorld 10000) 1 0) \<and>
                      (prokaryote (biomass (getTile (pairWorld 10000) 0 0)) > 2
                       \<or> prokaryote (biomass (getTile (pairWorld 10000) 1 0)) > 2)
                      \<and> ((x' = 0 \<and> y' = 0) \<or> (x' = 1 \<and> y' = 0))
                   then (getTile (pairWorld 10000) x' y')
                          \<lparr>biomass := (biomass (getTile (pairWorld 10000) x' y'))\<lparr>prokaryote := avePop\<rparr>\<rparr>
                   else getTile (pairWorld 10000) x' y')"
    using population_diffusion_interleaved [OF h, of "\<lambda>n. 0"] by blast
  then have t: "getTile (transferPair 0 0 1 0 (pairWorld 10000)) x' y' =
               (let avePop = (prokaryote (biomass (getTile (pairWorld 10000) 0 0))
                              + prokaryote (biomass (getTile (pairWorld 10000) 1 0))) / 2
                in if canProkaryotesSurvive (getTile (pairWorld 10000) 1 0) \<and>
                      (prokaryote (biomass (getTile (pairWorld 10000) 0 0)) > 2
                       \<or> prokaryote (biomass (getTile (pairWorld 10000) 1 0)) > 2)
                      \<and> ((x' = 0 \<and> y' = 0) \<or> (x' = 1 \<and> y' = 0))
                   then (getTile (pairWorld 10000) x' y')
                          \<lparr>biomass := (biomass (getTile (pairWorld 10000) x' y'))\<lparr>prokaryote := avePop\<rparr>\<rparr>
                   else getTile (pairWorld 10000) x' y')" for x' y'
    by blast
  show ?thesis
    unfolding t pairWorld_tiles canProkaryotesSurvive_def Let_def
    using h by (simp add: unlivableTemperature_def)
qed

text \<open>
  The claim as stated fails. With 10000 units of carbon dioxide, the tile at (0, 0) of the
  pair world ends the tick with a population of 5: it exchanged with its east neighbour
  when that tile still had its population of 10 from before the tick. Under the order the
  claim words, the neighbour would have grown to 20099/2000 first, and the tile would
  end with 20099/4000. And with no carbon dioxide at all, when the habitability check of
  \<^verbatim>\<open>applyBiomass\<close> fails for every tile, the exchange still takes place.
\<close>

theorem population_diffusion_not_a_later_pass:
  "prokaryote (biomass (getTile (tick (\<lambda>n. 0) (pairWorld 10000)) 0 0)) = 5
   \<and> prokaryote (biomass (getTile (specTick (\<lambda>n. 0) (pairWorld 10000)) 0 0)) = 20099 / 4000
   \<and> tick (\<lambda>n. 0) (pairWorld 10000) \<noteq> specTick (\<lambda>n. 0) (pairWorld 10000)
   \<and> carbonDioxide (computeTileAtmosphere (decayAtmosphere (pairWorld 0))) = 0
   \<and> prokaryote (biomass (getTile (pairWorld 0) 0 0)) = 0
   \<and> prokaryote (biomass (getTile (tick (\<lambda>n. 0) (pairWorld 0)) 0 0)) = 5"
proof -
  have 1: "prokaryote (biomass (getTile (tick (\<lambda>n. 0) (pairWorld 10000)) 0 0)) = 5"
    by (simp add: pairWorld_tick_00)
  have 2: "prokaryote (biomass (getTile (specTick (\<lambda>n. 0) (pairWorld 10000)) 0 0)) = 20099 / 4000"
    by (simp add: pairWorld_specTick_00)
  have 3: "tick (\<lambda>n. 0) (pairWorld 10000) \<noteq> specTick (\<lambda>n. 0) (pairWorld 10000)"
    using 1 2 by auto
  have 4: "carbonDioxide (computeTileAtmosphere (decayAtmosphere (pairWorld 0))) = 0"
    using pairWorld_trapping(2) [of 0] by simp
  have 5: "prokaryote (biomass (getTile (pairWorld 0) 0 0)) = 0"
    by (simp add: pairWorld_tiles)
  have 6: "prokaryote (biomass (getTile (tick (\<lambda>n. 0) (pairWorld 0)) 0 0)) = 5"
    by (simp add: pairWorld_tick_00)
  show ?thesis
    using 1 2 3 4 5 6 by blast
qed

section \<open>Total and population of a tile\<close>

text \<open>
  Claim C6 does not hold of the code. \<^verbatim>\<open>transferProkaryotes\<close> assigns \<open>prokaryote\<close> alone,
  while the habitability check, the abiogenesis step and the growth step assign \<open>total\<close>
  together with it. In the pair world every tile has \<open>total = prokaryote\<close> before the tick
  and the tile at (0, 0) has \<open>total = 0\<close> and \<open>prokaryote = 5\<close> after it.
\<close>

theorem tick_total_differs_from_prokaryote:
  "total (biomass (getTile (pairWorld 10000) 0 0)) = prokaryote (biomass (getTile (pairWorld 10000) 0 0))
   \<and> total (biomass (getTile (pairWorld 10000) 1 0)) = prokaryote (biomass (getTile (pairWorld 10000) 1 0))
   \<and> biomass (getTile (tick (\<lambda>n. 0) (pairWorld 10000)) 0 0) = \<lparr>total = 0, prokaryote = 5\<rparr>
   \<and> total (biomass (getTile (tick (\<lambda>n. 0) (pairWorld 10000)) 0 0))
       < prokaryote (biomass (getTile (tick (\<lambda>n. 0) (pairWorld 10000)) 0 0))"
proof -
  have "biomass (getTile (tick (\<lambda>n. 0) (pairWorld 10000)) 0 0) = \<lparr>total = 0, prokaryote = 5\<rparr>"
    by (rule pairWorld_tick_00) simp_all
  then show ?thesis
    unfolding pairWorld_tiles by simp
qed

lemma pairWorld_total_eq_prokaryote:
  "allTiles (\<lambda>x y t. total (biomass t) = prokaryote (biomass t)) (pairWorld c)"
  by (simp add: allTiles_def getTile_pairWorld mkTile_def Let_def mkBiomass_def)

subsection \<open>The eruption, tile by tile\<close>

lemma spreadUpthrust_length:
  "length (spreadUpthrust u) = volcanoDiameter"
  "i < volcanoDiameter \<Longrightarrow> length (spreadUpthrust u ! i) = volcanoDiameter"
  by (simp_all add: spreadUpthrust_def)

lemma spreadUpthrust_nth:
  assumes "i < volcanoDiameter" "j < volcanoDiameter"
  shows "spreadUpthrust u ! i ! j = contribution u i j"
  using assms by (simp add: spreadUpthrust_def contribution_def Let_def)

lemma eruptAt_offsets:
  "eruptAt bx by u w =
     foldl (\<lambda>s (i, j). eruptTile bx by (contribution u i j) i j s) w
       (List.product [0..<volcanoDiameter] [0..<volcanoDiameter])"
proof -
  have inner: "foldl (\<lambda>wb j. eruptTile bx by (spreadUpthrust u ! i ! j) i j wb) wa
                 [0..<length (spreadUpthrust u ! i)]
             = foldl (\<lambda>wb j. eruptTile bx by (contribution u i j) i j wb) wa [0..<volcanoDiameter]"
    if "i < volcanoDiameter" for i wa
    using that by (intro foldl_cong) (simp_all add: spreadUpthrust_length spreadUpthrust_nth)
  have "eruptAt bx by u w =
      foldl (\<lambda>wa i. foldl (\<lambda>wb j. eruptTile bx by (contribution u i j) i j wb) wa [0..<volcanoDiameter])
        w [0..<volcanoDiameter]"
    unfolding eruptAt_def spreadUpthrust_length(1)
    by (rule foldl_cong) (simp_all add: inner)
  then show ?thesis
    by (simp add: foldl_product)
qed

lemma eruptTile_tile:
  assumes "wfGrid s" "x < worldWidth" "y < worldHeight"
  shows "getTile (eruptTile bx by v i j s) x y =
           (if x = bx + i \<and> y = by + j
            then (getTile s x y)\<lparr>altitude := min (altitude (getTile s x y) + v) maxAltitude\<rparr>
            else getTile s x y)"
  using assms by (auto simp: eruptTile_def Let_def getTile_updTile)

lemma eruptAt_tile:
  assumes wf: "wfGrid w" and x: "x < worldWidth" and y: "y < worldHeight"
  shows "getTile (eruptAt bx by u w) x y =
           (if bx \<le> x \<and> x < bx + volcanoDiameter \<and> by \<le> y \<and> y < by + volcanoDiameter
            then (getTile w x y)\<lparr>altitude :=
                   min (altitude (getTile w x y) + contribution u (x - bx) (y - by)) maxAltitude\<rparr>
            else getTile w x y)"
proof -
  let ?cs = "List.product [0..<volcanoDiameter] [0..<volcanoDiameter]"
  let ?f = "\<lambda>s (i, j). eruptTile bx by (contribution u i j) i j s"
  let ?t0 = "getTile w x y"
  let ?I = "\<lambda>s. wfGrid s \<and> getTile s x y = ?t0"
  show ?thesis
  proof (cases "bx \<le> x \<and> x < bx + volcanoDiameter \<and> by \<le> y \<and> y < by + volcanoDiameter")
    case True
    let ?c = "(x - bx, y - by)"
    let ?Q = "\<lambda>s. wfGrid s \<and> getTile s x y
        = ?t0\<lparr>altitude := min (altitude ?t0 + contribution u (x - bx) (y - by)) maxAltitude\<rparr>"
    have other: "getTile (?f s c') x y = getTile s x y" if "wfGrid s" "c' \<noteq> ?c" for s c'
    proof -
      obtain i j where c': "c' = (i, j)" by (cases c')
      have "\<not> (x = bx + i \<and> y = by + j)"
        using that(2) True by (auto simp: c')
      then show ?thesis
        using that(1) x y by (auto simp: c' eruptTile_tile)
    qed
    have "?Q (foldl ?f w ?cs)"
    proof (rule foldl_before_after [where c = ?c and I = ?I])
      show "distinct ?cs" by (simp add: distinct_product)
      show "?c \<in> set ?cs" using True by auto
      show "?I w" using wf by simp
      show "?I (?f s c')" if "?I s" "c' \<in> set ?cs" "c' \<noteq> ?c" for s c'
        using that other [of s c'] by (cases c') auto
      show "?Q (?f s c')" if "?Q s" "c' \<in> set ?cs" "c' \<noteq> ?c" for s c'
        using that other [of s c'] by (cases c') auto
      show "?Q (?f s ?c)" if "?I s" for s
        using that True x y by (simp add: eruptTile_tile)
    qed
    then show ?thesis
      using True by (simp add: eruptAt_offsets)
  next
    case False
    have "?I (foldl ?f w ?cs)"
    proof (rule foldl_invariant [where P = ?I])
      show "?I w" using wf by simp
      fix c s assume c: "c \<in> set ?cs" and i: "?I s"
      obtain i j where ij: "c = (i, j)" by (cases c)
      have "\<not> (x = bx + i \<and> y = by + j)"
        using c False by (auto simp: ij)
      then show "?I (?f s c)"
        using i x y by (auto simp: ij eruptTile_tile)
    qed
    then have "getTile (eruptAt bx by u w) x y = getTile w x y"
      by (simp add: eruptAt_offsets)
    then show ?thesis
      using False by (simp only: if_False)
  qed
qed

lemma contribution_nonneg: "0 \<le> u \<Longrightarrow> 0 \<le> contribution u i j"
  by (simp add: contribution_def volcanoHalfDiameter_def volcanoDiameter_def)

lemma random_ranges:
  assumes "0 \<le> r" "r < 1"
  shows "nat \<lfloor>r * real worldWidth\<rfloor> < worldWidth" "nat \<lfloor>r * real worldHeight\<rfloor> < worldHeight"
    "volcanoMinUpthrust \<le> volcanoMinUpthrust + of_int \<lfloor>volcanoUpthrustVariation * r\<rfloor>"
    "volcanoMinUpthrust + of_int \<lfloor>volcanoUpthrustVariation * r\<rfloor>
       < volcanoMinUpthrust + volcanoUpthrustVariation"
proof -
  have "r * real n < real n" if "0 < n" for n :: nat
    using assms that by simp
  then have "\<lfloor>r * real n\<rfloor> < int n" if "0 < n" for n :: nat
    using that by (simp add: floor_less_iff)
  then show "nat \<lfloor>r * real worldWidth\<rfloor> < worldWidth" "nat \<lfloor>r * real worldHeight\<rfloor> < worldHeight"
    using worldWidth_pos worldHeight_pos assms(1) by (simp_all add: nat_less_iff)
  have "0 \<le> volcanoUpthrustVariation * r" "volcanoUpthrustVariation * r < volcanoUpthrustVariation"
    using assms by (simp_all add: volcanoUpthrustVariation_def)
  then have "0 \<le> \<lfloor>volcanoUpthrustVariation * r\<rfloor>"
    "real_of_int \<lfloor>volcanoUpthrustVariation * r\<rfloor> < volcanoUpthrustVariation"
    by (simp_all, linarith)
  then show "volcanoMinUpthrust \<le> volcanoMinUpthrust + of_int \<lfloor>volcanoUpthrustVariation * r\<rfloor>"
    "volcanoMinUpthrust + of_int \<lfloor>volcanoUpthrustVariation * r\<rfloor>
       < volcanoMinUpthrust + volcanoUpthrustVariation"
    by simp_all
qed

lemma eruptVolcano_tile_explicit:
  assumes "wfGrid w" "x < worldWidth" "y < worldHeight"
  shows "getTile (eruptVolcano rnd w) x y =
     (let bx = nat \<lfloor>rnd (randomCalls w) * real worldWidth\<rfloor>;
          by = nat \<lfloor>rnd (randomCalls w + 1) * real worldHeight\<rfloor>;
          u = volcanoMinUpthrust + of_int \<lfloor>volcanoUpthrustVariation * rnd (randomCalls w + 2)\<rfloor>
      in if bx \<le> x \<and> x < bx + volcanoDiameter \<and> by \<le> y \<and> y < by + volcanoDiameter
         then (getTile w x y)\<lparr>altitude :=
                 min (altitude (getTile w x y) + contribution u (x - bx) (y - by)) maxAltitude\<rparr>
         else getTile w x y)"
proof -
  have "wfGrid (w\<lparr>randomCalls := randomCalls w + 3\<rparr>)"
    using assms(1) by simp
  from eruptAt_tile [OF this assms(2,3)] show ?thesis
    by (simp add: eruptVolcano_eruptAt Let_def)
qed

lemma floor_interval:
  assumes "0 \<le> r" "0 < n"
  shows "nat \<lfloor>r * real n\<rfloor> = a \<longleftrightarrow> real a / real n \<le> r \<and> r < (real a + 1) / real n"
proof -
  have "0 \<le> \<lfloor>r * real n\<rfloor>" using assms by simp
  then have "nat \<lfloor>r * real n\<rfloor> = a \<longleftrightarrow> \<lfloor>r * real n\<rfloor> = int a"
    by auto
  also have "\<dots> \<longleftrightarrow> real a \<le> r * real n \<and> r * real n < real a + 1"
    by (simp add: floor_eq_iff)
  also have "\<dots> \<longleftrightarrow> real a / real n \<le> r \<and> r < (real a + 1) / real n"
    using assms(2) by (simp add: field_simps)
  finally show ?thesis .
qed

lemma contribution_explicit:
  "contribution u i j = u * max (4 - sqrt ((4 - real i) * (4 - real i) + (4 - real j) * (4 - real j))) 0 / 4"
  by (simp add: contribution_def volcanoHalfDiameter_def volcanoDiameter_def)

lemma contribution_values:
  "contribution u 0 0 = 0" "contribution u 4 4 = u"
proof -
  have "(4 :: real) \<le> sqrt 32"
    by (rule real_le_rsqrt) simp
  then show "contribution u 0 0 = 0"
    by (simp add: contribution_explicit)
  show "contribution u 4 4 = u"
    by (simp add: contribution_explicit)
qed

lemma specContribution_values:
  "specContribution u 0 0 = u" "specContribution u (- 1) 0 = u * 3 / 4" "specContribution u 4 4 = 0"
proof -
  have "(4 :: real) \<le> sqrt 32"
    by (rule real_le_rsqrt) simp
  then show "specContribution u 4 4 = 0"
    by (simp add: specContribution_def volcanoHalfDiameter_def volcanoDiameter_def)
  show "specContribution u 0 0 = u" "specContribution u (- 1) 0 = u * 3 / 4"
    by (simp_all add: specContribution_def volcanoHalfDiameter_def volcanoDiameter_def)
qed

lemma tenth_draws:
  "nat \<lfloor>(1 / 10 :: real) * real worldWidth\<rfloor> = 10" "nat \<lfloor>(1 / 10 :: real) * real worldHeight\<rfloor> = 10"
  "volcanoMinUpthrust + of_int \<lfloor>volcanoUpthrustVariation * (1 / 10)\<rfloor> = 1100"
  by (simp_all add: worldWidth_def worldHeight_def volcanoMinUpthrust_def volcanoUpthrustVariation_def)

lemma mkWorld_altitude:
  assumes "x < worldWidth" "y < worldHeight"
  shows "altitude (getTile mkWorld x y) = 0"
  using assms by (simp add: getTile_def mkWorld_def mkTiles_def mkTile_def Let_def)

lemma mkWorld_erupted:
  "altitude (getTile (eruptVolcano (\<lambda>n. 1 / 10) mkWorld) 10 10) = 0"
  "altitude (getTile (eruptVolcano (\<lambda>n. 1 / 10) mkWorld) 9 10) = 0"
  "altitude (getTile (eruptVolcano (\<lambda>n. 1 / 10) mkWorld) 14 14) = 1100"
proof -
  have b: "9 < worldWidth" "10 < worldWidth" "14 < worldWidth" "10 < worldHeight" "14 < worldHeight"
    by (simp_all add: worldWidth_def worldHeight_def)
  show "altitude (getTile (eruptVolcano (\<lambda>n. 1 / 10) mkWorld) 10 10) = 0"
    unfolding eruptVolcano_tile_explicit [OF wfGrid_mkWorld b(2,4)] Let_def tenth_draws
    by (simp add: contribution_values mkWorld_altitude b maxAltitude_def)
  show "altitude (getTile (eruptVolcano (\<lambda>n. 1 / 10) mkWorld) 9 10) = 0"
    unfolding eruptVolcano_tile_explicit [OF wfGrid_mkWorld b(1,4)] Let_def tenth_draws
    by (simp add: mkWorld_altitude b)
  show "altitude (getTile (eruptVolcano (\<lambda>n. 1 / 10) mkWorld) 14 14) = 1100"
    unfolding eruptVolcano_tile_explicit [OF wfGrid_mkWorld b(3,5)] Let_def tenth_draws
    by (simp add: contribution_values mkWorld_altitude b maxAltitude_def volcanoDiameter_def)
qed

lemma worldBiomass_eruptAt [simp]: "worldBiomass (eruptAt bx by u w) = worldBiomass w"
  by (rule eruptAt_invariant [where Q = "\<lambda>s. worldBiomass s = worldBiomass w"])
     (simp_all add: eruptTile_def Let_def)

section \<open>The eruption\<close>

text \<open>
  Claim C4, as amended. \<^verbatim>\<open>eruptVolcano\<close> makes three random draws \<open>r1\<close>, \<open>r2\<close>, \<open>r3\<close> in \<open>[0, 1)\<close>.
  It selects the tile \<open>(floor (r1 * W), floor (r2 * H))\<close>, every column and every row for an
  interval of draws of the same length, and the whole number \<open>upthrust = minUpthrust +
  floor (variation * r3)\<close>, at least \<open>minUpthrust\<close> and below \<open>minUpthrust + variation\<close>.
  The selected tile is the corner with the lowest coordinates of the 9x9 square the
  eruption covers, not its centre: for every offset \<open>(i, j)\<close> with \<open>0 \<le> i \<le> 8\<close> and \<open>0 \<le> j \<le> 8\<close>
  the tile at \<open>(baseX + i, baseY + j)\<close> gets \<open>upthrust * max (4 - sqrt ((4 - i)^2 + (4 - j)^2), 0) / 4\<close>
  added to its altitude, clamped above by \<open>maxAltitude\<close>. A target beyond the last column or
  row is skipped, without wrap, and every other tile is left as it is. On a tile whose
  altitude is at most \<open>maxAltitude\<close> the eruption does not lower the altitude.
\<close>

theorem eruptVolcano_spread:
  assumes "wfGrid w" "validRandom rnd" "x < worldWidth" "y < worldHeight"
  shows "(let bx = nat \<lfloor>rnd (randomCalls w) * real worldWidth\<rfloor>;
              by = nat \<lfloor>rnd (randomCalls w + 1) * real worldHeight\<rfloor>;
              u = volcanoMinUpthrust + of_int \<lfloor>volcanoUpthrustVariation * rnd (randomCalls w + 2)\<rfloor>
          in bx < worldWidth \<and> by < worldHeight
             \<and> volcanoMinUpthrust \<le> u \<and> u < volcanoMinUpthrust + volcanoUpthrustVariation
             \<and> getTile (eruptVolcano rnd w) x y =
                 (if bx \<le> x \<and> x < bx + volcanoDiameter \<and> by \<le> y \<and> y < by + volcanoDiameter
                  then (getTile w x y)\<lparr>altitude :=
                         min (altitude (getTile w x y) + contribution u (x - bx) (y - by)) maxAltitude\<rparr>
                  else getTile w x y)
             \<and> contribution u (x - bx) (y - by)
                 = u * max (4 - sqrt ((4 - real (x - bx)) * (4 - real (x - bx))
                                     + (4 - real (y - by)) * (4 - real (y - by)))) 0 / 4)
         \<and> (altitude (getTile w x y) \<le> maxAltitude
              \<longrightarrow> altitude (getTile w x y) \<le> altitude (getTile (eruptVolcano rnd w) x y))
         \<and> (\<forall>a. nat \<lfloor>rnd (randomCalls w) * real worldWidth\<rfloor> = a
              \<longleftrightarrow> real a / real worldWidth \<le> rnd (randomCalls w)
                  \<and> rnd (randomCalls w) < (real a + 1) / real worldWidth)
         \<and> (\<forall>b. nat \<lfloor>rnd (randomCalls w + 1) * real worldHeight\<rfloor> = b
              \<longleftrightarrow> real b / real worldHeight \<le> rnd (randomCalls w + 1)
                  \<and> rnd (randomCalls w + 1) < (real b + 1) / real worldHeight)
         \<and> atmosphere (eruptVolcano rnd w) = atmosphere w
         \<and> worldBiomass (eruptVolcano rnd w) = worldBiomass w"
proof -
  let ?bx = "nat \<lfloor>rnd (randomCalls w) * real worldWidth\<rfloor>"
  let ?by = "nat \<lfloor>rnd (randomCalls w + 1) * real worldHeight\<rfloor>"
  let ?u = "volcanoMinUpthrust + of_int \<lfloor>volcanoUpthrustVariation * rnd (randomCalls w + 2)\<rfloor>"
  have r: "0 \<le> rnd n" "rnd n < 1" for n
    using assms(2) by (simp_all add: validRandom_def)
  note rr = random_ranges [OF r]
  have u0: "0 \<le> ?u"
    using rr(3) [of "randomCalls w + 2"] by (simp add: volcanoMinUpthrust_def)
  note t = eruptVolcano_tile_explicit [OF assms(1,3,4), of rnd, unfolded Let_def]
  have up: "altitude (getTile w x y) \<le> altitude (getTile (eruptVolcano rnd w) x y)"
    if "altitude (getTile w x y) \<le> maxAltitude"
    using that contribution_nonneg [OF u0, of "x - ?bx" "y - ?by"] unfolding t by simp
  have 1: "?bx < worldWidth \<and> ?by < worldHeight
      \<and> volcanoMinUpthrust \<le> ?u \<and> ?u < volcanoMinUpthrust + volcanoUpthrustVariation"
    using rr by blast
  have 2: "contribution ?u (x - ?bx) (y - ?by)
      = ?u * max (4 - sqrt ((4 - real (x - ?bx)) * (4 - real (x - ?bx))
                          + (4 - real (y - ?by)) * (4 - real (y - ?by)))) 0 / 4"
    by (rule contribution_explicit)
  have 3: "nat \<lfloor>rnd (randomCalls w) * real worldWidth\<rfloor> = a
              \<longleftrightarrow> real a / real worldWidth \<le> rnd (randomCalls w)
                  \<and> rnd (randomCalls w) < (real a + 1) / real worldWidth" for a
    by (rule floor_interval [OF r(1) worldWidth_pos])
  have 4: "nat \<lfloor>rnd (randomCalls w + 1) * real worldHeight\<rfloor> = b
              \<longleftrightarrow> real b / real worldHeight \<le> rnd (randomCalls w + 1)
                  \<and> rnd (randomCalls w + 1) < (real b + 1) / real worldHeight" for b
    by (rule floor_interval [OF r(1) worldHeight_pos])
  have 5: "atmosphere (eruptVolcano rnd w) = atmosphere w"
    "worldBiomass (eruptVolcano rnd w) = worldBiomass w"
    by (simp, simp add: eruptVolcano_eruptAt)
  show ?thesis
    unfolding Let_def using 1 t 2 up 3 4 5 by blast
qed

theorem eruptVolcano_spread_witness:
  "wfGrid mkWorld \<and> validRandom (\<lambda>n. 1 / 10) \<and> 14 < worldWidth \<and> 14 < worldHeight
   \<and> getTile (eruptVolcano (\<lambda>n. 1 / 10) mkWorld) 14 14 = (getTile mkWorld 14 14)\<lparr>altitude := 1100\<rparr>
   \<and> altitude (getTile mkWorld 14 14) \<le> altitude (getTile (eruptVolcano (\<lambda>n. 1 / 10) mkWorld) 14 14)"
proof -
  have h: "wfGrid mkWorld" "validRandom (\<lambda>n. 1 / 10)" "14 < worldWidth" "14 < worldHeight"
    by (simp_all add: wfGrid_mkWorld validRandom_def worldWidth_def worldHeight_def)
  have a: "altitude (getTile mkWorld 14 14) = 0"
    using h by (simp add: mkWorld_altitude)
  have m: "altitude (getTile mkWorld 14 14) \<le> maxAltitude"
    by (simp add: a maxAltitude_def)
  from eruptVolcano_spread [OF h, unfolded Let_def tenth_draws]
  have "getTile (eruptVolcano (\<lambda>n. 1 / 10) mkWorld) 14 14 =
                 (if 10 \<le> (14 :: nat) \<and> 14 < 10 + volcanoDiameter \<and> 10 \<le> (14 :: nat)
                     \<and> 14 < 10 + volcanoDiameter
                  then (getTile mkWorld 14 14)\<lparr>altitude :=
                         min (altitude (getTile mkWorld 14 14) + contribution 1100 (14 - 10) (14 - 10))
                           maxAltitude\<rparr>
                  else getTile mkWorld 14 14)"
    and "altitude (getTile mkWorld 14 14) \<le> maxAltitude
              \<longrightarrow> altitude (getTile mkWorld 14 14)
                  \<le> altitude (getTile (eruptVolcano (\<lambda>n. 1 / 10) mkWorld) 14 14)"
    by blast+
  then show ?thesis
    using h m by (simp add: a contribution_values volcanoDiameter_def maxAltitude_def)
qed

text \<open>
  The claim as stated fails. With the three draws 1/10 the selected tile is (10, 10) and
  the upthrust 1100. The claim gives the selected tile (offset (0, 0)) the whole upthrust
  and its neighbour at offset (-1, 0) three quarters of it; in the code both keep the
  altitude 0, and the whole upthrust goes to the tile (14, 14), where the claim (offset
  (4, 4)) adds nothing.
\<close>

theorem eruptVolcano_not_centred:
  "nat \<lfloor>(1 / 10 :: real) * real worldWidth\<rfloor> = 10
   \<and> nat \<lfloor>(1 / 10 :: real) * real worldHeight\<rfloor> = 10
   \<and> volcanoMinUpthrust + of_int \<lfloor>volcanoUpthrustVariation * (1 / 10)\<rfloor> = 1100
   \<and> altitude (getTile mkWorld 10 10) = 0
   \<and> altitude (getTile mkWorld 9 10) = 0
   \<and> altitude (getTile mkWorld 14 14) = 0
   \<and> specContribution 1100 0 0 = 1100
   \<and> specContribution 1100 (- 1) 0 = 825
   \<and> specContribution 1100 4 4 = 0
   \<and> altitude (getTile (eruptVolcano (\<lambda>n. 1 / 10) mkWorld) 10 10) = 0
   \<and> altitude (getTile (eruptVolcano (\<lambda>n. 1 / 10) mkWorld) 9 10) = 0
   \<and> altitude (getTile (eruptVolcano (\<lambda>n. 1 / 10) mkWorld) 14 14) = 1100
   \<and> altitude (getTile (eruptVolcano (\<lambda>n. 1 / 10) mkWorld) 10 10)
       \<noteq> min (altitude (getTile mkWorld 10 10) + specContribution 1100 0 0) maxAltitude"
proof -
  have b: "9 < worldWidth" "10 < worldWidth" "14 < worldWidth" "10 < worldHeight" "14 < worldHeight"
    by (simp_all add: worldWidth_def worldHeight_def)
  show ?thesis
    using tenth_draws
    by (simp add: mkWorld_altitude b specContribution_values mkWorld_erupted maxAltitude_def)
qed

subsection \<open>The tick without volcanism and biomass\<close>

lemma wfGrid_quietTickTile [simp]: "wfGrid (quietTickTile htf x y w) = wfGrid w"
  by (simp add: quietTickTile_def Let_def)

lemma wfGrid_quietPass: "wfGrid w \<Longrightarrow> wfGrid (quietPass w)"
  by (simp add: quietPass_def Let_def wfGrid_applyTiles)

lemma wfGrid_quietTick: "wfGrid w \<Longrightarrow> wfGrid (quietTick w)"
  by (simp add: quietTick_def Let_def wfGrid_applyTiles wfGrid_quietPass)

lemma wfGrid_quietTicks: "wfGrid w \<Longrightarrow> wfGrid (quietTicks n w)"
  by (induction n) (simp_all add: wfGrid_quietTick)

lemma quietTickTile_tile:
  assumes "wfGrid s" "x < worldWidth" "y < worldHeight"
  shows "getTile (quietTickTile htf x y s) x' y' =
           (if x' = x \<and> y' = y then heatedTile htf (getTile s x y) else getTile s x' y')"
  using assms by (simp add: quietTickTile_def Let_def getTile_updTile heatedTile_def)

lemma cover_quietTickTile:
  "tileCover (getTile (quietTickTile htf x' y' w) x y) = tileCover (getTile w x y)"
  by (simp add: quietTickTile_def Let_def cover_updTile)

lemma quietTickTile_atmosphere:
  "atmosphere (quietTickTile htf x y s) =
     (if tileCover (getTile s x y) = Water
      then (atmosphere s)\<lparr>waterVapour := waterVapour (atmosphere s) + waterVaporPerOceanTile\<rparr>
      else if tileCover (getTile s x y) = Rock
      then (atmosphere s)\<lparr>carbonDioxide := carbonDioxide (atmosphere s) + carbonPerLandTile\<rparr>
      else atmosphere s)"
  by (simp add: quietTickTile_def Let_def cover_updTile)

lemma quietPass_gases_fold:
  "carbonDioxide (atmosphere (foldl (\<lambda>s (x, y). quietTickTile htf x y s) s cs))
     = carbonDioxide (atmosphere s)
       + carbonPerLandTile * real (length (filter (\<lambda>(x, y). tileCover (getTile s x y) = Rock) cs))
   \<and> nitrogen (atmosphere (foldl (\<lambda>s (x, y). quietTickTile htf x y s) s cs)) = nitrogen (atmosphere s)
   \<and> oxygen (atmosphere (foldl (\<lambda>s (x, y). quietTickTile htf x y s) s cs)) = oxygen (atmosphere s)
   \<and> methane (atmosphere (foldl (\<lambda>s (x, y). quietTickTile htf x y s) s cs)) = methane (atmosphere s)"
proof (induction cs arbitrary: s)
  case Nil
  then show ?case by simp
next
  case (Cons c cs)
  obtain x y where c: "c = (x, y)" by (cases c)
  let ?s = "quietTickTile htf x y s"
  have same: "(\<lambda>(x', y'). tileCover (getTile ?s x' y') = Rock) = (\<lambda>(x', y'). tileCover (getTile s x' y') = Rock)"
    by (simp add: cover_quietTickTile)
  show ?case
    using Cons.IH [of ?s]
    by (simp add: c same quietTickTile_atmosphere algebra_simps)
qed

lemma quietPass_atmosphere:
  assumes "wfGrid w"
  shows "carbonDioxide (atmosphere (quietPass w))
           = carbonDioxide (atmosphere w) + carbonPerLandTile * real (rockCount w)"
    and "nitrogen (atmosphere (quietPass w)) = nitrogen (atmosphere w)"
    and "oxygen (atmosphere (quietPass w)) = oxygen (atmosphere w)"
    and "methane (atmosphere (quietPass w)) = methane (atmosphere w)"
  using assms quietPass_gases_fold [of "computeHeatTrappingFactor (computeTileAtmosphere w)" w scanOrder]
  by (simp_all add: quietPass_def Let_def applyTiles_scanOrder rockCount_def
      count_scanOrder [OF assms, where P = "\<lambda>t. tileCover t = Rock"])

lemma quietTick_atmosphere:
  assumes "wfGrid w"
  shows "carbonDioxide (atmosphere (quietTick w))
           = carbonDioxide (atmosphere w) - carbonDioxide (atmosphere w) * atmosphereLossRate
             + carbonPerLandTile * real (rockCount w)"
    and "nitrogen (atmosphere (quietTick w))
           = nitrogen (atmosphere w) - nitrogen (atmosphere w) * atmosphereLossRate"
    and "oxygen (atmosphere (quietTick w))
           = oxygen (atmosphere w) - oxygen (atmosphere w) * atmosphereLossRate"
    and "methane (atmosphere (quietTick w))
           = methane (atmosphere w) - methane (atmosphere w) * atmosphereLossRate"
proof -
  have wf2: "wfGrid (decayAtmosphere w)" using assms by simp
  have a: "atmosphere (quietTick w) = atmosphere (quietPass (decayAtmosphere w))"
    using wf2
    by (simp add: quietTick_def Let_def atmosphere_cover_pass atmosphere_heat_pass
        wfGrid_applyTiles wfGrid_quietPass)
  have r: "rockCount (decayAtmosphere w) = rockCount w"
    by (simp add: rockCount_def)
  show "carbonDioxide (atmosphere (quietTick w))
           = carbonDioxide (atmosphere w) - carbonDioxide (atmosphere w) * atmosphereLossRate
             + carbonPerLandTile * real (rockCount w)"
    "nitrogen (atmosphere (quietTick w))
           = nitrogen (atmosphere w) - nitrogen (atmosphere w) * atmosphereLossRate"
    "oxygen (atmosphere (quietTick w))
           = oxygen (atmosphere w) - oxygen (atmosphere w) * atmosphereLossRate"
    "methane (atmosphere (quietTick w))
           = methane (atmosphere w) - methane (atmosphere w) * atmosphereLossRate"
    unfolding a quietPass_atmosphere [OF wf2] r
    by (simp_all add: atmosphere_decayAtmosphere)
qed

lemma quietPass_tile:
  assumes wf: "wfGrid w" and x: "x < worldWidth" and y: "y < worldHeight"
  shows "getTile (quietPass w) x y
           = heatedTile (computeHeatTrappingFactor (computeTileAtmosphere w)) (getTile w x y)"
proof -
  let ?htf = "computeHeatTrappingFactor (computeTileAtmosphere w)"
  let ?f = "\<lambda>s (x, y). quietTickTile ?htf x y s"
  let ?I = "\<lambda>s. wfGrid s \<and> getTile s x y = getTile w x y"
  let ?Q = "\<lambda>s. wfGrid s \<and> getTile s x y = heatedTile ?htf (getTile w x y)"
  have other: "getTile (?f s c') x y = getTile s x y"
    if "wfGrid s" "c' \<in> set scanOrder" "c' \<noteq> (x, y)" for s c'
    using that by (cases c') (auto simp: set_scanOrder quietTickTile_tile)
  have "?Q (foldl ?f w scanOrder)"
  proof (rule foldl_before_after [where c = "(x, y)" and I = ?I])
    show "distinct scanOrder" by (rule distinct_scanOrder)
    show "(x, y) \<in> set scanOrder" using x y by (simp add: set_scanOrder)
    show "?I w" using wf by simp
    show "?I (?f s c')" if "?I s" "c' \<in> set scanOrder" "c' \<noteq> (x, y)" for s c'
      using that other [of s c'] by (cases c') auto
    show "?Q (?f s c')" if "?Q s" "c' \<in> set scanOrder" "c' \<noteq> (x, y)" for s c'
      using that other [of s c'] by (cases c') auto
    show "?Q (?f s (x, y))" if "?I s" for s
      using that x y by (auto simp: quietTickTile_tile)
  qed
  then show ?thesis
    using wf by (simp add: quietPass_def Let_def applyTiles_scanOrder)
qed

lemma quietTick_altitude_bound:
  assumes wf: "wfGrid w" and b: "allTiles (\<lambda>x y t. altitude t \<le> b) w"
  shows "allTiles (\<lambda>x y t. altitude t \<le> max (b - erosionRate) 0) (quietTick w)"
proof -
  let ?P = "\<lambda>(x :: nat) (y :: nat) t. altitude t \<le> max (b - erosionRate) 0"
  let ?w2 = "decayAtmosphere w"
  have wf2: "wfGrid ?w2" using wf by simp
  have wf3: "wfGrid (quietPass ?w2)" using wf2 by (rule wfGrid_quietPass)
  have "allTiles ?P (quietPass ?w2)"
    unfolding allTiles_def
  proof (intro allI impI)
    fix x y assume xy: "x < worldWidth \<and> y < worldHeight"
    then have "altitude (getTile w x y) \<le> b"
      using b by (simp add: allTiles_def)
    then have "max (altitude (getTile w x y) - erosionRate) 0 \<le> max (b - erosionRate) 0"
      by (simp add: max_def)
    moreover have "getTile ?w2 x y = getTile w x y"
      by (simp add: getTile_def)
    ultimately show "altitude (getTile (quietPass ?w2) x y) \<le> max (b - erosionRate) 0"
      using xy by (simp add: quietPass_tile [OF wf2] heatedTile_def Let_def)
  qed
  then have "allTiles ?P (applyTiles transferHeat (quietPass ?w2))"
    using wf3 by (rule allTiles_heat_pass) simp
  then have "allTiles ?P (applyTiles setCover (applyTiles transferHeat (quietPass ?w2)))"
    by (rule allTiles_cover_pass) (use wf3 in \<open>simp_all add: wfGrid_applyTiles\<close>)
  then show ?thesis
    by (simp add: quietTick_def Let_def)
qed

lemma quietTicks_altitude_bound:
  assumes wf: "wfGrid w" and b: "allTiles (\<lambda>x y t. altitude t \<le> b) w"
  shows "allTiles (\<lambda>x y t. altitude t \<le> max (b - real n * erosionRate) 0) (quietTicks n w)"
proof (induction n)
  case 0
  show ?case
    using b by (simp add: allTiles_def le_max_iff_disj)
next
  case (Suc n)
  have "max (max (b - real n * erosionRate) 0 - erosionRate) 0 = max (b - real (Suc n) * erosionRate) 0"
    by (simp add: erosionRate_def algebra_simps max_def)
  then show ?case
    using quietTick_altitude_bound [OF wfGrid_quietTicks [OF wf] Suc] by simp
qed

lemma altitude_bounded:
  "\<exists>b. allTiles (\<lambda>x y t. altitude t \<le> b) w"
proof -
  let ?A = "(\<lambda>(x, y). altitude (getTile w x y)) ` set scanOrder"
  have "altitude (getTile w x y) \<le> Max ?A" if "x < worldWidth" "y < worldHeight" for x y
    using that by (intro Max_ge) (auto simp: set_scanOrder)
  then show ?thesis
    unfolding allTiles_def by blast
qed

lemma quietTick_no_rock:
  assumes wf: "wfGrid w" and b: "allTiles (\<lambda>x y t. altitude t \<le> 0) w"
  shows "rockCount (quietTick w) = 0"
proof -
  have wfq: "wfGrid (quietTick w)" using wf by (rule wfGrid_quietTick)
  have low: "allTiles (\<lambda>x y t. altitude t \<le> 0) (quietTick w)"
    using quietTick_altitude_bound [OF wf b] by (simp add: erosionRate_def)
  have wf4: "wfGrid (applyTiles transferHeat (quietPass (decayAtmosphere w)))"
    using wf by (simp add: wfGrid_applyTiles wfGrid_quietPass)
  have "tileCover (getTile (quietTick w) x y) \<noteq> Rock" if "x < worldWidth" "y < worldHeight" for x y
  proof -
    have "tileCover (getTile (quietTick w) x y) = computeTileCover (getTile (quietTick w) x y)"
      unfolding quietTick_def Let_def using wf4 that by (rule cover_after_setCover_pass)
    moreover have "altitude (getTile (quietTick w) x y) \<le> 0"
      using low that by (simp add: allTiles_def)
    ultimately show ?thesis
      by (simp add: computeTileCover_def seaLevel_def)
  qed
  then have "filter (\<lambda>(x, y). tileCover (getTile (quietTick w) x y) = Rock) scanOrder = []"
    by (auto simp: filter_empty_conv set_scanOrder)
  then show ?thesis
    unfolding rockCount_def
    using count_scanOrder [OF wfq, where P = "\<lambda>t. tileCover t = Rock"] by simp
qed

lemma quietTicks_no_rock:
  assumes wf: "wfGrid w"
  shows "\<exists>m. \<forall>n\<ge>m. rockCount (quietTicks n w) = 0"
proof -
  obtain b where b: "allTiles (\<lambda>x y t. altitude t \<le> b) w"
    using altitude_bounded by blast
  obtain k :: nat where k: "b / erosionRate \<le> real k"
    using real_arch_simple by blast
  have low: "allTiles (\<lambda>x y t. altitude t \<le> 0) (quietTicks n w)" if "k \<le> n" for n
  proof -
    have "b / erosionRate \<le> real n" using k that by simp
    then have "b - real n * erosionRate \<le> 0"
      by (simp add: erosionRate_def field_simps)
    then have "max (b - real n * erosionRate) 0 = 0" by simp
    then show ?thesis
      using quietTicks_altitude_bound [OF wf b, of n] by simp
  qed
  have "rockCount (quietTicks n w) = 0" if sn: "Suc k \<le> n" for n
  proof -
    obtain n' where n': "n = Suc n'"
      using sn by (cases n) simp_all
    have kn: "k \<le> n'" using sn n' by simp
    show ?thesis
      unfolding n' quietTicks.simps
      by (rule quietTick_no_rock [OF wfGrid_quietTicks [OF wf] low [OF kn]])
  qed
  then show ?thesis by blast
qed

lemma geometric_tail_tendsto_zero:
  fixes f :: "nat \<Rightarrow> real"
  assumes "\<And>n. m \<le> n \<Longrightarrow> f (Suc n) = c * f n" "\<bar>c\<bar> < 1"
  shows "f \<longlonglongrightarrow> 0"
proof -
  have "f (k + m) = c ^ k * f m" for k
    by (induction k) (simp_all add: assms(1))
  moreover have "(\<lambda>k. c ^ k * f m) \<longlonglongrightarrow> 0"
    using LIMSEQ_power_zero [of c] assms(2) by (simp add: tendsto_mult_left_zero)
  ultimately have "(\<lambda>k. f (k + m)) \<longlonglongrightarrow> 0"
    by simp
  then show ?thesis
    by (rule LIMSEQ_offset)
qed

lemma quietTicks_gases:
  assumes wf: "wfGrid w"
  shows "nitrogen (atmosphere (quietTicks n w)) = (1 - atmosphereLossRate) ^ n * nitrogen (atmosphere w)"
    and "oxygen (atmosphere (quietTicks n w)) = (1 - atmosphereLossRate) ^ n * oxygen (atmosphere w)"
    and "methane (atmosphere (quietTicks n w)) = (1 - atmosphereLossRate) ^ n * methane (atmosphere w)"
  by (induction n)
     (simp_all add: quietTick_atmosphere [OF wfGrid_quietTicks [OF wf]] algebra_simps)

lemma quietTicks_carbonDioxide_nonneg:
  assumes wf: "wfGrid w" and c: "0 \<le> carbonDioxide (atmosphere w)"
  shows "0 \<le> carbonDioxide (atmosphere (quietTicks n w))"
proof (induction n)
  case 0
  show ?case using c by simp
next
  case (Suc n)
  have "0 \<le> carbonDioxide (atmosphere (quietTicks n w))
          - carbonDioxide (atmosphere (quietTicks n w)) * atmosphereLossRate"
    using Suc by (simp add: atmosphereLossRate_def)
  then show ?case
    by (simp add: quietTick_atmosphere [OF wfGrid_quietTicks [OF wf]] carbonPerLandTile_def)
qed

lemma lossRate_abs: "\<bar>1 - atmosphereLossRate\<bar> < 1" "0 \<le> 1 - atmosphereLossRate"
  "1 - atmosphereLossRate \<le> 1"
  by (simp_all add: atmosphereLossRate_def)

lemma decay_le:
  fixes q :: real
  assumes "0 \<le> q"
  shows "(1 - atmosphereLossRate) ^ Suc n * q \<le> (1 - atmosphereLossRate) ^ n * q"
proof -
  have "(1 - atmosphereLossRate) ^ Suc n \<le> (1 - atmosphereLossRate) ^ n"
    using lossRate_abs(2,3) by (intro power_decreasing) simp_all
  then show ?thesis
    using assms by (rule mult_right_mono)
qed

subsection \<open>A tick of the rock world\<close>

lemma wfGrid_rockWorld: "wfGrid rockWorld"
  by (simp add: wfGrid_def rockWorld_def mkWorld_def mkTiles_def list_all_iff)

lemma getTile_rockWorld:
  assumes "x < worldWidth" "y < worldHeight"
  shows "getTile rockWorld x y = (mkTile x y)\<lparr>altitude := 2000, tileCover := Rock\<rparr>"
  using assms by (simp add: getTile_def rockWorld_def mkWorld_def mkTiles_def)

lemma rockCount_rockWorld: "rockCount rockWorld = 10000"
proof -
  have "filter (\<lambda>(x, y). tileCover (getTile rockWorld x y) = Rock) scanOrder = scanOrder"
    by (auto simp: filter_id_conv set_scanOrder getTile_rockWorld)
  then have "rockCount rockWorld = length scanOrder"
    unfolding rockCount_def
    using count_scanOrder [OF wfGrid_rockWorld, where P = "\<lambda>t. tileCover t = Rock"] by simp
  then show ?thesis
    by (simp add: scanOrder_def worldWidth_def worldHeight_def)
qed

lemma rockWorld_atmosphere: "atmosphere rockWorld = mkAtmosphere"
  by (simp add: rockWorld_def mkWorld_def)

lemma rockWorld_quietTick:
  "carbonDioxide (atmosphere (quietTick rockWorld)) = 10000"
  by (simp add: quietTick_atmosphere [OF wfGrid_rockWorld] rockCount_rockWorld rockWorld_atmosphere
      mkAtmosphere_def carbonPerLandTile_def)

lemma rockTile_localTile:
  assumes "rockTile t"
  shows "rockTile (localTile r ta htf t)" "prokaryote (biomass (localTile r ta htf t)) = 0"
proof -
  let ?t = "seededTile r (heatedTile htf t)"
  have c: "tileCover ?t = Rock" "0 \<le> baseLuminosity ?t"
    using assms by (simp_all add: rockTile_def seededTile_def heatedTile_def Let_def)
  have cap: "0 \<le> baseLuminosity ?t * fullLuminosityHeat * photosynthticBiomassPerEnergy"
    using c(2) by (simp add: fullLuminosityHeat_def photosynthticBiomassPerEnergy_def)
  show "rockTile (localTile r ta htf t)"
    using c by (simp add: localTile_def grownTile_def Let_def rockTile_def)
  show "prokaryote (biomass (localTile r ta htf t)) = 0"
    unfolding localTile_def grownTile_def Let_def using c(1) cap by simp
qed

lemma rock_tickTile:
  assumes "allTiles (\<lambda>x y. rockTile) s" "wfGrid s" "x < worldWidth" "y < worldHeight"
  shows "allTiles (\<lambda>x y. rockTile) (tickTile rnd ta htf x y s)"
    and "carbonDioxide (atmosphere (tickTile rnd ta htf x y s))
           = carbonDioxide (atmosphere s) + carbonPerLandTile"
proof -
  have t: "rockTile (getTile s x y)"
    using assms(1,3,4) by (rule allTilesD)
  note l = rockTile_localTile [OF t, of "rnd (randomCalls s)" ta htf]
  show "allTiles (\<lambda>x y. rockTile) (tickTile rnd ta htf x y s)"
    by (rule allTiles_tickTile [OF assms]) (use l in \<open>auto simp: rockTile_def setProkaryote_def\<close>)
  show "carbonDioxide (atmosphere (tickTile rnd ta htf x y s))
           = carbonDioxide (atmosphere s) + carbonPerLandTile"
    using t l(2) by (simp add: tickTile_atmosphere [OF assms(2-4)] Let_def rockTile_def)
qed

lemma rock_tickTile_fold:
  assumes "allTiles (\<lambda>x y. rockTile) s" "wfGrid s" "set cs \<subseteq> set scanOrder"
  shows "carbonDioxide (atmosphere (foldl (\<lambda>s (x, y). tickTile rnd ta htf x y s) s cs))
           = carbonDioxide (atmosphere s) + carbonPerLandTile * real (length cs)"
  using assms
proof (induction cs arbitrary: s)
  case Nil
  then show ?case by simp
next
  case (Cons c cs)
  obtain x y where c: "c = (x, y)" by (cases c)
  have b: "x < worldWidth" "y < worldHeight"
    using Cons.prems(3) by (auto simp: c set_scanOrder)
  note st = rock_tickTile [OF Cons.prems(1,2) b, of rnd ta htf]
  have "carbonDioxide (atmosphere (foldl (\<lambda>s (x, y). tickTile rnd ta htf x y s)
            (tickTile rnd ta htf x y s) cs))
        = carbonDioxide (atmosphere (tickTile rnd ta htf x y s)) + carbonPerLandTile * real (length cs)"
    by (rule Cons.IH) (use st(1) Cons.prems in simp_all)
  then show ?case
    by (simp add: c st(2) algebra_simps)
qed

lemma rockWorld_tick:
  "carbonDioxide (atmosphere (tick rnd rockWorld)) = 10000"
proof -
  let ?w2 = "decayAtmosphere (eruptVolcano rnd rockWorld)"
  have wf2: "wfGrid ?w2" by (simp add: wfGrid_rockWorld)
  have "allTiles (\<lambda>x y. rockTile) rockWorld"
    unfolding allTiles_def
  proof (intro allI impI)
    fix x y assume b: "x < worldWidth \<and> y < worldHeight"
    then show "rockTile (getTile rockWorld x y)"
      using mkTile_luminosity(1) [of y x] by (simp add: getTile_rockWorld rockTile_def)
  qed
  then have "allTiles (\<lambda>x y. rockTile) (eruptVolcano rnd rockWorld)"
    by (rule allTiles_eruptVolcano) (simp_all add: wfGrid_rockWorld rockTile_def)
  then have all2: "allTiles (\<lambda>x y. rockTile) ?w2"
    by simp
  have c2: "carbonDioxide (atmosphere ?w2) = 0"
    by (simp add: atmosphere_decayAtmosphere rockWorld_atmosphere mkAtmosphere_def)
  have "carbonDioxide (atmosphere (localPass rnd ?w2))
          = carbonDioxide (atmosphere ?w2) + carbonPerLandTile * real (length scanOrder)"
    using rock_tickTile_fold [OF all2 wf2 subset_refl, of rnd] wf2
    by (simp add: localPass_def Let_def applyTiles_scanOrder)
  then show ?thesis
    by (simp add: tick_atmosphere [OF wfGrid_rockWorld] c2 carbonPerLandTile_def scanOrder_def
        worldWidth_def worldHeight_def)
qed

section \<open>Decay of the gases without volcanism and biomass\<close>

text \<open>
  Claim C10, as amended. Without the eruption and without the biomass statements, a tick
  multiplies the quantities of nitrogen, oxygen and methane by \<open>1 - atmosphereLossRate\<close>:
  from a nonnegative value they do not increase from one tick to the next, and they
  converge to zero. Carbon dioxide becomes \<open>q - q * atmosphereLossRate\<close> plus
  \<open>carbonPerLandTile\<close> for every tile covered by rock, so it can increase while rock is
  left; erosion lowers every tile below the sea level after finitely many ticks, from then
  on no tile is rock and a nonnegative quantity of carbon dioxide does not increase
  either, and it converges to zero too.
\<close>

theorem quiet_gases_decay:
  assumes "wfGrid w"
  shows "(\<forall>n. nitrogen (atmosphere (quietTicks n w))
               = (1 - atmosphereLossRate) ^ n * nitrogen (atmosphere w)
             \<and> oxygen (atmosphere (quietTicks n w))
               = (1 - atmosphereLossRate) ^ n * oxygen (atmosphere w)
             \<and> methane (atmosphere (quietTicks n w))
               = (1 - atmosphereLossRate) ^ n * methane (atmosphere w)
             \<and> carbonDioxide (atmosphere (quietTicks (Suc n) w))
               = carbonDioxide (atmosphere (quietTicks n w))
                 - carbonDioxide (atmosphere (quietTicks n w)) * atmosphereLossRate
                 + carbonPerLandTile * real (rockCount (quietTicks n w)))
         \<and> (0 \<le> nitrogen (atmosphere w) \<longrightarrow>
              (\<forall>n. nitrogen (atmosphere (quietTicks (Suc n) w)) \<le> nitrogen (atmosphere (quietTicks n w))))
         \<and> (0 \<le> oxygen (atmosphere w) \<longrightarrow>
              (\<forall>n. oxygen (atmosphere (quietTicks (Suc n) w)) \<le> oxygen (atmosphere (quietTicks n w))))
         \<and> (0 \<le> methane (atmosphere w) \<longrightarrow>
              (\<forall>n. methane (atmosphere (quietTicks (Suc n) w)) \<le> methane (atmosphere (quietTicks n w))))
         \<and> (\<exists>m. (\<forall>n\<ge>m. rockCount (quietTicks n w) = 0)
                \<and> (0 \<le> carbonDioxide (atmosphere w) \<longrightarrow>
                     (\<forall>n\<ge>m. carbonDioxide (atmosphere (quietTicks (Suc n) w))
                              \<le> carbonDioxide (atmosphere (quietTicks n w)))))
         \<and> (\<lambda>n. nitrogen (atmosphere (quietTicks n w))) \<longlonglongrightarrow> 0
         \<and> (\<lambda>n. oxygen (atmosphere (quietTicks n w))) \<longlonglongrightarrow> 0
         \<and> (\<lambda>n. methane (atmosphere (quietTicks n w))) \<longlonglongrightarrow> 0
         \<and> (\<lambda>n. carbonDioxide (atmosphere (quietTicks n w))) \<longlonglongrightarrow> 0"
proof -
  note wfn = wfGrid_quietTicks [OF assms]
  note g = quietTicks_gases [OF assms]
  have co2: "carbonDioxide (atmosphere (quietTicks (Suc n) w))
               = carbonDioxide (atmosphere (quietTicks n w))
                 - carbonDioxide (atmosphere (quietTicks n w)) * atmosphereLossRate
                 + carbonPerLandTile * real (rockCount (quietTicks n w))" for n
    by (simp add: quietTick_atmosphere(1) [OF wfn])
  have 1: "\<forall>n. nitrogen (atmosphere (quietTicks n w))
               = (1 - atmosphereLossRate) ^ n * nitrogen (atmosphere w)
             \<and> oxygen (atmosphere (quietTicks n w))
               = (1 - atmosphereLossRate) ^ n * oxygen (atmosphere w)
             \<and> methane (atmosphere (quietTicks n w))
               = (1 - atmosphereLossRate) ^ n * methane (atmosphere w)
             \<and> carbonDioxide (atmosphere (quietTicks (Suc n) w))
               = carbonDioxide (atmosphere (quietTicks n w))
                 - carbonDioxide (atmosphere (quietTicks n w)) * atmosphereLossRate
                 + carbonPerLandTile * real (rockCount (quietTicks n w))"
    using g co2 by blast
  have 2: "0 \<le> nitrogen (atmosphere w) \<longrightarrow>
              (\<forall>n. nitrogen (atmosphere (quietTicks (Suc n) w)) \<le> nitrogen (atmosphere (quietTicks n w)))"
    unfolding g using decay_le by blast
  have 3: "0 \<le> oxygen (atmosphere w) \<longrightarrow>
              (\<forall>n. oxygen (atmosphere (quietTicks (Suc n) w)) \<le> oxygen (atmosphere (quietTicks n w)))"
    unfolding g using decay_le by blast
  have 4: "0 \<le> methane (atmosphere w) \<longrightarrow>
              (\<forall>n. methane (atmosphere (quietTicks (Suc n) w)) \<le> methane (atmosphere (quietTicks n w)))"
    unfolding g using decay_le by blast
  obtain m where m: "\<forall>n\<ge>m. rockCount (quietTicks n w) = 0"
    using quietTicks_no_rock [OF assms] by blast
  have tail: "carbonDioxide (atmosphere (quietTicks (Suc n) w))
      = (1 - atmosphereLossRate) * carbonDioxide (atmosphere (quietTicks n w))" if "m \<le> n" for n
    using m that co2 [of n] by (simp add: algebra_simps)
  have "carbonDioxide (atmosphere (quietTicks (Suc n) w)) \<le> carbonDioxide (atmosphere (quietTicks n w))"
    if "0 \<le> carbonDioxide (atmosphere w)" "m \<le> n" for n
    using quietTicks_carbonDioxide_nonneg [OF assms that(1), of n] tail [OF that(2)]
    by (simp add: atmosphereLossRate_def)
  then have 5: "\<exists>m. (\<forall>n\<ge>m. rockCount (quietTicks n w) = 0)
                \<and> (0 \<le> carbonDioxide (atmosphere w) \<longrightarrow>
                     (\<forall>n\<ge>m. carbonDioxide (atmosphere (quietTicks (Suc n) w))
                              \<le> carbonDioxide (atmosphere (quietTicks n w))))"
    using m by blast
  have lim: "(\<lambda>n. (1 - atmosphereLossRate) ^ n * q) \<longlonglongrightarrow> 0" for q :: real
    using LIMSEQ_power_zero [of "1 - atmosphereLossRate"] lossRate_abs(1)
    by (simp add: tendsto_mult_left_zero)
  have 6: "(\<lambda>n. nitrogen (atmosphere (quietTicks n w))) \<longlonglongrightarrow> 0"
    "(\<lambda>n. oxygen (atmosphere (quietTicks n w))) \<longlonglongrightarrow> 0"
    "(\<lambda>n. methane (atmosphere (quietTicks n w))) \<longlonglongrightarrow> 0"
    unfolding g by (rule lim)+
  have 7: "(\<lambda>n. carbonDioxide (atmosphere (quietTicks n w))) \<longlonglongrightarrow> 0"
    by (rule geometric_tail_tendsto_zero [where m = m and c = "1 - atmosphereLossRate"])
       (use tail lossRate_abs(1) in blast)+
  show ?thesis
    using 1 2 3 4 5 6 7 by blast
qed

theorem quiet_gases_decay_witness:
  "wfGrid rockWorld
   \<and> oxygen (atmosphere (quietTicks 3 rockWorld))
       = (1 - atmosphereLossRate) ^ 3 * oxygen (atmosphere rockWorld)
   \<and> (\<lambda>n. carbonDioxide (atmosphere (quietTicks n rockWorld))) \<longlonglongrightarrow> 0"
  using quiet_gases_decay [OF wfGrid_rockWorld] wfGrid_rockWorld by blast

text \<open>
  The claim as stated fails for carbon dioxide. In the rock world the atmosphere holds
  none, and one tick without volcanism and biomass leaves 10000 units: the quantity
  has increased. The tick of the source gives the same quantity, since no tile of that
  world carries life.
\<close>

theorem quiet_carbonDioxide_increases:
  "carbonDioxide (atmosphere rockWorld) = 0
   \<and> rockCount rockWorld = 10000
   \<and> carbonDioxide (atmosphere (quietTick rockWorld)) = 10000
   \<and> \<not> carbonDioxide (atmosphere (quietTicks (Suc 0) rockWorld))
        \<le> carbonDioxide (atmosphere (quietTicks 0 rockWorld))
   \<and> carbonDioxide (atmosphere (tick (\<lambda>n. 0) rockWorld)) = 10000"
  by (simp add: rockWorld_quietTick rockWorld_tick rockCount_rockWorld rockWorld_atmosphere
      mkAtmosphere_def)

end
